(* ===== verification/Prelude.thy ===== *)
theory Prelude
  imports Main "HOL-Library.Sublist" "HOL-Library.Word"
begin

text \<open>
  Shared vocabulary of the development: Go error values and results, the reachable
  states of a transition system, the interface of an invariant, and the generic lemmas
  on lists and partial maps that the components use.
\<close>

named_theorems go_defs \<open>definitions of the model that the automation may unfold\<close>
named_theorems frame_simps \<open>which fields an operation leaves alone\<close>

section \<open>Go errors\<close>

text \<open>
  The sentinel errors of containerd's error package that the shim wraps and that its
  callers test for.
\<close>

datatype errdef = ErrNotFound | ErrFailedPrecondition | ErrAlreadyExists | ErrAborted

text \<open>
  An error that comes from outside the modelled code (the OCI runtime, the operating
  system, a library): its text, the sentinels in its chain, and whether it is the value
  \<open>unix.ESRCH\<close>.
\<close>

record ext_error =
  ext_text :: string
  ext_wraps :: "errdef list"
  ext_is_ESRCH :: bool

text \<open>
  An error value of the shim: an outside error, a sentinel, \<open>errors.New\<close>,
  \<open>errors.Errorf(prefix: %w)\<close> around another error, or \<open>errors.Join\<close>. The text
  is the constant part of the message; the arguments formatted into it are left out.
\<close>

datatype go_error =
    Ext ext_error
  | Sentinel errdef
  | ErrNew string
  | Wrapf string go_error
  | Joined "go_error list"

text \<open>\<open>errors.Is\<close> against a sentinel: the chain of wrapped errors is searched.\<close>

primrec err_is :: "go_error \<Rightarrow> errdef \<Rightarrow> bool" where
  "err_is (Ext x) d \<longleftrightarrow> d \<in> set (ext_wraps x)"
| "err_is (Sentinel d') d \<longleftrightarrow> d' = d"
| "err_is (ErrNew _) d \<longleftrightarrow> False"
| "err_is (Wrapf _ e) d \<longleftrightarrow> err_is e d"
| "err_is (Joined es) d \<longleftrightarrow> (\<exists>f \<in> set (map err_is es). f d)"

text \<open>
  What a call of a Go function ends in: a value, a non-nil error, or a panic that
  unwinds the caller.
\<close>

datatype 'a res = Ok 'a | Fail go_error | Panic string

definition is_ok :: "'a res \<Rightarrow> bool" where
  "is_ok r = (case r of Ok _ \<Rightarrow> True | _ \<Rightarrow> False)"

lemma is_ok_simps [simp]:
  "is_ok (Ok x)" "\<not> is_ok (Fail e)" "\<not> is_ok (Panic m)"
  by (simp_all add: is_ok_def)

lemma is_okE [elim]:
  assumes "is_ok r" obtains x where "r = Ok x"
  using assms by (cases r) auto

definition is_panic :: "'a res \<Rightarrow> bool" where
  "is_panic r = (case r of Panic _ \<Rightarrow> True | _ \<Rightarrow> False)"

lemma is_panic_simps [simp]:
  "\<not> is_panic (Ok x)" "\<not> is_panic (Fail e)" "is_panic (Panic m)"
  by (simp_all add: is_panic_def)

text \<open>\<open>errors.Errorf(prefix: %w, err)\<close> applied to the error of a call, as in
  \<open>if err != nil { return errors.Errorf(...) }; return nil\<close>.\<close>

definition wrap_err :: "string \<Rightarrow> 'a res \<Rightarrow> 'a res" where
  "wrap_err pre r = (case r of Fail e \<Rightarrow> Fail (Wrapf pre e) | _ \<Rightarrow> r)"

lemma wrap_err_simps [simp]:
  "wrap_err p (Ok x) = Ok x" "wrap_err p (Fail e) = Fail (Wrapf p e)"
  "wrap_err p (Panic m) = Panic m"
  by (simp_all add: wrap_err_def)

lemma wrap_err_is_ok [simp]: "is_ok (wrap_err p r) = is_ok r"
  by (cases r) simp_all

lemma wrap_err_is_panic [simp]: "is_panic (wrap_err p r) = is_panic r"
  by (cases r) simp_all

lemma wrap_err_eq_Ok [simp]: "wrap_err p r = Ok x \<longleftrightarrow> r = Ok x"
  by (cases r) simp_all

text \<open>
  Sequencing of calls that update a state: the second runs only when the first returned
  no error; an error or a panic ends the sequence with the state reached so far.
\<close>

fun and_then :: "'a res \<times> 's \<Rightarrow> ('a \<Rightarrow> 's \<Rightarrow> 'b res \<times> 's) \<Rightarrow> 'b res \<times> 's" where
  "and_then (Ok x, s) k = k x s"
| "and_then (Fail e, s) k = (Fail e, s)"
| "and_then (Panic m, s) k = (Panic m, s)"

fun wrapping :: "string \<Rightarrow> 'a res \<times> 's \<Rightarrow> 'a res \<times> 's" where
  "wrapping pre (r, s) = (wrap_err pre r, s)"

definition of_opt :: "ext_error option \<Rightarrow> unit res" where
  "of_opt e = (case e of None \<Rightarrow> Ok () | Some x \<Rightarrow> Fail (Ext x))"

definition of_sum :: "ext_error + 'a \<Rightarrow> 'a res" where
  "of_sum x = (case x of Inl e \<Rightarrow> Fail (Ext e) | Inr v \<Rightarrow> Ok v)"

lemma of_opt_simps [simp]: "of_opt None = Ok ()" "of_opt (Some e) = Fail (Ext e)"
  by (simp_all add: of_opt_def)

lemma of_sum_simps [simp]: "of_sum (Inl e) = Fail (Ext e)" "of_sum (Inr v) = Ok v"
  by (simp_all add: of_sum_def)

lemma of_opt_is_ok [simp]: "is_ok (of_opt e) \<longleftrightarrow> e = None"
  by (cases e) simp_all

lemma of_opt_eq_Ok [simp]: "of_opt e = Ok u \<longleftrightarrow> e = None"
  by (cases e) simp_all

lemma of_no_panic [simp]: "of_opt e \<noteq> Panic m" "of_sum x \<noteq> Panic m"
  by (cases e; simp) (cases x; simp)

lemma fst_wrapping [simp]: "fst (wrapping p x) = wrap_err p (fst x)"
  and snd_wrapping [simp]: "snd (wrapping p x) = snd x"
  by (cases x; simp)+

lemma snd_and_then:
  "snd (and_then x k) = (case fst x of Ok v \<Rightarrow> snd (k v (snd x)) | _ \<Rightarrow> snd x)"
  by (cases x; cases "fst x") auto

lemma fst_and_then:
  "fst (and_then x k) =
     (case fst x of Ok v \<Rightarrow> fst (k v (snd x)) | Fail e \<Rightarrow> Fail e | Panic m \<Rightarrow> Panic m)"
  by (cases x; cases "fst x") auto

lemma of_opt_not_panic [simp]: "\<not> is_panic (of_opt e)"
  by (cases e) simp_all

lemma is_panic_and_then:
  "is_panic (fst (and_then x k)) \<longleftrightarrow>
     is_panic (fst x) \<or> (\<exists>v. fst x = Ok v \<and> is_panic (fst (k v (snd x))))"
  by (auto simp: fst_and_then is_panic_def split: res.split)

lemma and_then_OkE:
  assumes "fst (and_then x k) = Ok v"
  obtains u where "fst x = Ok u" "fst (k u (snd x)) = Ok v" "snd (and_then x k) = snd (k u (snd x))"
  using assms by (cases x; cases "fst x") auto

lemma is_ok_and_then:
  "is_ok (fst (and_then x k)) \<longleftrightarrow>
     is_ok (fst x) \<and> (\<forall>v. fst x = Ok v \<longrightarrow> is_ok (fst (k v (snd x))))"
  by (auto simp: fst_and_then is_ok_def split: res.split)

lemma and_then_eq_Ok:
  "and_then x k = (Ok v, t) \<longleftrightarrow> (\<exists>u s. x = (Ok u, s) \<and> k u s = (Ok v, t))"
  by (cases x; cases "fst x") auto

lemma wrapping_eq_Ok [simp]: "wrapping p x = (Ok v, t) \<longleftrightarrow> x = (Ok v, t)"
  by (cases x) simp

section \<open>Transition systems\<close>

text \<open>The states a system can be in: those of its start, and those a step leads to.\<close>

inductive reachable :: "('s \<Rightarrow> bool) \<Rightarrow> ('s \<Rightarrow> 's \<Rightarrow> bool) \<Rightarrow> 's \<Rightarrow> bool"
  for start :: "'s \<Rightarrow> bool" and step :: "'s \<Rightarrow> 's \<Rightarrow> bool" where
  at_start: "start s \<Longrightarrow> reachable start step s"
| by_step: "reachable start step s \<Longrightarrow> step s t \<Longrightarrow> reachable start step t"

text \<open>
  The contract of an inductive invariant. A component interprets it on its own step
  relation; its client then has the invariant in every reachable state.
\<close>

locale inductive_invariant =
  fixes start :: "'s \<Rightarrow> bool"
    and step :: "'s \<Rightarrow> 's \<Rightarrow> bool"
    and inv :: "'s \<Rightarrow> bool"
  assumes start_inv: "start s \<Longrightarrow> inv s"
    and step_inv: "step s t \<Longrightarrow> inv s \<Longrightarrow> inv t"
begin

lemma reachable_inv: "reachable start step s \<Longrightarrow> inv s"
  by (induction rule: reachable.induct) (auto intro: start_inv step_inv)

lemma steps_inv: "step\<^sup>*\<^sup>* s t \<Longrightarrow> inv s \<Longrightarrow> inv t"
  by (induction rule: rtranclp_induct) (auto intro: step_inv)

end

lemma reachable_rtranclp:
  "reachable start step s \<Longrightarrow> step\<^sup>*\<^sup>* s t \<Longrightarrow> reachable start step t"
  by (rotate_tac 1, induction rule: rtranclp_induct) (auto intro: reachable.by_step)

section \<open>Lists and maps\<close>

lemma sum_list_map_filter_count:
  "length (filter P xs) = sum_list (map (\<lambda>x. if P x then 1 else 0) xs)"
  by (induction xs) auto

lemma map_upd_None_eq [simp]: "m k = None \<Longrightarrow> m(k := None) = m"
  by auto

lemma dom_fun_upd_None [simp]: "dom (m(k := None)) = dom m - {k}"
  by auto

lemma filter_all_id: "(\<And>x. x \<in> set xs \<Longrightarrow> P x) \<Longrightarrow> filter P xs = xs"
  by (induction xs) auto

end
