(* ===== verification/SyncMap.thy ===== *)
theory SyncMap
  imports Prelude "HOL-Library.AList"
begin

text \<open>
  The typed concurrent map of \<open>pkg/syncmap\<close> and the connection registry of
  \<open>core/runc/state\<close> that is built from eight of them. Every method of the map is
  one call of Go's \<open>sync.Map\<close>, so a method is one atomic step.
\<close>

section \<open>The map\<close>

text \<open>
  The entries of the underlying \<open>sync.Map\<close>, in the order in which \<open>Range\<close>
  visits them. Keys are distinct; the visiting order is otherwise arbitrary.
\<close>

record ('k, 'v) syncmap =
  entries :: "('k \<times> 'v) list"

definition syncmap_NewMap :: "('k, 'v) syncmap" where
  "syncmap_NewMap = \<lparr>entries = []\<rparr>"

text \<open>\<open>Range\<close> calls \<open>f\<close> on each entry until it returns false; \<open>f\<close> may update
  the caller's variables, here a value threaded through the calls.\<close>

fun range_entries :: "('s \<Rightarrow> 'k \<Rightarrow> 'v \<Rightarrow> 's \<times> bool) \<Rightarrow> 's \<Rightarrow> ('k \<times> 'v) list \<Rightarrow> 's" where
  "range_entries f s [] = s"
| "range_entries f s ((k, v) # xs) =
     (case f s k v of (s', go) \<Rightarrow> if go then range_entries f s' xs else s')"

definition syncmap_Range ::
  "('s \<Rightarrow> 'k \<Rightarrow> 'v \<Rightarrow> 's \<times> bool) \<Rightarrow> 's \<Rightarrow> ('k, 'v) syncmap \<Rightarrow> 's" where
  "syncmap_Range f s m = range_entries f s (entries m)"

definition syncmap_Len :: "('k, 'v) syncmap \<Rightarrow> int" where
  "syncmap_Len m = syncmap_Range (\<lambda>count k v. (count + 1, True)) 0 m"

definition syncmap_Delete :: "'k \<Rightarrow> ('k, 'v) syncmap \<Rightarrow> ('k, 'v) syncmap" where
  "syncmap_Delete k m = m\<lparr>entries := AList.delete k (entries m)\<rparr>"

definition syncmap_Load :: "('k, 'v) syncmap \<Rightarrow> 'k \<Rightarrow> 'v option" where
  "syncmap_Load m k = map_of (entries m) k"

definition syncmap_LoadAndDelete :: "'k \<Rightarrow> ('k, 'v) syncmap \<Rightarrow> 'v option \<times> ('k, 'v) syncmap" where
  "syncmap_LoadAndDelete k m = (map_of (entries m) k, m\<lparr>entries := AList.delete k (entries m)\<rparr>)"

definition syncmap_Store :: "'k \<Rightarrow> 'v \<Rightarrow> ('k, 'v) syncmap \<Rightarrow> ('k, 'v) syncmap" where
  "syncmap_Store k v m = m\<lparr>entries := AList.update k v (entries m)\<rparr>"

definition syncmap_LoadOrStore ::
  "'k \<Rightarrow> 'v \<Rightarrow> ('k, 'v) syncmap \<Rightarrow> ('v \<times> bool) \<times> ('k, 'v) syncmap" where
  "syncmap_LoadOrStore k v m =
     (case map_of (entries m) k of
        Some a \<Rightarrow> ((a, True), m)
      | None \<Rightarrow> ((v, False), m\<lparr>entries := AList.update k v (entries m)\<rparr>))"

definition syncmap_invar :: "('k, 'v) syncmap \<Rightarrow> bool" where
  "syncmap_invar m \<longleftrightarrow> distinct (map fst (entries m))"

section \<open>The interface of a keyed store\<close>

text \<open>
  What a client of the map relies on: a lookup after each update, and that every
  operation keeps the representation invariant.
\<close>

locale keyed_store =
  fixes empty :: "'m"
    and store :: "'k \<Rightarrow> 'v \<Rightarrow> 'm \<Rightarrow> 'm"
    and remove :: "'k \<Rightarrow> 'm \<Rightarrow> 'm"
    and load :: "'m \<Rightarrow> 'k \<Rightarrow> 'v option"
    and invar :: "'m \<Rightarrow> bool"
  assumes load_empty: "load empty = Map.empty"
    and load_store: "invar m \<Longrightarrow> load (store k v m) = (load m)(k \<mapsto> v)"
    and load_remove: "invar m \<Longrightarrow> load (remove k m) = (load m)(k := None)"
    and invar_empty: "invar empty"
    and invar_store: "invar m \<Longrightarrow> invar (store k v m)"
    and invar_remove: "invar m \<Longrightarrow> invar (remove k m)"
begin

lemmas store_laws = load_empty load_store load_remove invar_empty invar_store invar_remove

lemma load_store_same: "invar m \<Longrightarrow> load (store k v m) k = Some v"
  by (simp add: load_store)

lemma load_store_other: "invar m \<Longrightarrow> k' \<noteq> k \<Longrightarrow> load (store k v m) k' = load m k'"
  by (simp add: load_store)

lemma remove_store: "invar m \<Longrightarrow> load (remove k (store k v m)) = (load m)(k := None)"
  by (simp add: load_store load_remove invar_store)

text \<open>
  Retiring a key: it leaves the first store and, if it was there, enters the second.
\<close>

lemma retire_moves:
  assumes "invar open_m" "invar closed_m" "load open_m k = Some v"
  shows "load (remove k open_m) k = None \<and> load (store k v closed_m) k = Some v \<and>
    (\<forall>k'. k' \<noteq> k \<longrightarrow> load (remove k open_m) k' = load open_m k' \<and>
                     load (store k v closed_m) k' = load closed_m k')"
  using assms by (simp add: load_store load_remove)

lemma store_twice: "invar m \<Longrightarrow> load (store k v (store k w m)) = load (store k v m)"
  by (simp add: load_store invar_store)

end

section \<open>The map implements the interface\<close>

interpretation smap: keyed_store syncmap_NewMap syncmap_Store syncmap_Delete syncmap_Load syncmap_invar
proof (unfold_locales, goal_cases)
  case 1
  show ?case by (simp add: syncmap_NewMap_def syncmap_Load_def fun_eq_iff)
next
  case (2 m k v)
  show ?case by (simp add: syncmap_Load_def syncmap_Store_def update_conv' fun_eq_iff)
next
  case (3 m k)
  show ?case by (simp add: syncmap_Load_def syncmap_Delete_def delete_conv' fun_eq_iff)
next
  case 4
  show ?case by (simp add: syncmap_invar_def syncmap_NewMap_def)
next
  case (5 m k v)
  then show ?case by (simp add: syncmap_invar_def syncmap_Store_def distinct_update)
next
  case (6 m k)
  then show ?case by (simp add: syncmap_invar_def syncmap_Delete_def AList.distinct_delete)
qed

lemma syncmap_LoadAndDelete_eq:
  "syncmap_LoadAndDelete k m = (syncmap_Load m k, syncmap_Delete k m)"
  by (simp add: syncmap_LoadAndDelete_def syncmap_Load_def syncmap_Delete_def)

lemma syncmap_LoadOrStore_eq:
  "syncmap_LoadOrStore k v m =
     (case syncmap_Load m k of Some a \<Rightarrow> ((a, True), m) | None \<Rightarrow> ((v, False), syncmap_Store k v m))"
  by (simp add: syncmap_LoadOrStore_def syncmap_Load_def syncmap_Store_def split: option.split)

lemma range_entries_all:
  "(\<And>s k v. snd (f s k v)) \<Longrightarrow>
   range_entries f s xs = foldl (\<lambda>s (k, v). fst (f s k v)) s xs"
proof (induction xs arbitrary: s)
  case (Cons x xs)
  obtain k v where x: "x = (k, v)" by (cases x)
  have "f s k v = (fst (f s k v), True)"
    using Cons.prems [of s k v] by (simp add: prod_eq_iff)
  then show ?case using Cons x by (simp add: case_prod_beta)
qed simp

lemma count_entries: "foldl (\<lambda>c (k, v). c + 1) n xs = n + int (length xs)"
  by (induction xs arbitrary: n) auto

text \<open>\<open>Len\<close> counts the keys that \<open>Load\<close> finds.\<close>

lemma syncmap_Len_card:
  assumes "syncmap_invar m"
  shows "syncmap_Len m = int (card (dom (syncmap_Load m)))"
proof -
  have "syncmap_Len m = int (length (entries m))"
    by (simp add: syncmap_Len_def syncmap_Range_def range_entries_all count_entries)
  moreover have "length (entries m) = card (fst ` set (entries m))"
    using assms distinct_card [of "map fst (entries m)"] by (simp add: syncmap_invar_def)
  ultimately show ?thesis
    by (simp add: syncmap_Load_def [abs_def] dom_map_of_conv_image_fst)
qed

text \<open>
  Collecting the values that satisfy a test, as every caller of \<open>Range\<close> in
  \<open>pkg/taskgroup\<close> does.
\<close>

lemma range_collect:
  "range_entries (\<lambda>acc k v. (if P v then acc @ [v] else acc, True)) acc xs =
     acc @ filter P (map snd xs)"
  by (induction xs arbitrary: acc) auto

lemma syncmap_Range_collect:
  "syncmap_Range (\<lambda>acc k v. (if P v then acc @ [v] else acc, True)) [] m =
     filter P (map snd (entries m))"
  by (simp add: syncmap_Range_def range_collect)

lemma syncmap_Load_in_entries:
  "syncmap_invar m \<Longrightarrow> (k, v) \<in> set (entries m) \<longleftrightarrow> syncmap_Load m k = Some v"
  by (simp add: syncmap_invar_def syncmap_Load_def)

end
