(* ===== verification/Registry.thy ===== *)
theory Registry
  imports SyncMap
begin

text \<open>
  The registry of open and closed connections that the guest's server keeps
  (\<open>core/runc/state/state.go\<close>): four open maps, four closed ones. IO objects,
  consoles and sockets are opaque values.
\<close>

record ('io, 'con, 'vs, 'us) registry =
  openIOs :: "(string, 'io) syncmap"
  openConsoles :: "(string, 'con) syncmap"
  openVsockConnections :: "(32 word, 'vs) syncmap"
  openUnixConnections :: "(string, 'us) syncmap"
  closedIOs :: "(string, 'io) syncmap"
  closedConsoles :: "(string, 'con) syncmap"
  closedVsockConnections :: "(32 word, 'vs) syncmap"
  closedUnixConnections :: "(string, 'us) syncmap"

type_synonym ('io, 'con, 'vs, 'us) reg = "('io, 'con, 'vs, 'us) registry"

definition NewState :: "('io, 'con, 'vs, 'us) reg" where
  "NewState = \<lparr>openIOs = syncmap_NewMap, openConsoles = syncmap_NewMap,
     openVsockConnections = syncmap_NewMap, openUnixConnections = syncmap_NewMap,
     closedIOs = syncmap_NewMap, closedConsoles = syncmap_NewMap,
     closedVsockConnections = syncmap_NewMap, closedUnixConnections = syncmap_NewMap\<rparr>"

definition GetOpenIO :: "('io, 'con, 'vs, 'us) reg \<Rightarrow> string \<Rightarrow> 'io option" where
  "GetOpenIO s ref = syncmap_Load (openIOs s) ref"

definition GetOpenConsole :: "('io, 'con, 'vs, 'us) reg \<Rightarrow> string \<Rightarrow> 'con option" where
  "GetOpenConsole s ref = syncmap_Load (openConsoles s) ref"

definition StoreOpenIO ::
  "string \<Rightarrow> 'io \<Rightarrow> ('io, 'con, 'vs, 'us) reg \<Rightarrow> ('io, 'con, 'vs, 'us) reg" where
  "StoreOpenIO ref io s = s\<lparr>openIOs := syncmap_Store ref io (openIOs s)\<rparr>"

definition StoreOpenConsole ::
  "string \<Rightarrow> 'con \<Rightarrow> ('io, 'con, 'vs, 'us) reg \<Rightarrow> ('io, 'con, 'vs, 'us) reg" where
  "StoreOpenConsole ref con s = s\<lparr>openConsoles := syncmap_Store ref con (openConsoles s)\<rparr>"

definition DeleteOpenIO ::
  "string \<Rightarrow> ('io, 'con, 'vs, 'us) reg \<Rightarrow> ('io, 'con, 'vs, 'us) reg" where
  "DeleteOpenIO ref s =
     (case syncmap_LoadAndDelete ref (openIOs s) of
        (Some io, m) \<Rightarrow> s\<lparr>openIOs := m, closedIOs := syncmap_Store ref io (closedIOs s)\<rparr>
      | (None, m) \<Rightarrow> s\<lparr>openIOs := m\<rparr>)"

definition DeleteOpenConsole ::
  "string \<Rightarrow> ('io, 'con, 'vs, 'us) reg \<Rightarrow> ('io, 'con, 'vs, 'us) reg" where
  "DeleteOpenConsole ref s =
     (case syncmap_LoadAndDelete ref (openConsoles s) of
        (Some c, m) \<Rightarrow> s\<lparr>openConsoles := m, closedConsoles := syncmap_Store ref c (closedConsoles s)\<rparr>
      | (None, m) \<Rightarrow> s\<lparr>openConsoles := m\<rparr>)"

definition StoreOpenVsockConnection ::
  "32 word \<Rightarrow> 'vs \<Rightarrow> ('io, 'con, 'vs, 'us) reg \<Rightarrow> ('io, 'con, 'vs, 'us) reg" where
  "StoreOpenVsockConnection port conn s =
     s\<lparr>openVsockConnections := syncmap_Store port conn (openVsockConnections s)\<rparr>"

definition GetOpenVsockConnection :: "('io, 'con, 'vs, 'us) reg \<Rightarrow> 32 word \<Rightarrow> 'vs option" where
  "GetOpenVsockConnection s port = syncmap_Load (openVsockConnections s) port"

definition DeleteOpenVsockConnection ::
  "32 word \<Rightarrow> ('io, 'con, 'vs, 'us) reg \<Rightarrow> ('io, 'con, 'vs, 'us) reg" where
  "DeleteOpenVsockConnection port s =
     (case syncmap_LoadAndDelete port (openVsockConnections s) of
        (Some c, m) \<Rightarrow> s\<lparr>openVsockConnections := m,
                         closedVsockConnections := syncmap_Store port c (closedVsockConnections s)\<rparr>
      | (None, m) \<Rightarrow> s\<lparr>openVsockConnections := m\<rparr>)"

definition StoreOpenUnixConnection ::
  "string \<Rightarrow> 'us \<Rightarrow> ('io, 'con, 'vs, 'us) reg \<Rightarrow> ('io, 'con, 'vs, 'us) reg" where
  "StoreOpenUnixConnection path conn s =
     s\<lparr>openUnixConnections := syncmap_Store path conn (openUnixConnections s)\<rparr>"

definition GetOpenUnixConnection :: "('io, 'con, 'vs, 'us) reg \<Rightarrow> string \<Rightarrow> 'us option" where
  "GetOpenUnixConnection s path = syncmap_Load (openUnixConnections s) path"

definition DeleteOpenUnixConnection ::
  "string \<Rightarrow> ('io, 'con, 'vs, 'us) reg \<Rightarrow> ('io, 'con, 'vs, 'us) reg" where
  "DeleteOpenUnixConnection path s =
     (case syncmap_LoadAndDelete path (openUnixConnections s) of
        (Some c, m) \<Rightarrow> s\<lparr>openUnixConnections := m,
                         closedUnixConnections := syncmap_Store path c (closedUnixConnections s)\<rparr>
      | (None, m) \<Rightarrow> s\<lparr>openUnixConnections := m\<rparr>)"

definition registry_invar :: "('io, 'con, 'vs, 'us) reg \<Rightarrow> bool" where
  "registry_invar s \<longleftrightarrow>
     syncmap_invar (openIOs s) \<and> syncmap_invar (openConsoles s) \<and>
     syncmap_invar (openVsockConnections s) \<and> syncmap_invar (openUnixConnections s) \<and>
     syncmap_invar (closedIOs s) \<and> syncmap_invar (closedConsoles s) \<and>
     syncmap_invar (closedVsockConnections s) \<and> syncmap_invar (closedUnixConnections s)"

section \<open>One step of a client\<close>

text \<open>The calls that change the registry, as data, and what each does.\<close>

datatype ('io, 'con, 'vs, 'us) reg_op =
    PutIO string 'io | DropIO string
  | PutConsole string 'con | DropConsole string
  | PutVsock "32 word" 'vs | DropVsock "32 word"
  | PutUnix string 'us | DropUnix string

fun reg_apply ::
  "('io, 'con, 'vs, 'us) reg_op \<Rightarrow> ('io, 'con, 'vs, 'us) reg \<Rightarrow> ('io, 'con, 'vs, 'us) reg" where
  "reg_apply (PutIO r x) s = StoreOpenIO r x s"
| "reg_apply (DropIO r) s = DeleteOpenIO r s"
| "reg_apply (PutConsole r x) s = StoreOpenConsole r x s"
| "reg_apply (DropConsole r) s = DeleteOpenConsole r s"
| "reg_apply (PutVsock p x) s = StoreOpenVsockConnection p x s"
| "reg_apply (DropVsock p) s = DeleteOpenVsockConnection p s"
| "reg_apply (PutUnix p x) s = StoreOpenUnixConnection p x s"
| "reg_apply (DropUnix p) s = DeleteOpenUnixConnection p s"

lemmas registry_defs =
  GetOpenIO_def GetOpenConsole_def GetOpenVsockConnection_def GetOpenUnixConnection_def
  StoreOpenIO_def StoreOpenConsole_def StoreOpenVsockConnection_def StoreOpenUnixConnection_def
  DeleteOpenIO_def DeleteOpenConsole_def DeleteOpenVsockConnection_def DeleteOpenUnixConnection_def

lemma NewState_invar: "registry_invar NewState"
  by (simp add: registry_invar_def NewState_def smap.invar_empty)

lemma reg_apply_invar: "registry_invar s \<Longrightarrow> registry_invar (reg_apply op s)"
  by (cases op)
    (auto simp: registry_defs registry_invar_def syncmap_LoadAndDelete_eq smap.store_laws
      split: option.splits)

text \<open>
  The abstract view: four partial maps of what is open. The registry's operations are
  the obvious map updates on it.
\<close>

record ('io, 'con, 'vs, 'us) open_view =
  ioView :: "string \<rightharpoonup> 'io"
  consoleView :: "string \<rightharpoonup> 'con"
  vsockView :: "32 word \<rightharpoonup> 'vs"
  unixView :: "string \<rightharpoonup> 'us"

definition view :: "('io, 'con, 'vs, 'us) reg \<Rightarrow> ('io, 'con, 'vs, 'us) open_view" where
  "view s = \<lparr>ioView = GetOpenIO s, consoleView = GetOpenConsole s,
     vsockView = GetOpenVsockConnection s, unixView = GetOpenUnixConnection s\<rparr>"

fun view_apply ::
  "('io, 'con, 'vs, 'us) reg_op \<Rightarrow> ('io, 'con, 'vs, 'us) open_view \<Rightarrow>
   ('io, 'con, 'vs, 'us) open_view" where
  "view_apply (PutIO r x) v = v\<lparr>ioView := (ioView v)(r \<mapsto> x)\<rparr>"
| "view_apply (DropIO r) v = v\<lparr>ioView := (ioView v)(r := None)\<rparr>"
| "view_apply (PutConsole r x) v = v\<lparr>consoleView := (consoleView v)(r \<mapsto> x)\<rparr>"
| "view_apply (DropConsole r) v = v\<lparr>consoleView := (consoleView v)(r := None)\<rparr>"
| "view_apply (PutVsock p x) v = v\<lparr>vsockView := (vsockView v)(p \<mapsto> x)\<rparr>"
| "view_apply (DropVsock p) v = v\<lparr>vsockView := (vsockView v)(p := None)\<rparr>"
| "view_apply (PutUnix p x) v = v\<lparr>unixView := (unixView v)(p \<mapsto> x)\<rparr>"
| "view_apply (DropUnix p) v = v\<lparr>unixView := (unixView v)(p := None)\<rparr>"

lemma view_refines: "registry_invar s \<Longrightarrow> view (reg_apply op s) = view_apply op (view s)"
  by (cases op)
    (auto simp: view_def registry_defs [abs_def] registry_invar_def syncmap_LoadAndDelete_eq
      smap.load_store smap.load_remove fun_eq_iff split: option.splits)

text \<open>What each operation changes of what is open.\<close>

lemma registry_get_changed:
  assumes "registry_invar s"
  shows "GetOpenIO (StoreOpenIO r io s) = (GetOpenIO s)(r \<mapsto> io)"
    and "GetOpenIO (DeleteOpenIO r s) = (GetOpenIO s)(r := None)"
    and "GetOpenConsole (StoreOpenConsole r con s) = (GetOpenConsole s)(r \<mapsto> con)"
    and "GetOpenConsole (DeleteOpenConsole r s) = (GetOpenConsole s)(r := None)"
    and "GetOpenVsockConnection (StoreOpenVsockConnection p c s) = (GetOpenVsockConnection s)(p \<mapsto> c)"
    and "GetOpenVsockConnection (DeleteOpenVsockConnection p s) = (GetOpenVsockConnection s)(p := None)"
    and "GetOpenUnixConnection (StoreOpenUnixConnection q d s) = (GetOpenUnixConnection s)(q \<mapsto> d)"
    and "GetOpenUnixConnection (DeleteOpenUnixConnection q s) = (GetOpenUnixConnection s)(q := None)"
  using assms view_refines [of s "PutIO r io"] view_refines [of s "DropIO r"] view_refines [of s "PutConsole r con"]
    view_refines [of s "DropConsole r"] view_refines [of s "PutVsock p c"] view_refines [of s "DropVsock p"]
    view_refines [of s "PutUnix q d"] view_refines [of s "DropUnix q"]
  by (simp_all add: view_def)

lemma registry_get_frame [simp]:
  "GetOpenIO (StoreOpenConsole r con s) = GetOpenIO s"
  "GetOpenIO (DeleteOpenConsole r s) = GetOpenIO s"
  "GetOpenIO (StoreOpenVsockConnection p c s) = GetOpenIO s"
  "GetOpenIO (DeleteOpenVsockConnection p s) = GetOpenIO s"
  "GetOpenIO (StoreOpenUnixConnection q d s) = GetOpenIO s"
  "GetOpenIO (DeleteOpenUnixConnection q s) = GetOpenIO s"
  "GetOpenConsole (StoreOpenIO r io s) = GetOpenConsole s"
  "GetOpenConsole (DeleteOpenIO r s) = GetOpenConsole s"
  "GetOpenConsole (StoreOpenVsockConnection p c s) = GetOpenConsole s"
  "GetOpenConsole (DeleteOpenVsockConnection p s) = GetOpenConsole s"
  "GetOpenConsole (StoreOpenUnixConnection q d s) = GetOpenConsole s"
  "GetOpenConsole (DeleteOpenUnixConnection q s) = GetOpenConsole s"
  "GetOpenVsockConnection (StoreOpenIO r io s) = GetOpenVsockConnection s"
  "GetOpenVsockConnection (DeleteOpenIO r s) = GetOpenVsockConnection s"
  "GetOpenVsockConnection (StoreOpenConsole r con s) = GetOpenVsockConnection s"
  "GetOpenVsockConnection (DeleteOpenConsole r s) = GetOpenVsockConnection s"
  "GetOpenVsockConnection (StoreOpenUnixConnection q d s) = GetOpenVsockConnection s"
  "GetOpenVsockConnection (DeleteOpenUnixConnection q s) = GetOpenVsockConnection s"
  "GetOpenUnixConnection (StoreOpenIO r io s) = GetOpenUnixConnection s"
  "GetOpenUnixConnection (DeleteOpenIO r s) = GetOpenUnixConnection s"
  "GetOpenUnixConnection (StoreOpenConsole r con s) = GetOpenUnixConnection s"
  "GetOpenUnixConnection (DeleteOpenConsole r s) = GetOpenUnixConnection s"
  "GetOpenUnixConnection (StoreOpenVsockConnection p c s) = GetOpenUnixConnection s"
  "GetOpenUnixConnection (DeleteOpenVsockConnection p s) = GetOpenUnixConnection s"
  by (simp_all add: registry_defs [abs_def] fun_eq_iff split: prod.split option.split)

lemma registry_ops_invar [simp]:
  assumes "registry_invar s"
  shows "registry_invar (StoreOpenIO r io s)" and "registry_invar (DeleteOpenIO r s)"
    and "registry_invar (StoreOpenConsole r con s)" and "registry_invar (DeleteOpenConsole r s)"
    and "registry_invar (StoreOpenVsockConnection p c s)" and "registry_invar (DeleteOpenVsockConnection p s)"
    and "registry_invar (StoreOpenUnixConnection q d s)" and "registry_invar (DeleteOpenUnixConnection q s)"
  using assms reg_apply_invar [of s "PutIO r io"] reg_apply_invar [of s "DropIO r"]
    reg_apply_invar [of s "PutConsole r con"] reg_apply_invar [of s "DropConsole r"]
    reg_apply_invar [of s "PutVsock p c"] reg_apply_invar [of s "DropVsock p"]
    reg_apply_invar [of s "PutUnix q d"] reg_apply_invar [of s "DropUnix q"]
  by simp_all

lemma fold_reg_invar: "registry_invar s \<Longrightarrow> registry_invar (fold reg_apply ops s)"
  by (induction ops arbitrary: s) (auto intro: reg_apply_invar)

lemma fold_view_refines:
  "registry_invar s \<Longrightarrow> view (fold reg_apply ops s) = fold view_apply ops (view s)"
  by (induction ops arbitrary: s) (auto simp: view_refines reg_apply_invar)

section \<open>Properties\<close>


text \<open>
  deleting an open IO moves it: it is no longer open, it is recorded as closed, and
  no other entry of the open or the closed IOs changes. Deleting an identifier that is
  not open changes neither map.
\<close>

lemma DeleteOpenIO_moves:
  assumes "registry_invar s"
  shows "GetOpenIO (DeleteOpenIO ref s) = (GetOpenIO s)(ref := None) \<and>
    syncmap_Load (closedIOs (DeleteOpenIO ref s)) =
      (case GetOpenIO s ref of
         Some io \<Rightarrow> (syncmap_Load (closedIOs s))(ref \<mapsto> io)
       | None \<Rightarrow> syncmap_Load (closedIOs s))"
  using assms
  by (auto simp: registry_defs [abs_def] registry_invar_def syncmap_LoadAndDelete_eq
      smap.load_store smap.load_remove fun_eq_iff split: option.splits)

end
