(* ===== verification/GoStrings.thy ===== *)
theory GoStrings
  imports Prelude
begin

text \<open>
  What the sources use of Go's \<open>strings\<close>, \<open>strconv\<close> and \<open>path/filepath\<close>
  packages. A Go string is a sequence of bytes, here a \<^typ>\<open>string\<close>.
\<close>

section \<open>strings\<close>

text \<open>\<open>strings.Contains(s, sub)\<close>.\<close>

fun str_contains :: "string \<Rightarrow> string \<Rightarrow> bool" where
  "str_contains [] sub = (sub = [])"
| "str_contains (c # cs) sub = (prefix sub (c # cs) \<or> str_contains cs sub)"

lemma str_contains_sublist: "str_contains s sub \<longleftrightarrow> sublist sub s"
proof (induction s)
  case Nil
  then show ?case by simp
next
  case (Cons c cs)
  then show ?case by (simp add: sublist_Cons_right)
qed

lemma str_contains_infix [simp]: "str_contains (p @ sub @ q) sub"
  by (simp add: str_contains_sublist)

text \<open>
  \<open>strings.ToLower\<close> on the ASCII letters. The sources only search its result for
  ASCII text without a letter that a non-ASCII rune lowers to.
\<close>

definition char_lower :: "char \<Rightarrow> char" where
  "char_lower c =
     (let n = of_char c :: nat in if 65 \<le> n \<and> n \<le> 90 then char_of (n + 32) else c)"

definition to_lower :: "string \<Rightarrow> string" where
  "to_lower s = map char_lower s"

text \<open>\<open>strings.Split(s, sep)\<close> for a one-byte separator; the result is never empty.\<close>

fun split_on :: "char \<Rightarrow> string \<Rightarrow> string list" where
  "split_on c [] = [[]]"
| "split_on c (x # xs) =
     (if x = c then [] # split_on c xs
      else (case split_on c xs of [] \<Rightarrow> [[x]] | y # ys \<Rightarrow> (x # y) # ys))"

text \<open>\<open>strings.Join(parts, sep)\<close>.\<close>

fun join_with :: "string \<Rightarrow> string list \<Rightarrow> string" where
  "join_with sep [] = []"
| "join_with sep [x] = x"
| "join_with sep (x # y # ys) = x @ sep @ join_with sep (y # ys)"

lemma split_on_nonempty [simp]: "split_on c s \<noteq> []"
  by (induction s) (auto split: list.splits)

lemma split_on_no_sep: "c \<notin> set s \<Longrightarrow> split_on c s = [s]"
  by (induction s) auto

lemma split_on_append_sep:
  "c \<notin> set x \<Longrightarrow> split_on c (x @ c # rest) = x # split_on c rest"
  by (induction x) auto

lemma split_on_parts_no_sep: "p \<in> set (split_on c s) \<Longrightarrow> c \<notin> set p"
proof (induction s arbitrary: p)
  case Nil
  then show ?case by simp
next
  case (Cons x xs)
  then show ?case by (cases "split_on c xs") (auto split: if_splits)
qed

lemma join_with_Cons: "xs \<noteq> [] \<Longrightarrow> join_with sep (x # xs) = x @ sep @ join_with sep xs"
  by (cases xs) simp_all

text \<open>Splitting and joining are inverse to each other.\<close>

lemma join_split: "join_with [c] (split_on c s) = s"
proof (induction s)
  case Nil
  then show ?case by simp
next
  case (Cons x xs)
  obtain y ys where e: "split_on c xs = y # ys"
    by (cases "split_on c xs") auto
  show ?case
    using Cons e by (cases ys) auto
qed

lemma split_join:
  "parts \<noteq> [] \<Longrightarrow> (\<And>p. p \<in> set parts \<Longrightarrow> c \<notin> set p) \<Longrightarrow>
   split_on c (join_with [c] parts) = parts"
proof (induction parts rule: induct_list012)
  case (3 x y ys)
  then show ?case by (simp add: split_on_append_sep)
qed (auto simp: split_on_no_sep)

lemma split_on_hd: "hd (split_on c s) = takeWhile (\<lambda>x. x \<noteq> c) s"
proof (induction s)
  case Nil
  then show ?case by simp
next
  case (Cons x xs)
  then show ?case by (cases "split_on c xs") auto
qed

section \<open>path/filepath\<close>

text \<open>
  \<open>filepath.Clean\<close> on slash-separated components: empty and \<open>.\<close> components
  vanish, \<open>..\<close> removes the component before it, and at the root it vanishes. The
  first argument says whether the path is rooted, the second is the stack of components
  kept so far, innermost first.
\<close>

fun clean_parts :: "bool \<Rightarrow> string list \<Rightarrow> string list \<Rightarrow> string list" where
  "clean_parts rooted out [] = rev out"
| "clean_parts rooted out (x # xs) =
     (if x = [] \<or> x = ''.'' then clean_parts rooted out xs
      else if x = ''..'' then
        (case out of
           [] \<Rightarrow> (if rooted then clean_parts rooted [] xs else clean_parts rooted [x] xs)
         | y # ys \<Rightarrow> (if y = ''..'' then clean_parts rooted (x # out) xs
                      else clean_parts rooted ys xs))
      else clean_parts rooted (x # out) xs)"

definition is_rooted :: "string \<Rightarrow> bool" where
  "is_rooted p = (case p of [] \<Rightarrow> False | c # _ \<Rightarrow> c = CHR ''/'')"

definition filepath_Clean :: "string \<Rightarrow> string" where
  "filepath_Clean p =
     (let ps = clean_parts (is_rooted p) [] (split_on (CHR ''/'') p)
      in if is_rooted p then CHR ''/'' # join_with ''/'' ps
         else if ps = [] then ''.'' else join_with ''/'' ps)"

text \<open>\<open>filepath.Join\<close>: the non-empty elements joined by slashes, then cleaned.\<close>

definition filepath_Join :: "string list \<Rightarrow> string" where
  "filepath_Join es =
     (case filter (\<lambda>e. e \<noteq> []) es of
        [] \<Rightarrow> [] | x # xs \<Rightarrow> filepath_Clean (join_with ''/'' (x # xs)))"

lemma split_on_append:
  "split_on c (a @ b) =
     butlast (split_on c a) @ (last (split_on c a) @ hd (split_on c b)) # tl (split_on c b)"
proof (induction a)
  case Nil
  then show ?case by simp
next
  case (Cons x xs)
  show ?case
  proof (cases "x = c")
    case True
    then show ?thesis using Cons by simp
  next
    case False
    obtain y ys where "split_on c xs = y # ys" by (cases "split_on c xs") auto
    with False Cons show ?thesis by (cases ys) auto
  qed
qed

lemma split_on_append_sep_gen:
  "split_on c (a @ c # b) = split_on c a @ split_on c b"
  by (simp add: split_on_append)

lemma clean_parts_append:
  "clean_parts r out (xs @ ys) = clean_parts r (rev (clean_parts r out xs)) ys"
proof (induction r out xs rule: clean_parts.induct)
  case (2 rooted out x xs)
  then show ?case by (cases out) auto
qed simp

text \<open>A component that names neither the current nor the parent directory.\<close>

definition plain_name :: "string \<Rightarrow> bool" where
  "plain_name n \<longleftrightarrow> n \<noteq> [] \<and> n \<noteq> ''.'' \<and> n \<noteq> ''..'' \<and> CHR ''/'' \<notin> set n"

text \<open>
  Joining a directory with a plain name puts that name last, after the directory's own
  cleaned components.
\<close>

lemma clean_parts_snoc_plain:
  "plain_name n \<Longrightarrow> clean_parts r [] (xs @ [n]) = clean_parts r [] xs @ [n]"
  by (simp add: clean_parts_append plain_name_def)

definition dir_parts :: "string \<Rightarrow> string list" where
  "dir_parts d = (if d = [] then [] else clean_parts (is_rooted d) [] (split_on (CHR ''/'') d))"

lemma is_rooted_append: "d \<noteq> [] \<Longrightarrow> is_rooted (d @ x) = is_rooted d"
  by (cases d) (simp_all add: is_rooted_def)

lemma filepath_Join_plain:
  assumes "plain_name n"
  shows "filepath_Join [d, n] =
    (if is_rooted d then ''/'' else []) @ join_with ''/'' (dir_parts d @ [n])"
proof (cases "d = []")
  case True
  with assms have "\<not> is_rooted n"
    by (cases n) (auto simp: plain_name_def is_rooted_def)
  with True assms show ?thesis
    by (simp add: filepath_Join_def filepath_Clean_def dir_parts_def plain_name_def
        split_on_no_sep is_rooted_def)
next
  case False
  have n: "n \<noteq> []" and s: "split_on (CHR ''/'') n = [n]"
    using assms by (auto simp: plain_name_def split_on_no_sep)
  have "clean_parts (is_rooted d) [] (split_on (CHR ''/'') (d @ CHR ''/'' # n))
      = dir_parts d @ [n]"
    using False s by (simp add: split_on_append_sep_gen clean_parts_snoc_plain assms dir_parts_def)
  with False n show ?thesis
    by (cases "is_rooted d")
      (simp_all add: filepath_Join_def filepath_Clean_def is_rooted_append Let_def)
qed

lemma join_with_snoc:
  "join_with sep (xs @ [n]) = (if xs = [] then n else join_with sep xs @ sep @ n)"
  by (induction xs rule: induct_list012) auto

text \<open>Two plain names joined to the same directory give the same path only if equal.\<close>

lemma filepath_Join_plain_inj:
  assumes "plain_name n" "plain_name m" "filepath_Join [d, n] = filepath_Join [d, m]"
  shows "n = m"
  using assms by (auto simp: filepath_Join_plain join_with_snoc split: if_splits)

section \<open>Searching and trimming\<close>

text \<open>\<open>strings.Index\<close> and \<open>strings.LastIndex\<close> of a one-byte string; absent is \<open>None\<close>.\<close>

fun str_index :: "char \<Rightarrow> string \<Rightarrow> nat option" where
  "str_index c [] = None"
| "str_index c (x # xs) = (if x = c then Some 0 else map_option Suc (str_index c xs))"

fun str_last_index :: "char \<Rightarrow> string \<Rightarrow> nat option" where
  "str_last_index c [] = None"
| "str_last_index c (x # xs) =
     (case str_last_index c xs of
        Some i \<Rightarrow> Some (Suc i)
      | None \<Rightarrow> if x = c then Some 0 else None)"

text \<open>\<open>strings.TrimSpace\<close> for the ASCII white space.\<close>

definition is_space :: "char \<Rightarrow> bool" where
  "is_space c = (let n = of_char c :: nat in 9 \<le> n \<and> n \<le> 13 \<or> n = 32)"

definition TrimSpace :: "string \<Rightarrow> string" where
  "TrimSpace s = rev (dropWhile is_space (rev (dropWhile is_space s)))"

lemma str_index_absent: "c \<notin> set s \<Longrightarrow> str_index c s = None"
  by (induction s) auto

lemma str_index_first: "c \<notin> set p \<Longrightarrow> str_index c (p @ c # q) = Some (length p)"
  by (induction p) auto

lemma str_index_bound: "str_index c s = Some i \<Longrightarrow> i < length s \<and> s ! i = c"
  by (induction s arbitrary: i) (auto split: if_splits)

lemma str_last_index_absent: "c \<notin> set s \<Longrightarrow> str_last_index c s = None"
  by (induction s) auto

lemma str_last_index_last: "c \<notin> set q \<Longrightarrow> str_last_index c (p @ c # q) = Some (length p)"
  by (induction p) (auto simp: str_last_index_absent)

lemma TrimSpace_id:
  assumes "s \<noteq> []" "\<not> is_space (hd s)" "\<not> is_space (last s)"
  shows "TrimSpace s = s"
proof -
  have "dropWhile is_space s = s" using assms(1,2) by (cases s) auto
  moreover have "dropWhile is_space (rev s) = rev s"
    using assms(1,3) by (cases s rule: rev_cases) auto
  ultimately show ?thesis by (simp add: TrimSpace_def)
qed

lemma TrimSpace_front: "\<forall>c \<in> set p. is_space c \<Longrightarrow> TrimSpace (p @ s) = TrimSpace s"
  by (simp add: TrimSpace_def dropWhile_append2)

lemma TrimSpace_blank [simp]: "TrimSpace [] = []"
  by (simp add: TrimSpace_def)

section \<open>strconv\<close>

text \<open>Decimal digits of a number, as \<open>%d\<close> and \<open>strconv.Itoa\<close> print them.\<close>

definition digit_char :: "nat \<Rightarrow> char" where
  "digit_char d = char_of (48 + d)"

lemma digit_char_simps:
  "digit_char 0 = CHR ''0''" "digit_char 1 = CHR ''1''" "digit_char (Suc 0) = CHR ''1''"
  "digit_char 2 = CHR ''2''" "digit_char 3 = CHR ''3''" "digit_char 4 = CHR ''4''"
  "digit_char 5 = CHR ''5''" "digit_char 6 = CHR ''6''" "digit_char 7 = CHR ''7''"
  "digit_char 8 = CHR ''8''" "digit_char 9 = CHR ''9''"
  by (code_simp)+

fun nat_digits :: "nat \<Rightarrow> string" where
  "nat_digits n = (if n < 10 then [digit_char n] else nat_digits (n div 10) @ [digit_char (n mod 10)])"

declare nat_digits.simps [simp del]

definition digit_val :: "char \<Rightarrow> nat option" where
  "digit_val c = (let n = of_char c :: nat in if 48 \<le> n \<and> n \<le> 57 then Some (n - 48) else None)"

lemma digit_val_digit_char: "d < 10 \<Longrightarrow> digit_val (digit_char d) = Some d"
  by (simp add: digit_val_def digit_char_def of_char_of Let_def)

text \<open>The value of a digit string, read left to right.\<close>

fun parse_digits :: "nat \<Rightarrow> string \<Rightarrow> nat option" where
  "parse_digits acc [] = Some acc"
| "parse_digits acc (c # cs) =
     (case digit_val c of None \<Rightarrow> None | Some d \<Rightarrow> parse_digits (acc * 10 + d) cs)"

text \<open>\<open>strconv.ParseUint(s, 10, 64)\<close>: no sign, at least one digit, in range.\<close>

definition ParseUint64 :: "string \<Rightarrow> nat option" where
  "ParseUint64 s =
     (if s = [] then None
      else (case parse_digits 0 s of
              None \<Rightarrow> None
            | Some n \<Rightarrow> (if n < 2 ^ 64 then Some n else None)))"

text \<open>\<open>strconv.Atoi\<close>: an optional sign, at least one digit, in the range of a 64-bit int.\<close>

definition Atoi :: "string \<Rightarrow> int option" where
  "Atoi s =
     (let neg = (s \<noteq> [] \<and> hd s = CHR ''-'');
          t = (if s \<noteq> [] \<and> (hd s = CHR ''-'' \<or> hd s = CHR ''+'') then tl s else s)
      in if t = [] then None
         else (case parse_digits 0 t of
                 None \<Rightarrow> None
               | Some n \<Rightarrow> (if neg then (if n \<le> 2 ^ 63 then Some (- int n) else None)
                            else (if n < 2 ^ 63 then Some (int n) else None))))"

lemma parse_digits_append:
  "parse_digits acc (xs @ ys) =
     (case parse_digits acc xs of None \<Rightarrow> None | Some a \<Rightarrow> parse_digits a ys)"
  by (induction xs arbitrary: acc) (auto split: option.splits)

lemma parse_nat_digits: "parse_digits 0 (nat_digits n) = Some n"
proof (induction n rule: nat_digits.induct)
  case (1 n)
  show ?case
  proof (cases "n < 10")
    case True
    then show ?thesis by (simp add: nat_digits.simps [of n] digit_val_digit_char)
  next
    case False
    then have "parse_digits 0 (nat_digits (n div 10)) = Some (n div 10)"
      using "1.IH" by simp
    with False show ?thesis
      by (simp add: nat_digits.simps [of n] parse_digits_append digit_val_digit_char)
  qed
qed

lemma nat_digits_nonempty [simp]: "nat_digits n \<noteq> []"
  by (subst nat_digits.simps) simp

lemma nat_digits_inj: "nat_digits n = nat_digits m \<Longrightarrow> n = m"
  by (metis parse_nat_digits option.inject)

lemma nat_digits_are_digits: "c \<in> set (nat_digits n) \<Longrightarrow> \<exists>d < 10. c = digit_char d"
proof (induction n rule: nat_digits.induct)
  case (1 n)
  then show ?case
    by (cases "n < 10") (auto simp: nat_digits.simps [of n] intro: exI [of _ "n mod 10"])
qed

lemma digit_char_code: "d < 10 \<Longrightarrow> (of_char (digit_char d) :: nat) = 48 + d"
  by (simp add: digit_char_def of_char_of)

lemma ParseUint64_nat_digits: "n < 2 ^ 64 \<Longrightarrow> ParseUint64 (nat_digits n) = Some n"
  by (simp add: ParseUint64_def parse_nat_digits)

lemma nat_digits_no_sign: "hd (nat_digits n) \<noteq> CHR ''-'' \<and> hd (nat_digits n) \<noteq> CHR ''+''"
proof -
  have "hd (nat_digits n) \<in> set (nat_digits n)" by simp
  then obtain d where "d < 10" "hd (nat_digits n) = digit_char d"
    using nat_digits_are_digits by blast
  moreover have "(of_char (digit_char d) :: nat) \<noteq> of_char (CHR ''-'') \<and>
      (of_char (digit_char d) :: nat) \<noteq> of_char (CHR ''+'')" if "d < 10" for d
    using that by (simp add: digit_char_code)
  ultimately show ?thesis by metis
qed

lemma Atoi_nat_digits: "n < 2 ^ 63 \<Longrightarrow> Atoi (nat_digits n) = Some (int n)"
  using nat_digits_no_sign [of n] by (simp add: Atoi_def Let_def parse_nat_digits)

text \<open>\<open>strconv.FormatInt(i, 10)\<close>; reading back what it printed gives the number.\<close>

definition int_digits :: "int \<Rightarrow> string" where
  "int_digits i = (if i < 0 then CHR ''-'' # nat_digits (nat (- i)) else nat_digits (nat i))"

lemma Atoi_int_digits: "- (2 ^ 63) \<le> i \<Longrightarrow> i < 2 ^ 63 \<Longrightarrow> Atoi (int_digits i) = Some i"
proof (cases "i < 0")
  case True
  assume "- (2 ^ 63) \<le> i"
  with True show ?thesis
    by (simp add: int_digits_def Atoi_def Let_def parse_nat_digits nat_le_iff)
next
  case False
  assume "i < 2 ^ 63"
  with False show ?thesis
    by (simp add: int_digits_def Atoi_nat_digits nat_less_iff)
qed

lemma digit_char_not:
  "(of_char c :: nat) < 48 \<or> 57 < (of_char c :: nat) \<Longrightarrow> c \<notin> set (nat_digits n)"
  using nat_digits_are_digits [of c n] digit_char_code by fastforce

section \<open>More of strings and path/filepath\<close>

text \<open>\<open>strings.Split(s, sep)\<close> for a non-empty separator of several bytes; the second
  argument holds the bytes of the current part, last one first.\<close>

function split_str :: "string \<Rightarrow> string \<Rightarrow> string \<Rightarrow> string list" where
  "split_str sep acc s =
     (if sep \<noteq> [] \<and> s \<noteq> [] \<and> prefix sep s then rev acc # split_str sep [] (drop (length sep) s)
      else (case s of [] \<Rightarrow> [rev acc] | c # cs \<Rightarrow> split_str sep (c # acc) cs))"
  by pat_completeness auto
termination
  by (relation "measure (\<lambda>(sep, acc, s). length s)") auto

declare split_str.simps [simp del]

lemma split_str_one:
  assumes "\<not> str_contains q sep" "sep \<noteq> []"
  shows "split_str sep acc q = [rev acc @ q]"
  using assms
proof (induction q arbitrary: acc)
  case Nil
  then show ?case by (simp add: split_str.simps)
next
  case (Cons c cs)
  then show ?case by (subst split_str.simps) simp
qed

text \<open>\<open>strings.HasSuffix\<close>.\<close>

definition has_suffix :: "string \<Rightarrow> string \<Rightarrow> bool" where
  "has_suffix s suf = suffix suf s"

lemma has_suffix_code [code]: "has_suffix s suf = prefix (rev suf) (rev s)"
  by (simp add: has_suffix_def suffix_to_prefix)

text \<open>\<open>filepath.Dir\<close>: all but the last component, cleaned.\<close>

definition filepath_Dir :: "string \<Rightarrow> string" where
  "filepath_Dir p = filepath_Clean (rev (dropWhile (\<lambda>c. c \<noteq> CHR ''/'') (rev p)))"

text \<open>\<open>filepath.Base\<close>: trailing slashes go, then everything up to the last slash.\<close>

definition filepath_Base :: "string \<Rightarrow> string" where
  "filepath_Base p =
     (if p = [] then ''.''
      else let q = dropWhile (\<lambda>c. c = CHR ''/'') (rev p) in
        if q = [] then ''/'' else rev (takeWhile (\<lambda>c. c \<noteq> CHR ''/'') q))"

end
