(* ===== verification/Runtime.thy ===== *)
theory Runtime
  imports GoStrings
begin

text \<open>
  What the shim's processes call: the OCI runtime interface of
  \<open>core/runc/runtime/runtime.go\<close>, the console platform and the operating system. All
  of it is an argument of the model, an \<open>env\<close> whose functions give the outcome of each
  call. An operation takes its own \<open>env\<close> and makes each call at most once per
  argument, so quantifying over \<open>env\<close> in a theorem covers every behaviour of the
  outside, including a different answer each time the operation is invoked.

  Objects that live outside (sockets, consoles, IO objects, files) are \<open>handle\<close>s.
  The \<open>effect\<close>s an operation has on them are recorded in order.
\<close>

type_synonym handle = nat

section \<open>Configurations\<close>

record stdio =
  Stdin :: string
  Stdout :: string
  Stderr :: string
  Terminal :: bool

record io_option =
  OpenStdin :: bool
  OpenStdout :: bool
  OpenStderr :: bool

record mount =
  mtType :: string
  mtSource :: string
  mtTarget :: string
  mtOptions :: "string list"

record shim_options =
  BinaryName :: string
  IoUid :: int
  IoGid :: int
  optNoPivotRoot :: bool
  optNoNewKeyring :: bool
  optCriuWorkPath :: string

record create_config =
  ccID :: string
  ccBundle :: string
  ccRuntime :: string
  ccRootfs :: "mount list"
  ccTerminal :: bool
  ccStdin :: string
  ccStdout :: string
  ccStderr :: string
  ccCheckpoint :: string
  ccParentCheckpoint :: string
  ccOptions :: shim_options

datatype options_value = NilValue | OptionsValue shim_options | OtherValue

record checkpoint_options =
  cpExit :: bool
  cpOpenTcp :: bool
  cpExternalUnixSockets :: bool
  cpTerminal :: bool
  cpFileLocks :: bool
  cpEmptyNamespaces :: "string list"
  cpWorkPath :: string

text \<open>The part of an OCI specification the shim reads: type and path of the Linux namespaces.\<close>

record oci_spec =
  linuxNamespaces :: "(string \<times> string) list option"

record proc_spec =
  specTerminal :: bool
  specArgs :: "string list"

record exec_config =
  ecID :: string
  ecTerminal :: bool
  ecStdin :: string
  ecStdout :: string
  ecStderr :: string
  ecSpec :: "proc_spec option"

record checkpoint_config =
  ckWorkDir :: string
  ckPath :: string
  ckExit :: bool
  ckAllowOpenTCP :: bool
  ckAllowExternalUnixSockets :: bool
  ckAllowTerminal :: bool
  ckFileLocks :: bool
  ckEmptyNamespaces :: "string list"

section \<open>Options of runtime calls\<close>

record create_opts =
  coPidFile :: string
  coNoPivot :: bool
  coNoNewKeyring :: bool
  coIO :: "handle option"
  coConsoleSocket :: "handle option"

record exec_opts =
  eoPidFile :: string
  eoDetach :: bool
  eoIO :: "handle option"
  eoConsoleSocket :: "handle option"

record checkpoint_opts =
  ckoWorkDir :: string
  ckoImagePath :: string
  ckoParentPath :: string
  ckoAllowOpenTCP :: bool
  ckoAllowExternalUnixSockets :: bool
  ckoAllowTerminal :: bool
  ckoFileLocks :: bool
  ckoEmptyNamespaces :: "string list"

record restore_opts =
  roCheckpoint :: checkpoint_opts
  roPidFile :: string
  roNoPivot :: bool
  roDetach :: bool
  roNoSubreaper :: bool
  roIO :: "handle option"
  roConsoleSocket :: "handle option"

datatype fifo_mode = FifoWriteNonblock | FifoWrite | FifoRead | FifoReadNonblock

section \<open>The outside\<close>

record env =
  StdioIsNull :: "stdio \<Rightarrow> bool"
  NewPipeIO :: "int \<Rightarrow> int \<Rightarrow> io_option \<Rightarrow> ext_error + handle"
  NewTempConsoleSocket :: "ext_error + handle"
  NewNullIO :: "ext_error + handle"
  rtCreate :: "string \<Rightarrow> string \<Rightarrow> create_opts \<Rightarrow> ext_error option"
  rtExec :: "string \<Rightarrow> proc_spec \<Rightarrow> exec_opts \<Rightarrow> ext_error option"
  rtCheckpoint :: "string \<Rightarrow> checkpoint_opts \<Rightarrow> bool \<Rightarrow> ext_error option"
  rtRestore :: "string \<Rightarrow> string \<Rightarrow> restore_opts \<Rightarrow> ext_error option"
  rtKill :: "string \<Rightarrow> int \<Rightarrow> bool \<Rightarrow> ext_error option"
  rtStart :: "string \<Rightarrow> ext_error option"
  rtDelete :: "string \<Rightarrow> ext_error option"
  rtUpdate :: "string \<Rightarrow> string \<Rightarrow> ext_error option"
  rtPause :: "string \<Rightarrow> ext_error option"
  rtResume :: "string \<Rightarrow> ext_error option"
  rtPs :: "string \<Rightarrow> ext_error + int list"
  rtReadPidFile :: "string \<Rightarrow> ext_error + int"
  rtClose :: "ext_error option"
  ReceiveMaster :: "handle \<Rightarrow> ext_error + handle"
  CopyConsole :: "handle \<Rightarrow> string \<Rightarrow> stdio \<Rightarrow> ext_error + handle"
  ConsoleResize :: "handle \<Rightarrow> 16 word \<Rightarrow> 16 word \<Rightarrow> ext_error option"
  IsFifo :: "string \<Rightarrow> ext_error + bool"
  OpenFifo :: "string \<Rightarrow> fifo_mode \<Rightarrow> ext_error + handle"
  OpenFileAppend :: "string \<Rightarrow> ext_error + handle"
  CreateFileAppend :: "string \<Rightarrow> ext_error option"
  MkdirAll :: "string \<Rightarrow> ext_error option"
  ParseURL :: "string \<Rightarrow> ext_error + string \<times> string"
  osPipe :: "nat \<Rightarrow> ext_error + handle \<times> handle"
  cmdStart :: "ext_error option"
  closeReadyPipe :: "ext_error option"
  cmdKill :: "ext_error option"
  readReadyByte :: "ext_error option"
  closeHandle :: "handle \<Rightarrow> ext_error option"
  NamespaceRequired :: "ext_error + string"
  UnmarshalResources :: "string \<Rightarrow> ext_error + string"
  UnmarshalSpec :: "string \<Rightarrow> ext_error + proc_spec"
  UnmarshalOptions :: "string \<Rightarrow> ext_error + options_value"
  UnmarshalCheckpointOptions :: "string \<Rightarrow> ext_error + checkpoint_options"
  MarshalOptions :: "shim_options \<Rightarrow> ext_error + string"
  ParseOptions :: "string \<Rightarrow> ext_error + shim_options"
  osMkdir :: "string \<Rightarrow> (ext_error \<times> bool) option"
  WriteFileFails :: "string \<Rightarrow> ext_error option"
  osGetpid :: nat
  DecodeSpec :: "string \<Rightarrow> ext_error + oci_spec"
  ociReadSpec :: "string \<Rightarrow> ext_error + oci_spec"
  rtcCreate :: "string \<Rightarrow> create_config \<Rightarrow> string \<Rightarrow> ext_error + bool"
  serveGrpcFails :: "ext_error option"
  MarshalDetails :: "string \<Rightarrow> ext_error + string"
  cgroupStat :: "ext_error + string"
  MarshalStats :: "string \<Rightarrow> ext_error + string"
  unixKill :: "int \<Rightarrow> int \<Rightarrow> ext_error option"
  timeNow :: int

datatype effect =
    CallNewPipeIO io_option
  | CallNewTempConsoleSocket
  | CallNewNullIO
  | CallCreate string string create_opts
  | CallExec string proc_spec exec_opts
  | CallCheckpoint string checkpoint_opts bool
  | CallRestore string string restore_opts
  | CallKill string int bool
  | CallStart string
  | CallDelete string
  | CallUpdate string string
  | CallPause string
  | CallResume string
  | CallReadPidFile string
  | CallRuntimeClose
  | CallUnixKill int int
  | DoOpenFifo string fifo_mode
  | DoReceiveMaster handle
  | DoCopyConsole handle
  | DoShutdownConsole "handle option"
  | DoResizeConsole handle
  | DoStartCopy
  | DoClose handle
  | DoStartLogger
  | DoKillLogger
  | DoRemove string
  | DoRemoveAll string
  | DoCopyFile string string
  | DoCloseWaitBlock
  | CallRuntimeCreate create_config


section \<open>An outside in which every call succeeds\<close>

text \<open>Concrete runs start from this environment and change the calls that matter to them.\<close>

definition env_ok :: env where
  "env_ok = \<lparr>
     StdioIsNull = (\<lambda>s. Stdin s = [] \<and> Stdout s = [] \<and> Stderr s = []),
     NewPipeIO = (\<lambda>_ _ _. Inr 1),
     NewTempConsoleSocket = Inr 2,
     NewNullIO = Inr 3,
     rtCreate = (\<lambda>_ _ _. None),
     rtExec = (\<lambda>_ _ _. None),
     rtCheckpoint = (\<lambda>_ _ _. None),
     rtRestore = (\<lambda>_ _ _. None),
     rtKill = (\<lambda>_ _ _. None),
     rtStart = (\<lambda>_. None),
     rtDelete = (\<lambda>_. None),
     rtUpdate = (\<lambda>_ _. None),
     rtPause = (\<lambda>_. None),
     rtResume = (\<lambda>_. None),
     rtPs = (\<lambda>_. Inr []),
     rtReadPidFile = (\<lambda>_. Inr 42),
     rtClose = None,
     ReceiveMaster = (\<lambda>_. Inr 4),
     CopyConsole = (\<lambda>_ _ _. Inr 5),
     ConsoleResize = (\<lambda>_ _ _. None),
     IsFifo = (\<lambda>_. Inr False),
     OpenFifo = (\<lambda>_ _. Inr 6),
     OpenFileAppend = (\<lambda>_. Inr 7),
     CreateFileAppend = (\<lambda>_. None),
     MkdirAll = (\<lambda>_. None),
     ParseURL = (\<lambda>s. Inr ([], s)),
     osPipe = (\<lambda>i. Inr (10 + 2 * i, 11 + 2 * i)),
     cmdStart = None,
     closeReadyPipe = None,
     cmdKill = None,
     readReadyByte = None,
     closeHandle = (\<lambda>_. None),
     NamespaceRequired = Inr ''default'',
     UnmarshalResources = (\<lambda>s. Inr s),
     UnmarshalSpec = (\<lambda>s. Inr \<lparr>specTerminal = False, specArgs = [s]\<rparr>),
     UnmarshalOptions = (\<lambda>_. Inr NilValue),
     UnmarshalCheckpointOptions = (\<lambda>_. Inr \<lparr>cpExit = False, cpOpenTcp = False,
        cpExternalUnixSockets = False, cpTerminal = False, cpFileLocks = False,
        cpEmptyNamespaces = [], cpWorkPath = []\<rparr>),
     MarshalOptions = (\<lambda>o'. Inr (BinaryName o')),
     ParseOptions = (\<lambda>s. Inr \<lparr>BinaryName = s, IoUid = 0, IoGid = 0, optNoPivotRoot = False,
        optNoNewKeyring = False, optCriuWorkPath = []\<rparr>),
     osMkdir = (\<lambda>_. None),
     WriteFileFails = (\<lambda>_. None),
     osGetpid = 77,
     DecodeSpec = (\<lambda>_. Inr \<lparr>linuxNamespaces = Some [(''pid'', [])]\<rparr>),
     ociReadSpec = (\<lambda>_. Inr \<lparr>linuxNamespaces = Some [(''pid'', [])]\<rparr>),
     rtcCreate = (\<lambda>_ _ _. Inr True),
     serveGrpcFails = None,
     MarshalDetails = Inr,
     cgroupStat = Inr ''stats'',
     MarshalStats = Inr,
     unixKill = (\<lambda>_ _. None),
     timeNow = 1000\<rparr>"

definition some_error :: ext_error where
  "some_error = \<lparr>ext_text = ''boom'', ext_wraps = [], ext_is_ESRCH = False\<rparr>"

text \<open>Streams and requests that the concrete runs use.\<close>

definition no_streams :: stdio where
  "no_streams = \<lparr>Stdin = [], Stdout = [], Stderr = [], Terminal = False\<rparr>"

definition tty_request :: create_config where
  "tty_request = \<lparr>ccID = ''c1'', ccBundle = ''/b'', ccRuntime = [], ccRootfs = [], ccTerminal = True,
     ccStdin = [], ccStdout = ''/out'', ccStderr = [], ccCheckpoint = [], ccParentCheckpoint = [],
     ccOptions = \<lparr>BinaryName = [], IoUid = 0, IoGid = 0, optNoPivotRoot = False,
                  optNoNewKeyring = False, optCriuWorkPath = []\<rparr>\<rparr>"

end
