(* ===== verification/ProcessIO.thy ===== *)
theory ProcessIO
  imports Runtime
begin

text \<open>
  The standard streams of a container process
  (\<open>cmd/containerd-shim-runm-v2/process/io.go\<close>): which kind of IO a process gets, the
  goroutines that copy its pipes, the counting writer that two of them may share, and the
  external logging binary.
\<close>

section \<open>Process IO\<close>

record process_io =
  pioIO :: "handle option"
  pioURI :: "(string \<times> string) option"
  pioCopy :: bool
  pioStdio :: stdio

definition processIO_Close :: "process_io \<Rightarrow> effect list" where
  "processIO_Close p = (case pioIO p of Some h \<Rightarrow> [DoClose h] | None \<Rightarrow> [])"

definition withConditionalIO :: "stdio \<Rightarrow> io_option" where
  "withConditionalIO c = \<lparr>OpenStdin = (Stdin c \<noteq> []), OpenStdout = (Stdout c \<noteq> []),
     OpenStderr = (Stderr c \<noteq> [])\<rparr>"

subsection \<open>The logging binary\<close>

text \<open>A pipe is its read end and its write end.\<close>

record pipe =
  pipeR :: handle
  pipeW :: handle

record binary_io =
  bioOut :: pipe
  bioErr :: pipe

text \<open>
  The clean-up functions \<open>NewBinaryIO\<close> collects: closing a pipe (write end first),
  closing one file, killing the logger. Running one yields its effects and its errors.
\<close>

datatype closer = ClosePipe pipe | CloseFile handle | KillLogger

definition pipe_Close :: "env \<Rightarrow> pipe \<Rightarrow> go_error list \<times> effect list" where
  "pipe_Close E p =
     ((case closeHandle E (pipeW p) of
         Some e \<Rightarrow> [Wrapf ''pipe: failed to close write pipe: '' (Ext e)] | None \<Rightarrow> []) @
      (case closeHandle E (pipeR p) of
         Some e \<Rightarrow> [Wrapf ''pipe: failed to close read pipe: '' (Ext e)] | None \<Rightarrow> []),
      [DoClose (pipeW p), DoClose (pipeR p)])"

fun run_closer :: "env \<Rightarrow> closer \<Rightarrow> go_error list \<times> effect list" where
  "run_closer E (ClosePipe p) = pipe_Close E p"
| "run_closer E (CloseFile h) =
     ((case closeHandle E h of Some e \<Rightarrow> [Ext e] | None \<Rightarrow> []), [DoClose h])"
| "run_closer E KillLogger =
     ((case cmdKill E of Some e \<Rightarrow> [Ext e] | None \<Rightarrow> []), [DoKillLogger])"

text \<open>The deferred function of \<open>NewBinaryIO\<close>: all closers run, their errors are joined.\<close>

definition fail_closing :: "env \<Rightarrow> closer list \<Rightarrow> go_error \<Rightarrow> effect list \<Rightarrow> binary_io res \<times> effect list" where
  "fail_closing E cs e fx =
     (Fail (Joined (e # concat (map (fst \<circ> run_closer E) cs))),
      fx @ concat (map (snd \<circ> run_closer E) cs))"

definition NewBinaryIO :: "env \<Rightarrow> binary_io res \<times> effect list" where
  "NewBinaryIO E =
     (case NamespaceRequired E of
        Inl e \<Rightarrow> (Fail (Ext e), [])
      | Inr ns \<Rightarrow>
     (case osPipe E 0 of
        Inl e \<Rightarrow> fail_closing E [] (Wrapf ''failed to create stdout pipes: '' (Ext e)) []
      | Inr (r0, w0) \<Rightarrow>
          let out = \<lparr>pipeR = r0, pipeW = w0\<rparr> in
     (case osPipe E 1 of
        Inl e \<Rightarrow> fail_closing E [ClosePipe out] (Wrapf ''failed to create stderr pipes: '' (Ext e)) []
      | Inr (r1, w1) \<Rightarrow>
          let serr = \<lparr>pipeR = r1, pipeW = w1\<rparr> in
     (case osPipe E 2 of
        Inl e \<Rightarrow> fail_closing E [ClosePipe out, ClosePipe serr] (Ext e) []
      | Inr (r, w) \<Rightarrow>
          let cs = [ClosePipe out, ClosePipe serr, CloseFile r, CloseFile w] in
     (case cmdStart E of
        Some e \<Rightarrow> fail_closing E cs (Wrapf ''failed to start binary process: '' (Ext e)) []
      | None \<Rightarrow>
     (case closeReadyPipe E of
        Some e \<Rightarrow> fail_closing E (cs @ [KillLogger])
                    (Wrapf ''failed to close write pipe after start: '' (Ext e))
                    [DoStartLogger, DoClose w]
      | None \<Rightarrow>
     (case readReadyByte E of
        Some e \<Rightarrow> fail_closing E (cs @ [KillLogger])
                    (Wrapf ''failed to read from logging binary: '' (Ext e))
                    [DoStartLogger, DoClose w]
      | None \<Rightarrow> (Ok \<lparr>bioOut = out, bioErr = serr\<rparr>, [DoStartLogger, DoClose w]))))))))"

definition wrapBinaryIO :: "env \<Rightarrow> int \<Rightarrow> int \<Rightarrow> handle res \<times> effect list" where
  "wrapBinaryIO E u g =
     (let opt = \<lparr>OpenStdin = False, OpenStdout = True, OpenStderr = True\<rparr> in
      case NewPipeIO E u g opt of
        Inl e \<Rightarrow> (Fail (Wrapf ''failed to create pipeIO: '' (Ext e)), [CallNewPipeIO opt])
      | Inr h \<Rightarrow> (Ok h, [CallNewPipeIO opt, DoStartCopy, DoStartCopy]))"

subsection \<open>Choosing the IO\<close>

definition createIO :: "env \<Rightarrow> int \<Rightarrow> int \<Rightarrow> stdio \<Rightarrow> process_io res \<times> effect list" where
  "createIO E uid gid st =
     (let pio = \<lparr>pioIO = None, pioURI = None, pioCopy = False, pioStdio = st\<rparr> in
      if StdioIsNull E st then
        (case NewNullIO E of
           Inl e \<Rightarrow> (Fail (Wrapf ''failed to create null IO: '' (Ext e)), [CallNewNullIO])
         | Inr h \<Rightarrow> (Ok (pio\<lparr>pioIO := Some h\<rparr>), [CallNewNullIO]))
      else
        (case ParseURL E (Stdout st) of
           Inl e \<Rightarrow> (Fail (Wrapf ''unable to parse stdout uri: '' (Ext e)), [])
         | Inr (scheme0, path) \<Rightarrow>
             let scheme = (if scheme0 = [] then ''fifo'' else scheme0);
                 pio = pio\<lparr>pioURI := Some (scheme, path)\<rparr> in
             if scheme = ''fifo'' then
               (let opt = withConditionalIO st in
                case NewPipeIO E uid gid opt of
                  Inl e \<Rightarrow> (Fail (Wrapf ''failed to create process IO: '' (Ext e)), [CallNewPipeIO opt])
                | Inr h \<Rightarrow> (Ok (pio\<lparr>pioCopy := True, pioIO := Some h\<rparr>), [CallNewPipeIO opt]))
             else if scheme = ''binary'' then
               (case NewBinaryIO E of
                  (Fail e, fx) \<Rightarrow> (Fail (Wrapf ''failed to create binary IO: '' e), fx)
                | (Panic m, fx) \<Rightarrow> (Panic m, fx)
                | (Ok b, fx) \<Rightarrow>
                    (case wrapBinaryIO E uid gid of
                       (Fail e, fx') \<Rightarrow> (Fail (Wrapf ''failed to wrap binary IO: '' e), fx @ fx')
                     | (Panic m, fx') \<Rightarrow> (Panic m, fx @ fx')
                     | (Ok h, fx') \<Rightarrow> (Ok (pio\<lparr>pioIO := Some h\<rparr>), fx @ fx')))
             else if scheme = ''file'' then
               (case MkdirAll E path of
                  Some e \<Rightarrow> (Fail (Wrapf ''failed to create directory: '' (Ext e)), [])
                | None \<Rightarrow>
                    (case CreateFileAppend E path of
                       Some e \<Rightarrow> (Fail (Wrapf ''failed to create null IO: '' (Ext e)), [])
                     | None \<Rightarrow>
                         (let opt = withConditionalIO st in
                          case NewPipeIO E uid gid opt of
                            Inl e \<Rightarrow> (Fail (Wrapf ''failed to create process IO: '' (Ext e)),
                                      [CallNewPipeIO opt])
                          | Inr h \<Rightarrow>
                              (Ok (pio\<lparr>pioStdio := st\<lparr>Stdout := path, Stderr := path\<rparr>,
                                       pioCopy := True, pioIO := Some h\<rparr>),
                               [CallNewPipeIO opt]))))
             else (Fail (ErrNew ''unknown STDIO scheme''), [])))"

subsection \<open>The counting writer\<close>

text \<open>
  \<open>countingWriteCloser\<close> masks \<open>Close\<close> until it has been called a number of times.
\<close>

record counting =
  cntHandle :: handle
  cntCount :: int

definition bumpCount :: "int \<Rightarrow> counting \<Rightarrow> int \<times> counting" where
  "bumpCount d c = (cntCount c + d, c\<lparr>cntCount := cntCount c + d\<rparr>)"

definition newCountingWriteCloser :: "handle \<Rightarrow> int \<Rightarrow> counting" where
  "newCountingWriteCloser h n = snd (bumpCount n \<lparr>cntHandle = h, cntCount = 0\<rparr>)"

definition counting_Close :: "counting \<Rightarrow> counting \<times> effect list" where
  "counting_Close c =
     (case bumpCount (- 1) c of
        (n, c') \<Rightarrow> if n > 0 then (c', []) else (c', [DoClose (cntHandle c)]))"

subsection \<open>Copying the pipes\<close>

text \<open>
  A copy goroutine: which stream it drains, where it writes (a file of its own, or the
  counting writer both streams share) and the read end it holds open.
\<close>

datatype dest = Own handle | SameFile

record copy_job =
  jobName :: string
  jobDest :: dest
  jobRead :: "handle option"

record pipes =
  sameFile :: "counting option"
  jobs :: "copy_job list"
  stdinFile :: "handle option"

text \<open>One iteration of the loop over the output streams.\<close>

definition open_output :: "env \<Rightarrow> bool \<Rightarrow> string \<Rightarrow> pipes \<Rightarrow> pipes res" where
  "open_output E same name P =
     (case IsFifo E name of
        Inl e \<Rightarrow> Fail (Ext e)
      | Inr True \<Rightarrow>
          (case OpenFifo E name FifoWrite of
             Inl e \<Rightarrow> Fail (Wrapf ''containerd-shim: opening w/o fifo failed: '' (Ext e))
           | Inr fw \<Rightarrow>
               (case OpenFifo E name FifoRead of
                  Inl e \<Rightarrow> Fail (Wrapf ''containerd-shim: opening r/o fifo failed: '' (Ext e))
                | Inr fr \<Rightarrow>
                    Ok (P\<lparr>jobs := jobs P @ [\<lparr>jobName = name, jobDest = Own fw, jobRead = Some fr\<rparr>]\<rparr>)))
      | Inr False \<Rightarrow>
          (case sameFile P of
             Some c \<Rightarrow>
               Ok (P\<lparr>sameFile := Some (snd (bumpCount 1 c)),
                     jobs := jobs P @ [\<lparr>jobName = name, jobDest = SameFile, jobRead = None\<rparr>]\<rparr>)
           | None \<Rightarrow>
               (case OpenFileAppend E name of
                  Inl e \<Rightarrow> Fail (Wrapf ''containerd-shim: opening file failed: '' (Ext e))
                | Inr fw \<Rightarrow>
                    Ok (P\<lparr>sameFile := (if same then Some (newCountingWriteCloser fw 1) else None),
                          jobs := jobs P @ [\<lparr>jobName = name, jobDest = Own fw, jobRead = None\<rparr>]\<rparr>))))"

definition copyPipes :: "env \<Rightarrow> stdio \<Rightarrow> pipes res" where
  "copyPipes E st =
     (let same = (Stdout st = Stderr st) in
      case open_output E same (Stdout st) \<lparr>sameFile = None, jobs = [], stdinFile = None\<rparr> of
        Ok P1 \<Rightarrow>
          (case open_output E same (Stderr st) P1 of
             Ok P2 \<Rightarrow>
               if Stdin st = [] then Ok P2
               else (case OpenFifo E (Stdin st) FifoReadNonblock of
                       Inl _ \<Rightarrow> Fail (ErrNew ''containerd-shim: opening failed'')
                     | Inr f \<Rightarrow> Ok (P2\<lparr>stdinFile := Some f\<rparr>))
           | r \<Rightarrow> r)
      | r \<Rightarrow> r)"

text \<open>\<open>processIO.Copy\<close>: nothing to do unless the IO asks for copying.\<close>

definition processIO_Copy :: "env \<Rightarrow> process_io \<Rightarrow> unit res" where
  "processIO_Copy E p =
     (if \<not> pioCopy p then Ok ()
      else (case copyPipes E (pioStdio p) of
              Ok _ \<Rightarrow> Ok ()
            | Fail e \<Rightarrow> Fail (Wrapf ''unable to copy pipes: '' e)
            | Panic m \<Rightarrow> Panic m))"

text \<open>What a copy goroutine does when its stream ends: it closes its writer, then its reader.\<close>

definition finish_job :: "copy_job \<Rightarrow> counting option \<Rightarrow> counting option \<times> effect list" where
  "finish_job j same =
     (let (same', fx) =
        (case jobDest j of
           Own h \<Rightarrow> (same, [DoClose h])
         | SameFile \<Rightarrow>
             (case same of None \<Rightarrow> (None, [])
              | Some c \<Rightarrow> (case counting_Close c of (c', fx) \<Rightarrow> (Some c', fx))))
      in (same', fx @ (case jobRead j of Some h \<Rightarrow> [DoClose h] | None \<Rightarrow> [])))"

fun finish_jobs :: "copy_job list \<Rightarrow> counting option \<Rightarrow> counting option \<times> effect list" where
  "finish_jobs [] same = (same, [])"
| "finish_jobs (j # js) same =
     (case finish_job j same of
        (same', fx) \<Rightarrow> (case finish_jobs js same' of (same'', fx') \<Rightarrow> (same'', fx @ fx')))"


section \<open>Facts\<close>

subsection \<open>The counting writer\<close>

fun close_times :: "nat \<Rightarrow> counting \<Rightarrow> counting \<times> effect list" where
  "close_times 0 c = (c, [])"
| "close_times (Suc n) c =
     (case counting_Close c of
        (c', fx) \<Rightarrow> (case close_times n c' of (c'', fx') \<Rightarrow> (c'', fx @ fx')))"

lemma counting_Close_simp:
  "counting_Close c =
     (c\<lparr>cntCount := cntCount c - 1\<rparr>, if cntCount c > 1 then [] else [DoClose (cntHandle c)])"
  by (simp add: counting_Close_def bumpCount_def)

lemma newCountingWriteCloser_simp [simp]:
  "newCountingWriteCloser h n = \<lparr>cntHandle = h, cntCount = n\<rparr>"
  by (simp add: newCountingWriteCloser_def bumpCount_def)

lemma close_times_masked:
  "int n < cntCount c \<Longrightarrow> close_times n c = (c\<lparr>cntCount := cntCount c - int n\<rparr>, [])"
  by (induction n arbitrary: c) (auto simp: counting_Close_simp)

lemma close_times_snoc:
  "close_times (Suc n) c =
     (case close_times n c of (c', fx) \<Rightarrow> (case counting_Close c' of (c'', fx') \<Rightarrow> (c'', fx @ fx')))"
proof (induction n arbitrary: c)
  case 0
  then show ?case by (simp add: counting_Close_simp)
next
  case (Suc n)
  show ?case
    by (subst close_times.simps(2), subst Suc) (simp add: counting_Close_simp case_prod_beta)
qed

subsection \<open>The logging binary\<close>

lemma fail_closing_effects:
  "fail_closing E cs e fx = (r, fx') \<Longrightarrow> c \<in> set cs \<Longrightarrow> set (snd (run_closer E c)) \<subseteq> set fx'"
  by (auto simp: fail_closing_def)

lemma run_closer_effects [simp]:
  "snd (run_closer E (ClosePipe p)) = [DoClose (pipeW p), DoClose (pipeR p)]"
  "snd (run_closer E (CloseFile h)) = [DoClose h]"
  "snd (run_closer E KillLogger) = [DoKillLogger]"
  by (simp_all add: pipe_Close_def)

declare run_closer.simps [simp del]

lemmas NewBinaryIO_unfold = NewBinaryIO_def Let_def fail_closing_def

subsection \<open>Choosing the IO\<close>

lemma NewBinaryIO_no_panic: "fst (NewBinaryIO E) \<noteq> Panic m"
  by (simp add: NewBinaryIO_unfold split: sum.split option.split prod.split)

lemma wrapBinaryIO_no_panic: "fst (wrapBinaryIO E u g) \<noteq> Panic m"
  by (simp add: wrapBinaryIO_def Let_def split: sum.split)

lemma createIO_binary_no_panic:
  "NewBinaryIO E \<noteq> (Panic m, fx)" "wrapBinaryIO E u g \<noteq> (Panic m, fx)"
  using NewBinaryIO_no_panic [of E m] wrapBinaryIO_no_panic [of E u g m] by auto

lemma createIO_no_panic: "fst (createIO E u g st) \<noteq> Panic m"
  by (simp add: createIO_def Let_def createIO_binary_no_panic
      split: sum.split option.split prod.split res.split)

lemma open_output_no_panic: "open_output E same n P \<noteq> Panic m"
  by (auto simp: open_output_def split: sum.splits option.splits bool.splits)

lemma processIO_Copy_no_panic: "processIO_Copy E p \<noteq> Panic m"
  by (auto simp: processIO_Copy_def copyPipes_def Let_def open_output_no_panic
      split: sum.splits res.splits if_splits)

section \<open>Properties\<close>

text \<open>
  a counting writer made with count \<open>n\<close> passes exactly the \<open>n\<close>-th \<open>Close\<close>
  on to the file it wraps: the first \<open>n - 1\<close> closes do nothing outside, the next one
  closes the file.
\<close>

lemma counting_closes_at_count:
  assumes "0 < n"
  shows "snd (close_times (n - 1) (newCountingWriteCloser h (int n))) = [] \<and>
    snd (close_times n (newCountingWriteCloser h (int n))) = [DoClose h]"
proof -
  have m: "close_times (n - 1) (newCountingWriteCloser h (int n)) =
      (\<lparr>cntHandle = h, cntCount = 1\<rparr>, [])"
    using assms by (subst close_times_masked) (auto simp: of_nat_diff)
  then have "snd (close_times (Suc (n - 1)) (newCountingWriteCloser h (int n))) = [DoClose h]"
    by (subst close_times_snoc) (simp add: counting_Close_simp)
  with m assms show ?thesis by simp
qed

text \<open>
  when starting the logging binary fails, nothing it opened stays open: both ends of
  every pipe created so far are closed, and a logger that was already started is killed.
\<close>

lemma NewBinaryIO_failure_closes_all:
  assumes "NewBinaryIO E = (Fail e, fx)" and "NamespaceRequired E = Inr ns"
    and "i < 3" and "\<And>j. j \<le> i \<Longrightarrow> \<exists>p. osPipe E j = Inr p" and "osPipe E i = Inr (r, w)"
  shows "DoClose r \<in> set fx \<and> DoClose w \<in> set fx \<and>
    (DoStartLogger \<in> set fx \<longrightarrow> DoKillLogger \<in> set fx)"
proof -
  have zero: "\<exists>p. osPipe E 0 = Inr p" by (rule assms(4)) simp
  have one: "1 \<le> i \<Longrightarrow> \<exists>p. osPipe E 1 = Inr p" by (rule assms(4)) simp
  have "case NewBinaryIO E of
      (Fail e, fx) \<Rightarrow> DoClose r \<in> set fx \<and> DoClose w \<in> set fx \<and>
        (DoStartLogger \<in> set fx \<longrightarrow> DoKillLogger \<in> set fx)
    | _ \<Rightarrow> True"
  proof -
    consider "i = 0" | "i = 1" | "i = 2" using assms(3) by linarith
    then show ?thesis
      using zero one assms(2,5)
      by cases (auto simp: NewBinaryIO_unfold split: sum.split option.split)
  qed
  with assms(1) show ?thesis by simp
qed


text \<open>
  when standard output and standard error name the same plain file, \<open>copyPipes\<close>
  opens the file once and gives the first stream the file itself, not the counting writer:
  the end of that stream closes the file while the second stream still writes to it, and
  the second stream's own close is then masked by the counter.
\<close>

lemma copyPipes_same_file_closed_early:
  assumes "Stdout st = Stderr st" and "Stdin st = []"
    and "IsFifo E (Stdout st) = Inr False" and "OpenFileAppend E (Stdout st) = Inr h"
  shows "\<exists>P j1 j2. copyPipes E st = Ok P \<and> jobs P = [j1, j2] \<and>
    jobDest j1 = Own h \<and> jobDest j2 = SameFile \<and>
    snd (finish_job j1 (sameFile P)) = [DoClose h] \<and>
    snd (finish_job j2 (sameFile P)) = []"
proof -
  have "copyPipes E st = Ok \<lparr>sameFile = Some \<lparr>cntHandle = h, cntCount = 2\<rparr>,
      jobs = [\<lparr>jobName = Stdout st, jobDest = Own h, jobRead = None\<rparr>,
              \<lparr>jobName = Stdout st, jobDest = SameFile, jobRead = None\<rparr>], stdinFile = None\<rparr>"
    using assms by (simp add: copyPipes_def open_output_def bumpCount_def)
  then show ?thesis by (simp add: finish_job_def counting_Close_simp)
qed


text \<open>
  an IO that \<open>createIO\<close> returns is usable: it has an underlying runtime IO, its
  pipes are copied by the shim exactly for the fifo and file schemes, and for a file both
  output streams go to the path of the URI.
\<close>

lemma createIO_result:
  assumes "createIO E u g st = (Ok p, fx)"
  shows "pioIO p \<noteq> None \<and>
    (pioCopy p \<longleftrightarrow> (\<exists>path. pioURI p = Some (''fifo'', path) \<or> pioURI p = Some (''file'', path))) \<and>
    (\<forall>path. pioURI p = Some (''file'', path) \<longrightarrow>
       pioStdio p = st\<lparr>Stdout := path, Stderr := path\<rparr>) \<and>
    (\<forall>sch path. pioURI p = Some (sch, path) \<and> sch \<noteq> ''file'' \<longrightarrow> pioStdio p = st)"
proof -
  have "case createIO E u g st of (Ok p, fx) \<Rightarrow>
      pioIO p \<noteq> None \<and>
      (pioCopy p \<longleftrightarrow> (\<exists>path. pioURI p = Some (''fifo'', path) \<or> pioURI p = Some (''file'', path))) \<and>
      (\<forall>path. pioURI p = Some (''file'', path) \<longrightarrow>
         pioStdio p = st\<lparr>Stdout := path, Stderr := path\<rparr>) \<and>
      (\<forall>sch path. pioURI p = Some (sch, path) \<and> sch \<noteq> ''file'' \<longrightarrow> pioStdio p = st)
    | _ \<Rightarrow> True"
    by (simp add: createIO_def Let_def split: sum.split option.split prod.split res.split)
  with assms show ?thesis by simp
qed

end
