(* ===== verification/ExitLatch.thy ===== *)
theory ExitLatch
  imports Runtime
begin

text \<open>
  The exit contract the shim relies on for both kinds of process (\<open>process.Process\<close> in
  \<open>process/process.go\<close>: \<open>SetExited\<close>, \<open>ExitStatus\<close>, \<open>ExitedAt\<close> and \<open>Wait\<close>): a process
  latches its first exit. The init process and the exec processes interpret it; the
  clients are \<open>handleInitExit\<close>, \<open>handleProcessExit\<close> and \<open>Wait\<close> of the task service, which
  read the recorded status after any number of exit notifications.
\<close>

locale exit_latch =
  fixes set_exited :: "env \<Rightarrow> int \<Rightarrow> 's \<Rightarrow> unit res \<times> 's"
    and released :: "'s \<Rightarrow> bool"
    and exit_record :: "'s \<Rightarrow> int option \<times> int"
    and pending :: "'s \<Rightarrow> bool"
    and sound :: "'s \<Rightarrow> bool"
  assumes first_exit: "sound s \<Longrightarrow> pending s \<Longrightarrow>
      fst (set_exited E st s) = Ok () \<and>
      released (snd (set_exited E st s)) \<and>
      exit_record (snd (set_exited E st s)) = (Some (timeNow E), st) \<and>
      \<not> pending (snd (set_exited E st s))"
    and later_exit: "\<not> pending s \<Longrightarrow> set_exited E st s = (Ok (), s)"
begin

lemma ended_stays: "\<not> pending s \<Longrightarrow> fold (\<lambda>(E, st) s. snd (set_exited E st s)) xs s = s"
  by (induction xs) (auto simp: later_exit)

lemma first_exit_wins:
  assumes "sound s" "pending s"
  shows "exit_record (fold (\<lambda>(E, st) s. snd (set_exited E st s)) ((E0, st0) # xs) s)
      = (Some (timeNow E0), st0) \<and>
    released (fold (\<lambda>(E, st) s. snd (set_exited E st s)) ((E0, st0) # xs) s)"
  using first_exit [OF assms, of E0 st0] ended_stays [of "snd (set_exited E0 st0 s)" xs] by simp

lemma exit_never_panics: "sound s \<Longrightarrow> fst (set_exited E st s) = Ok ()"
  by (cases "pending s") (simp_all add: first_exit later_exit)

end

end
