(* ===== verification/InitProcess.thy ===== *)
theory InitProcess
  imports ProcessIO ExitLatch
begin

text \<open>
  The init process of a container (\<open>process/init.go\<close>, \<open>process/init_state.go\<close>,
  \<open>process/deleted_state.go\<close>, \<open>process/utils.go\<close>). Every exported method holds
  the process mutex from its first to its last statement, so a method is one step. A
  method is a function from the outside and the process to its result and the process
  after it; the ghost field \<open>iTrace\<close> lists the outside calls made so far.
\<close>

section \<open>Data\<close>

datatype init_state =
    CreatedState
  | CreatedCheckpointState restore_opts
  | RunningState
  | PausedState
  | StoppedState
  | DeletedState

record init =
  iState :: init_state
  iWaitClosed :: bool
  iWorkDir :: string
  iId :: string
  iBundle :: string
  iConsole :: "handle option"
  iIO :: "process_io option"
  iPausing :: bool
  iStatus :: int
  iExited :: "int option"
  iPid :: int
  iClosers :: "handle list"
  iStdin :: "handle option"
  iStdio :: stdio
  iRootfs :: string
  iIoUID :: int
  iIoGID :: int
  iNoPivotRoot :: bool
  iNoNewKeyring :: bool
  iCriuWorkPath :: string
  iTrace :: "effect list"

definition iemit :: "effect list \<Rightarrow> init \<Rightarrow> init" where
  "iemit fx p = p\<lparr>iTrace := iTrace p @ fx\<rparr>"

definition Init_New :: "string \<Rightarrow> stdio \<Rightarrow> init" where
  "Init_New cid st = \<lparr>iState = CreatedState, iWaitClosed = False, iWorkDir = [], iId = cid,
     iBundle = [], iConsole = None, iIO = None, iPausing = False, iStatus = 0, iExited = None,
     iPid = 0, iClosers = [], iStdin = None, iStdio = st, iRootfs = [], iIoUID = 0, iIoGID = 0,
     iNoPivotRoot = False, iNoNewKeyring = False, iCriuWorkPath = [], iTrace = []\<rparr>"

section \<open>Utilities\<close>

definition InitPidFile :: string where
  "InitPidFile = ''init.pid''"

definition newPidFile :: "string \<Rightarrow> string" where
  "newPidFile bundle = filepath_Join [bundle, InitPidFile]"

definition newExecPidFile :: "string \<Rightarrow> string \<Rightarrow> string" where
  "newExecPidFile bundle eid = filepath_Join [bundle, eid @ ''.pid'']"

definition checkKillError :: "ext_error option \<Rightarrow> go_error option" where
  "checkKillError err =
     (case err of
        None \<Rightarrow> None
      | Some e \<Rightarrow>
          if str_contains (ext_text e) ''os: process already finished'' \<or>
             str_contains (ext_text e) ''container not running'' \<or>
             str_contains (to_lower (ext_text e)) ''no such process'' \<or>
             ext_is_ESRCH e
          then Some (Wrapf ''killing already finished process: '' (Sentinel ErrNotFound))
          else if str_contains (ext_text e) ''does not exist''
          then Some (Wrapf ''killing process in non-existent container: '' (Sentinel ErrNotFound))
          else Some (Wrapf ''killing process: '' (Ext e)))"

text \<open>\<open>criuError\<close>: the first line of the error's text.\<close>

definition criuError :: "ext_error \<Rightarrow> string" where
  "criuError e = hd (split_on (CHR 0x0A) (ext_text e))"

definition res_of_err :: "go_error option \<Rightarrow> unit res" where
  "res_of_err e = (case e of None \<Rightarrow> Ok () | Some x \<Rightarrow> Fail x)"

section \<open>Creation\<close>

definition Init_openStdin :: "env \<Rightarrow> string \<Rightarrow> init \<Rightarrow> unit res \<times> init" where
  "Init_openStdin E path p =
     (case OpenFifo E path FifoWriteNonblock of
        Inl e \<Rightarrow> (Fail (Wrapf ''failed to open stdin fifo: '' (Ext e)),
                  iemit [DoOpenFifo path FifoWriteNonblock] p)
      | Inr sc \<Rightarrow> (Ok (), iemit [DoOpenFifo path FifoWriteNonblock]
                    (p\<lparr>iStdin := Some sc, iClosers := iClosers p @ [sc]\<rparr>)))"

definition Init_createCheckpointedState :: "create_config \<Rightarrow> string \<Rightarrow> init \<Rightarrow> unit res \<times> init" where
  "Init_createCheckpointedState r pidFile p =
     (let opts = \<lparr>roCheckpoint = \<lparr>ckoWorkDir = iCriuWorkPath p, ckoImagePath = ccCheckpoint r,
                    ckoParentPath = ccParentCheckpoint r, ckoAllowOpenTCP = False,
                    ckoAllowExternalUnixSockets = False, ckoAllowTerminal = False,
                    ckoFileLocks = False, ckoEmptyNamespaces = []\<rparr>,
                  roPidFile = pidFile, roNoPivot = iNoPivotRoot p, roDetach = True,
                  roNoSubreaper = True,
                  roIO = (case iIO p of Some pio \<Rightarrow> pioIO pio | None \<Rightarrow> None),
                  roConsoleSocket = None\<rparr>
      in (Ok (), p\<lparr>iState := CreatedCheckpointState opts\<rparr>))"

text \<open>Receiving the console of a terminal, or starting the pipe copy.\<close>

definition Init_attach ::
  "env \<Rightarrow> handle option \<Rightarrow> stdio \<Rightarrow> init \<Rightarrow> unit res \<times> init" where
  "Init_attach E socket st p =
     (case socket of
        Some s \<Rightarrow>
          (case ReceiveMaster E s of
             Inl e \<Rightarrow> (Fail (Wrapf ''failed to retrieve console master: '' (Ext e)),
                       iemit [DoReceiveMaster s] p)
           | Inr c0 \<Rightarrow>
               (case CopyConsole E c0 (iId p) st of
                  Inl e \<Rightarrow> (Fail (Wrapf ''failed to start console copy: '' (Ext e)),
                            iemit [DoReceiveMaster s, DoCopyConsole c0] p)
                | Inr c \<Rightarrow> (Ok (), iemit [DoReceiveMaster s, DoCopyConsole c0] (p\<lparr>iConsole := Some c\<rparr>))))
      | None \<Rightarrow>
          (case iIO p of
             Some pio \<Rightarrow> wrapping ''failed to start io pipe copy: ''
                           (processIO_Copy E pio, iemit [DoStartCopy] p)
           | None \<Rightarrow> (Panic ''nil pointer dereference'', p)))"

definition Init_readPid :: "env \<Rightarrow> string \<Rightarrow> init \<Rightarrow> unit res \<times> init" where
  "Init_readPid E path p =
     (case rtReadPidFile E path of
        Inl e \<Rightarrow> (Fail (Wrapf ''failed to retrieve OCI runtime container pid: '' (Ext e)),
                  iemit [CallReadPidFile path] p)
      | Inr pid \<Rightarrow> (Ok (), iemit [CallReadPidFile path] (p\<lparr>iPid := pid\<rparr>)))"

definition Init_openIO :: "env \<Rightarrow> bool \<Rightarrow> init \<Rightarrow> handle option res \<times> init" where
  "Init_openIO E terminal p =
     (if terminal then
        (case NewTempConsoleSocket E of
           Inl e \<Rightarrow> (Fail (Wrapf ''failed to create OCI runtime console socket: '' (Ext e)),
                     iemit [CallNewTempConsoleSocket] p)
         | Inr s \<Rightarrow> (Ok (Some s), iemit [CallNewTempConsoleSocket] (p\<lparr>iClosers := iClosers p @ [s]\<rparr>)))
      else
        (case createIO E (iIoUID p) (iIoGID p) (iStdio p) of
           (Ok pio, fx) \<Rightarrow> (Ok None, iemit fx (p\<lparr>iIO := Some pio\<rparr>))
         | (Fail e, fx) \<Rightarrow> (Fail (Wrapf ''failed to create init process I/O: '' e), iemit fx p)
         | (Panic m, fx) \<Rightarrow> (Panic m, iemit fx p)))"

text \<open>
  The part of \<open>Create\<close> after the choice of IO, for a container that is not restored
  from a checkpoint. The streams passed to the console come from the request.
\<close>

definition Init_createFresh ::
  "env \<Rightarrow> create_config \<Rightarrow> string \<Rightarrow> handle option \<Rightarrow> init \<Rightarrow> unit res \<times> init" where
  "Init_createFresh E r pidFile socket p =
     (let opts = \<lparr>coPidFile = pidFile, coNoPivot = iNoPivotRoot p,
                  coNoNewKeyring = iNoNewKeyring p,
                  coIO = (case iIO p of Some pio \<Rightarrow> pioIO pio | None \<Rightarrow> None),
                  coConsoleSocket = socket\<rparr>;
          st = \<lparr>Stdin = ccStdin r, Stdout = ccStdout r, Stderr = ccStderr r,
                Terminal = ccTerminal r\<rparr>
      in and_then (wrapping ''OCI runtime create failed: ''
                     (of_opt (rtCreate E (ccID r) (ccBundle r) opts),
                      iemit [CallCreate (ccID r) (ccBundle r) opts] p))
         (\<lambda>_ p. and_then (if ccStdin r \<noteq> [] then Init_openStdin E (ccStdin r) p else (Ok (), p))
         (\<lambda>_ p. and_then (Init_attach E socket st p)
         (\<lambda>_ p. Init_readPid E pidFile p))))"

definition Init_Create :: "env \<Rightarrow> create_config \<Rightarrow> init \<Rightarrow> unit res \<times> init" where
  "Init_Create E r p =
     (let pidFile = newPidFile (iBundle p) in
      and_then (Init_openIO E (ccTerminal r) p)
        (\<lambda>socket p.
           if ccCheckpoint r \<noteq> [] then Init_createCheckpointedState r pidFile p
           else Init_createFresh E r pidFile socket p))"

section \<open>Operations shared by the states\<close>

definition Init_start :: "env \<Rightarrow> init \<Rightarrow> unit res \<times> init" where
  "Init_start E p =
     wrapping ''starting init process: '' (of_opt (rtStart E (iId p)), iemit [CallStart (iId p)] p)"

text \<open>\<open>setExited\<close>: closing the wait channel a second time panics.\<close>

definition Init_setExited :: "env \<Rightarrow> int \<Rightarrow> init \<Rightarrow> unit res \<times> init" where
  "Init_setExited E st p =
     (let p1 = iemit [DoShutdownConsole (iConsole p)]
                 (p\<lparr>iExited := Some (timeNow E), iStatus := st\<rparr>)
      in if iWaitClosed p1 then (Panic ''close of closed channel'', p1)
         else (Ok (), iemit [DoCloseWaitBlock] (p1\<lparr>iWaitClosed := True\<rparr>)))"

text \<open>
  \<open>delete\<close>: the error of the runtime's delete is classified and then overwritten by
  the result of closing the runtime, as in the source.
\<close>

definition Init_delete :: "env \<Rightarrow> init \<Rightarrow> unit res \<times> init" where
  "Init_delete E p =
     (let err = (case rtDelete E (iId p) of
                   None \<Rightarrow> None
                 | Some e \<Rightarrow> if str_contains (ext_text e) ''does not exist'' then None
                             else Some (Wrapf ''failed to delete task: '' (Ext e)));
          p1 = iemit [CallDelete (iId p)] p;
          p2 = (case iIO p1 of
                  Some pio \<Rightarrow> iemit (map DoClose (iClosers p1) @ processIO_Close pio) p1
                | None \<Rightarrow> p1);
          err = map_option Ext (rtClose E);
          p3 = iemit [CallRuntimeClose] p2
      in (res_of_err err, p3))"

definition Init_kill :: "env \<Rightarrow> 32 word \<Rightarrow> bool \<Rightarrow> init \<Rightarrow> unit res \<times> init" where
  "Init_kill E sig all p =
     (res_of_err (checkKillError (rtKill E (iId p) (uint sig) all)),
      iemit [CallKill (iId p) (uint sig) all] p)"

definition Init_checkpoint :: "env \<Rightarrow> checkpoint_config \<Rightarrow> init \<Rightarrow> unit res \<times> init" where
  "Init_checkpoint E r p =
     (let leaveRunning = \<not> ckExit r;
          work = (if ckWorkDir r = [] then filepath_Join [iWorkDir p, ''criu-work''] else ckWorkDir r);
          removeWork = (if ckWorkDir r = [] then [DoRemoveAll work] else []);
          opts = \<lparr>ckoWorkDir = work, ckoImagePath = ckPath r, ckoParentPath = [],
                  ckoAllowOpenTCP = ckAllowOpenTCP r,
                  ckoAllowExternalUnixSockets = ckAllowExternalUnixSockets r,
                  ckoAllowTerminal = ckAllowTerminal r, ckoFileLocks = ckFileLocks r,
                  ckoEmptyNamespaces = ckEmptyNamespaces r\<rparr>;
          call = CallCheckpoint (iId p) opts leaveRunning
      in case rtCheckpoint E (iId p) opts leaveRunning of
           Some e \<Rightarrow>
             (Fail (ErrNew (criuError e)),
              iemit ([call, DoCopyFile (filepath_Join [iBundle p, ''criu-dump.log''])
                                       (filepath_Join [work, ''dump.log''])] @ removeWork) p)
         | None \<Rightarrow> (Ok (), iemit (call # removeWork) p))"

definition Init_update :: "env \<Rightarrow> string \<Rightarrow> init \<Rightarrow> unit res \<times> init" where
  "Init_update E r p =
     (case UnmarshalResources E r of
        Inl e \<Rightarrow> (Fail (Ext e), p)
      | Inr res \<Rightarrow> wrapping ''updating init process: ''
                    (of_opt (rtUpdate E (iId p) res), iemit [CallUpdate (iId p) res] p))"

section \<open>The states\<close>

subsection \<open>created\<close>

definition createdState_transition :: "string \<Rightarrow> init \<Rightarrow> unit res \<times> init" where
  "createdState_transition name p =
     (if name = ''running'' then (Ok (), p\<lparr>iState := RunningState\<rparr>)
      else if name = ''stopped'' then (Ok (), p\<lparr>iState := StoppedState\<rparr>)
      else if name = ''deleted'' then (Ok (), p\<lparr>iState := DeletedState\<rparr>)
      else (Fail (ErrNew ''invalid state transition''), p))"

definition createdState_Start :: "env \<Rightarrow> init \<Rightarrow> unit res \<times> init" where
  "createdState_Start E p =
     and_then (wrapping ''start: '' (Init_start E p)) (\<lambda>_. createdState_transition ''running'')"

definition createdState_Delete :: "env \<Rightarrow> init \<Rightarrow> unit res \<times> init" where
  "createdState_Delete E p = and_then (Init_delete E p) (\<lambda>_. createdState_transition ''deleted'')"

text \<open>A failed transition in \<open>SetExited\<close> panics.\<close>

definition or_panic :: "unit res \<times> 's \<Rightarrow> unit res \<times> 's" where
  "or_panic x = (case fst x of Fail e \<Rightarrow> (Panic ''invalid state transition'', snd x) | _ \<Rightarrow> x)"

definition createdState_SetExited :: "env \<Rightarrow> int \<Rightarrow> init \<Rightarrow> unit res \<times> init" where
  "createdState_SetExited E st p =
     and_then (Init_setExited E st p) (\<lambda>_ p. or_panic (createdState_transition ''stopped'' p))"

subsection \<open>created from a checkpoint\<close>

definition createdCheckpointState_transition :: "string \<Rightarrow> init \<Rightarrow> unit res \<times> init" where
  "createdCheckpointState_transition name p =
     (if name = ''running'' then (Ok (), p\<lparr>iState := RunningState\<rparr>)
      else if name = ''stopped'' then (Ok (), p\<lparr>iState := StoppedState\<rparr>)
      else if name = ''deleted'' then (Ok (), p\<lparr>iState := DeletedState\<rparr>)
      else (Fail (ErrNew ''invalid state transition''), p))"

text \<open>
  \<open>Start\<close> restores the container. The console socket is stored in the state's restore
  options and closed when \<open>Start\<close> returns, whatever it returns.
\<close>

definition createdCheckpointState_restore ::
  "env \<Rightarrow> restore_opts \<Rightarrow> handle option \<Rightarrow> init \<Rightarrow> unit res \<times> init" where
  "createdCheckpointState_restore E opts socket p =
     and_then (wrapping ''OCI runtime restore failed: ''
                 (of_opt (rtRestore E (iId p) (iBundle p) opts),
                  iemit [CallRestore (iId p) (iBundle p) opts] p))
       (\<lambda>_ p. and_then (if Stdin (iStdio p) \<noteq> []
                         then wrapping ''failed to open stdin fifo: ''
                                (Init_openStdin E (Stdin (iStdio p)) p)
                         else (Ok (), p))
       (\<lambda>_ p. and_then (Init_attach E socket (iStdio p) p)
       (\<lambda>_ p. and_then (Init_readPid E (roPidFile opts) p)
       (\<lambda>_. createdCheckpointState_transition ''running''))))"

definition createdCheckpointState_Start ::
  "env \<Rightarrow> restore_opts \<Rightarrow> init \<Rightarrow> unit res \<times> init" where
  "createdCheckpointState_Start E opts p =
     (if Terminal (iStdio p) then
        (case NewTempConsoleSocket E of
           Inl e \<Rightarrow> (Fail (Wrapf ''failed to create OCI runtime console socket: '' (Ext e)),
                     iemit [CallNewTempConsoleSocket] p)
         | Inr s \<Rightarrow>
             (let opts' = opts\<lparr>roConsoleSocket := Some s\<rparr>;
                  p1 = iemit [CallNewTempConsoleSocket] (p\<lparr>iState := CreatedCheckpointState opts'\<rparr>)
              in case createdCheckpointState_restore E opts' (Some s) p1 of
                   (r, p2) \<Rightarrow> (r, iemit [DoClose s] p2)))
      else createdCheckpointState_restore E opts None p)"

definition createdCheckpointState_Delete :: "env \<Rightarrow> init \<Rightarrow> unit res \<times> init" where
  "createdCheckpointState_Delete E p =
     and_then (Init_delete E p) (\<lambda>_. createdCheckpointState_transition ''deleted'')"

definition createdCheckpointState_SetExited :: "env \<Rightarrow> int \<Rightarrow> init \<Rightarrow> unit res \<times> init" where
  "createdCheckpointState_SetExited E st p =
     and_then (Init_setExited E st p)
       (\<lambda>_ p. or_panic (createdCheckpointState_transition ''stopped'' p))"

subsection \<open>running\<close>

definition runningState_transition :: "string \<Rightarrow> init \<Rightarrow> unit res \<times> init" where
  "runningState_transition name p =
     (if name = ''stopped'' then (Ok (), p\<lparr>iState := StoppedState\<rparr>)
      else if name = ''paused'' then (Ok (), p\<lparr>iState := PausedState\<rparr>)
      else (Fail (ErrNew ''invalid state transition''), p))"

text \<open>The pausing flag is raised for the duration of the call; the deferred store lowers it.\<close>

definition runningState_Pause :: "env \<Rightarrow> init \<Rightarrow> unit res \<times> init" where
  "runningState_Pause E p =
     (let p1 = p\<lparr>iPausing := True\<rparr> in
      case and_then (wrapping ''OCI runtime pause failed: ''
                       (of_opt (rtPause E (iId p1)), iemit [CallPause (iId p1)] p1))
             (\<lambda>_. runningState_transition ''paused'') of
        (r, p2) \<Rightarrow> (r, p2\<lparr>iPausing := False\<rparr>))"

definition runningState_SetExited :: "env \<Rightarrow> int \<Rightarrow> init \<Rightarrow> unit res \<times> init" where
  "runningState_SetExited E st p =
     and_then (Init_setExited E st p) (\<lambda>_ p. or_panic (runningState_transition ''stopped'' p))"

subsection \<open>paused\<close>

definition pausedState_transition :: "string \<Rightarrow> init \<Rightarrow> unit res \<times> init" where
  "pausedState_transition name p =
     (if name = ''running'' then (Ok (), p\<lparr>iState := RunningState\<rparr>)
      else if name = ''stopped'' then (Ok (), p\<lparr>iState := StoppedState\<rparr>)
      else (Fail (ErrNew ''invalid state transition''), p))"

definition pausedState_Resume :: "env \<Rightarrow> init \<Rightarrow> unit res \<times> init" where
  "pausedState_Resume E p =
     and_then (wrapping ''OCI runtime resume failed: ''
                 (of_opt (rtResume E (iId p)), iemit [CallResume (iId p)] p))
       (\<lambda>_. pausedState_transition ''running'')"

text \<open>The exit of a paused container also resumes it; an error of that call is only logged.\<close>

definition pausedState_SetExited :: "env \<Rightarrow> int \<Rightarrow> init \<Rightarrow> unit res \<times> init" where
  "pausedState_SetExited E st p =
     and_then (Init_setExited E st p)
       (\<lambda>_ p. or_panic (pausedState_transition ''stopped'' (iemit [CallResume (iId p)] p)))"

subsection \<open>stopped\<close>

definition stoppedState_transition :: "string \<Rightarrow> init \<Rightarrow> unit res \<times> init" where
  "stoppedState_transition name p =
     (if name = ''deleted'' then (Ok (), p\<lparr>iState := DeletedState\<rparr>)
      else (Fail (ErrNew ''invalid state transition''), p))"

definition stoppedState_Delete :: "env \<Rightarrow> init \<Rightarrow> unit res \<times> init" where
  "stoppedState_Delete E p = and_then (Init_delete E p) (\<lambda>_. stoppedState_transition ''deleted'')"

section \<open>The exported methods\<close>

definition Init_Start :: "env \<Rightarrow> init \<Rightarrow> unit res \<times> init" where
  "Init_Start E p =
     (case iState p of
        CreatedState \<Rightarrow> createdState_Start E p
      | CreatedCheckpointState opts \<Rightarrow> createdCheckpointState_Start E opts p
      | RunningState \<Rightarrow> (Fail (ErrNew ''cannot start a running process''), p)
      | PausedState \<Rightarrow> (Fail (ErrNew ''cannot start a paused process''), p)
      | StoppedState \<Rightarrow> (Fail (ErrNew ''cannot start a stopped process''), p)
      | DeletedState \<Rightarrow> (Fail (ErrNew ''cannot start a deleted process''), p))"

definition Init_Delete :: "env \<Rightarrow> init \<Rightarrow> unit res \<times> init" where
  "Init_Delete E p =
     wrapping ''deleting init process: ''
       (case iState p of
          CreatedState \<Rightarrow> createdState_Delete E p
        | CreatedCheckpointState _ \<Rightarrow> createdCheckpointState_Delete E p
        | RunningState \<Rightarrow> (Fail (ErrNew ''cannot delete a running process''), p)
        | PausedState \<Rightarrow> (Fail (ErrNew ''cannot delete a paused process''), p)
        | StoppedState \<Rightarrow> stoppedState_Delete E p
        | DeletedState \<Rightarrow>
            (Fail (Wrapf ''deleting already deleted process: '' (Sentinel ErrNotFound)), p))"

definition Init_Pause :: "env \<Rightarrow> init \<Rightarrow> unit res \<times> init" where
  "Init_Pause E p =
     wrapping ''pausing init process: ''
       (case iState p of
          CreatedState \<Rightarrow> (Fail (ErrNew ''cannot pause task in created state''), p)
        | CreatedCheckpointState _ \<Rightarrow> (Fail (ErrNew ''cannot pause task in created state''), p)
        | RunningState \<Rightarrow> runningState_Pause E p
        | PausedState \<Rightarrow> (Fail (ErrNew ''cannot pause a paused container''), p)
        | StoppedState \<Rightarrow> (Fail (ErrNew ''cannot pause a stopped container''), p)
        | DeletedState \<Rightarrow> (Fail (ErrNew ''cannot pause a deleted process''), p))"

definition Init_Resume :: "env \<Rightarrow> init \<Rightarrow> unit res \<times> init" where
  "Init_Resume E p =
     wrapping ''resuming init process: ''
       (case iState p of
          CreatedState \<Rightarrow> (Fail (ErrNew ''cannot resume task in created state''), p)
        | CreatedCheckpointState _ \<Rightarrow> (Fail (ErrNew ''cannot resume task in created state''), p)
        | RunningState \<Rightarrow> (Fail (ErrNew ''cannot resume a running process''), p)
        | PausedState \<Rightarrow> pausedState_Resume E p
        | StoppedState \<Rightarrow> (Fail (ErrNew ''cannot resume a stopped container''), p)
        | DeletedState \<Rightarrow> (Fail (ErrNew ''cannot resume a deleted process''), p))"

definition Init_Kill :: "env \<Rightarrow> 32 word \<Rightarrow> bool \<Rightarrow> init \<Rightarrow> unit res \<times> init" where
  "Init_Kill E sig all p =
     wrapping ''killing init process: ''
       (case iState p of
          DeletedState \<Rightarrow> (Fail (Wrapf ''killing deleted process: '' (Sentinel ErrNotFound)), p)
        | _ \<Rightarrow> Init_kill E sig all p)"

definition Init_KillAll :: "env \<Rightarrow> init \<Rightarrow> unit res \<times> init" where
  "Init_KillAll E p =
     wrapping ''killing all processes: ''
       (of_opt (rtKill E (iId p) 9 True), iemit [CallKill (iId p) 9 True] p)"

definition Init_Checkpoint :: "env \<Rightarrow> checkpoint_config \<Rightarrow> init \<Rightarrow> unit res \<times> init" where
  "Init_Checkpoint E r p =
     wrapping ''checkpointing init process: ''
       (case iState p of
          CreatedState \<Rightarrow> (Fail (ErrNew ''cannot checkpoint a task in created state''), p)
        | CreatedCheckpointState _ \<Rightarrow> (Fail (ErrNew ''cannot checkpoint a task in created state''), p)
        | RunningState \<Rightarrow> Init_checkpoint E r p
        | PausedState \<Rightarrow> Init_checkpoint E r p
        | StoppedState \<Rightarrow> (Fail (ErrNew ''cannot checkpoint a stopped container''), p)
        | DeletedState \<Rightarrow> (Fail (ErrNew ''cannot checkpoint a deleted process''), p))"

definition Init_Update :: "env \<Rightarrow> string \<Rightarrow> init \<Rightarrow> unit res \<times> init" where
  "Init_Update E r p =
     wrapping ''updating init process: ''
       (case iState p of
          StoppedState \<Rightarrow> (Fail (ErrNew ''cannot update a stopped container''), p)
        | DeletedState \<Rightarrow> (Fail (ErrNew ''cannot update a deleted process''), p)
        | _ \<Rightarrow> Init_update E r p)"

definition Init_SetExited :: "env \<Rightarrow> int \<Rightarrow> init \<Rightarrow> unit res \<times> init" where
  "Init_SetExited E st p =
     (case iState p of
        CreatedState \<Rightarrow> createdState_SetExited E st p
      | CreatedCheckpointState _ \<Rightarrow> createdCheckpointState_SetExited E st p
      | RunningState \<Rightarrow> runningState_SetExited E st p
      | PausedState \<Rightarrow> pausedState_SetExited E st p
      | StoppedState \<Rightarrow> (Ok (), p)
      | DeletedState \<Rightarrow> (Ok (), p))"

definition initState_Status :: "init_state \<Rightarrow> string" where
  "initState_Status s =
     (case s of
        CreatedState \<Rightarrow> ''created''
      | CreatedCheckpointState _ \<Rightarrow> ''created''
      | RunningState \<Rightarrow> ''running''
      | PausedState \<Rightarrow> ''paused''
      | StoppedState \<Rightarrow> ''stopped''
      | DeletedState \<Rightarrow> ''stopped'')"

definition Init_Status :: "init \<Rightarrow> string" where
  "Init_Status p = (if iPausing p then ''pausing'' else initState_Status (iState p))"

definition Init_Resize :: "env \<Rightarrow> 16 word \<Rightarrow> 16 word \<Rightarrow> init \<Rightarrow> unit res \<times> init" where
  "Init_Resize E w h p =
     (case iConsole p of
        None \<Rightarrow> (Ok (), p)
      | Some c \<Rightarrow> (of_opt (ConsoleResize E c w h), iemit [DoResizeConsole c] p))"

definition Init_CloseIO :: "init \<Rightarrow> init" where
  "Init_CloseIO p = (case iIO p of Some pio \<Rightarrow> iemit (processIO_Close pio) p | None \<Rightarrow> p)"

text \<open>\<open>Wait\<close> returns once the wait channel is closed.\<close>

definition Init_WaitReturns :: "init \<Rightarrow> bool" where
  "Init_WaitReturns p = iWaitClosed p"

section \<open>Frame facts\<close>

text \<open>The fields that decide what a process answers: state, wait channel, exit record.\<close>

definition icore :: "init \<Rightarrow> init_state \<times> bool \<times> int option \<times> int" where
  "icore p = (iState p, iWaitClosed p, iExited p, iStatus p)"

lemma icore_eqD:
  assumes "icore p = icore q"
  shows "iState p = iState q" "iWaitClosed p = iWaitClosed q" "iExited p = iExited q"
    "iStatus p = iStatus q"
  using assms by (simp_all add: icore_def)

lemma iemit_simps [simp]:
  "iState (iemit fx p) = iState p" "iWaitClosed (iemit fx p) = iWaitClosed p"
  "iExited (iemit fx p) = iExited p" "iStatus (iemit fx p) = iStatus p"
  "iPausing (iemit fx p) = iPausing p" "iId (iemit fx p) = iId p" "iPid (iemit fx p) = iPid p"
  "iIO (iemit fx p) = iIO p" "iClosers (iemit fx p) = iClosers p"
  "iConsole (iemit fx p) = iConsole p" "iStdio (iemit fx p) = iStdio p"
  "iBundle (iemit fx p) = iBundle p" "iStdin (iemit fx p) = iStdin p"
  "iTrace (iemit fx p) = iTrace p @ fx"
  by (simp_all add: iemit_def)

lemma icore_iemit [simp]: "icore (iemit fx p) = icore p"
  by (simp add: icore_def)

lemma icore_updates [simp]:
  "icore (p\<lparr>iStdin := x\<rparr>) = icore p" "icore (p\<lparr>iClosers := c\<rparr>) = icore p"
  "icore (p\<lparr>iConsole := y\<rparr>) = icore p" "icore (p\<lparr>iPid := n\<rparr>) = icore p"
  "icore (p\<lparr>iIO := z\<rparr>) = icore p" "icore (p\<lparr>iPausing := b\<rparr>) = icore p"
  by (simp_all add: icore_def)

lemma icore_helpers [frame_simps]:
  "icore (snd (Init_openStdin E path p)) = icore p"
  "icore (snd (Init_attach E socket st p)) = icore p"
  "icore (snd (Init_readPid E path p)) = icore p"
  "icore (snd (Init_openIO E t p)) = icore p"
  "icore (snd (Init_start E p)) = icore p"
  "icore (snd (Init_delete E p)) = icore p"
  "icore (snd (Init_kill E sig all p)) = icore p"
  "icore (snd (Init_checkpoint E r p)) = icore p"
  "icore (snd (Init_update E u p)) = icore p"
  by (simp_all add: Init_openStdin_def Init_attach_def Init_readPid_def Init_openIO_def
      Init_start_def Init_delete_def Init_kill_def Init_checkpoint_def Init_update_def Let_def
      split: sum.split option.split prod.split res.split)

lemma no_panic_helpers [frame_simps]:
  "fst (Init_openStdin E path p) \<noteq> Panic m"
  "fst (Init_readPid E path p) \<noteq> Panic m"
  "fst (Init_start E p) \<noteq> Panic m"
  "fst (Init_delete E p) \<noteq> Panic m"
  "fst (Init_kill E sig all p) \<noteq> Panic m"
  "fst (Init_checkpoint E r p) \<noteq> Panic m"
  "fst (Init_update E u p) \<noteq> Panic m"
  by (simp_all add: Init_openStdin_def Init_readPid_def Init_start_def Init_delete_def
      Init_kill_def Init_checkpoint_def Init_update_def res_of_err_def wrap_err_def Let_def
      split: sum.split option.split prod.split res.split)

lemma Init_attach_no_panic [frame_simps]:
  "socket \<noteq> None \<or> iIO p \<noteq> None \<Longrightarrow> fst (Init_attach E socket st p) \<noteq> Panic m"
  by (auto simp: Init_attach_def processIO_Copy_no_panic wrap_err_def
      split: sum.split option.split res.split)

lemma iIO_helpers [frame_simps]:
  "iIO (snd (Init_openStdin E path p)) = iIO p"
  by (simp add: Init_openStdin_def split: sum.split)

section \<open>Traces of operations\<close>

datatype init_op =
    OpStart | OpDelete | OpPause | OpResume
  | OpKill "32 word" bool | OpKillAll
  | OpCheckpoint checkpoint_config | OpUpdate string
  | OpSetExited int | OpResize "16 word" "16 word" | OpCloseIO

fun init_apply :: "env \<Rightarrow> init_op \<Rightarrow> init \<Rightarrow> unit res \<times> init" where
  "init_apply E OpStart p = Init_Start E p"
| "init_apply E OpDelete p = Init_Delete E p"
| "init_apply E OpPause p = Init_Pause E p"
| "init_apply E OpResume p = Init_Resume E p"
| "init_apply E (OpKill sig all) p = Init_Kill E sig all p"
| "init_apply E OpKillAll p = Init_KillAll E p"
| "init_apply E (OpCheckpoint r) p = Init_Checkpoint E r p"
| "init_apply E (OpUpdate r) p = Init_Update E r p"
| "init_apply E (OpSetExited st) p = Init_SetExited E st p"
| "init_apply E (OpResize w h) p = Init_Resize E w h p"
| "init_apply E OpCloseIO p = (Ok (), Init_CloseIO p)"

text \<open>A step of the process: any method, with any behaviour of the outside.\<close>

inductive init_step :: "init \<Rightarrow> init \<Rightarrow> bool" where
  call: "init_step p (snd (init_apply E op p))"

inductive_cases init_stepE: "init_step p q"

text \<open>A process as \<open>newInit\<close> leaves it, possibly after \<open>Create\<close>.\<close>

definition init_fresh :: "init \<Rightarrow> bool" where
  "init_fresh p \<longleftrightarrow> iState p = CreatedState \<and> \<not> iWaitClosed p \<and> iExited p = None \<and>
     \<not> iPausing p \<and> iIO p = None \<and> iConsole p = None"

definition init_start :: "init \<Rightarrow> bool" where
  "init_start p \<longleftrightarrow> (\<exists>p0. init_fresh p0 \<and>
     (p = p0 \<or> (\<exists>E r. ccTerminal r = Terminal (iStdio p0) \<and> p = snd (Init_Create E r p0))))"

section \<open>The abstract life cycle\<close>

datatype lifecycle = LCreated | LRunning | LPaused | LStopped | LDeleted

definition lc :: "init \<Rightarrow> lifecycle" where
  "lc p = (case iState p of
       CreatedState \<Rightarrow> LCreated
     | CreatedCheckpointState _ \<Rightarrow> LCreated
     | RunningState \<Rightarrow> LRunning
     | PausedState \<Rightarrow> LPaused
     | StoppedState \<Rightarrow> LStopped
     | DeletedState \<Rightarrow> LDeleted)"

text \<open>
  The life cycle of an OCI container as the task API promises it: where each operation is
  allowed, and where it leads.
\<close>

fun lc_next :: "init_op \<Rightarrow> lifecycle \<Rightarrow> lifecycle option" where
  "lc_next OpStart s = (if s = LCreated then Some LRunning else None)"
| "lc_next OpDelete s = (if s = LCreated \<or> s = LStopped then Some LDeleted else None)"
| "lc_next OpPause s = (if s = LRunning then Some LPaused else None)"
| "lc_next OpResume s = (if s = LPaused then Some LRunning else None)"
| "lc_next (OpKill _ _) s = (if s = LDeleted then None else Some s)"
| "lc_next OpKillAll s = Some s"
| "lc_next (OpCheckpoint _) s = (if s = LRunning \<or> s = LPaused then Some s else None)"
| "lc_next (OpUpdate _) s = (if s = LStopped \<or> s = LDeleted then None else Some s)"
| "lc_next (OpSetExited _) s = (if s = LDeleted then Some LDeleted else Some LStopped)"
| "lc_next (OpResize _ _) s = Some s"
| "lc_next OpCloseIO s = Some s"

lemma lc_core: "icore p = icore q \<Longrightarrow> lc p = lc q"
  by (simp add: icore_def lc_def)

lemma lc_iemit [simp]: "lc (iemit fx p) = lc p"
  by (rule lc_core) simp

lemma lc_helpers [frame_simps]:
  "lc (snd (Init_openStdin E path p)) = lc p"
  "lc (snd (Init_attach E socket st p)) = lc p"
  "lc (snd (Init_readPid E path p)) = lc p"
  "lc (snd (Init_start E p)) = lc p"
  "lc (snd (Init_delete E p)) = lc p"
  "lc (snd (Init_kill E sig all p)) = lc p"
  "lc (snd (Init_checkpoint E r p)) = lc p"
  "lc (snd (Init_update E u p)) = lc p"
  by (rule lc_core, simp add: frame_simps)+

lemma lc_state_updates [simp]:
  "lc (p\<lparr>iState := RunningState\<rparr>) = LRunning" "lc (p\<lparr>iState := StoppedState\<rparr>) = LStopped"
  "lc (p\<lparr>iState := DeletedState\<rparr>) = LDeleted" "lc (p\<lparr>iState := PausedState\<rparr>) = LPaused"
  "lc (p\<lparr>iState := CreatedCheckpointState opts\<rparr>) = LCreated"
  "lc (p\<lparr>iPausing := b\<rparr>) = lc p"
  by (simp_all add: lc_def)

lemmas state_transitions =
  createdState_transition_def createdCheckpointState_transition_def runningState_transition_def
  pausedState_transition_def stoppedState_transition_def

lemmas state_methods =
  createdState_Start_def createdState_Delete_def createdState_SetExited_def
  createdCheckpointState_Delete_def createdCheckpointState_SetExited_def
  runningState_Pause_def runningState_SetExited_def
  pausedState_Resume_def pausedState_SetExited_def stoppedState_Delete_def

text \<open>The relation the simulation keeps between a call's result and the life cycle.\<close>

definition lc_sim :: "init_op \<Rightarrow> init \<Rightarrow> unit res \<times> init \<Rightarrow> bool" where
  "lc_sim op p x \<longleftrightarrow>
     (if is_ok (fst x) then lc_next op (lc p) = Some (lc (snd x)) else lc (snd x) = lc p)"

lemma lc_sim_restore:
  assumes "lc p = LCreated"
  shows "lc_sim OpStart p (createdCheckpointState_restore E opts socket p)"
  using assms
  by (auto simp: lc_sim_def createdCheckpointState_restore_def fst_and_then snd_and_then
      state_transitions frame_simps split: res.split)

lemma lc_sim_checkpoint_start:
  assumes "iState p = CreatedCheckpointState opts"
  shows "lc_sim OpStart p (createdCheckpointState_Start E opts p)"
proof -
  have p: "lc p = LCreated" using assms by (simp add: lc_def)
  show ?thesis
  proof (cases "Terminal (iStdio p)")
    case False
    then show ?thesis using lc_sim_restore [OF p] by (simp add: createdCheckpointState_Start_def)
  next
    case True
    show ?thesis
    proof (cases "NewTempConsoleSocket E")
      case (Inl e)
      with True p show ?thesis by (simp add: createdCheckpointState_Start_def lc_sim_def)
    next
      case (Inr s)
      let ?o = "opts\<lparr>roConsoleSocket := Some s\<rparr>"
      let ?p1 = "iemit [CallNewTempConsoleSocket] (p\<lparr>iState := CreatedCheckpointState ?o\<rparr>)"
      have "lc_sim OpStart ?p1 (createdCheckpointState_restore E ?o (Some s) ?p1)"
        by (rule lc_sim_restore) simp
      with True Inr p show ?thesis
        by (auto simp: createdCheckpointState_Start_def lc_sim_def Let_def case_prod_beta split: if_splits)
    qed
  qed
qed

lemma Init_setExited_core:
  "\<not> iWaitClosed p \<Longrightarrow> fst (Init_setExited E st p) = Ok () \<and>
     icore (snd (Init_setExited E st p)) = (iState p, True, Some (timeNow E), st)"
  "iWaitClosed p \<Longrightarrow> is_panic (fst (Init_setExited E st p)) \<and>
     iState (snd (Init_setExited E st p)) = iState p"
  by (simp_all add: Init_setExited_def icore_def Let_def)

lemma lc_setExited [simp]: "lc (snd (Init_setExited E st p)) = lc p"
  by (simp add: Init_setExited_def lc_def Let_def)

lemma or_panic_transitions:
  "or_panic (createdState_transition ''stopped'' p) = (Ok (), p\<lparr>iState := StoppedState\<rparr>)"
  "or_panic (createdCheckpointState_transition ''stopped'' p) = (Ok (), p\<lparr>iState := StoppedState\<rparr>)"
  "or_panic (runningState_transition ''stopped'' p) = (Ok (), p\<lparr>iState := StoppedState\<rparr>)"
  "or_panic (pausedState_transition ''stopped'' p) = (Ok (), p\<lparr>iState := StoppedState\<rparr>)"
  by (simp_all add: or_panic_def state_transitions)

text \<open>In the four states before the exit, \<open>SetExited\<close> records it and stops the process.\<close>

definition exit_pending :: "init \<Rightarrow> bool" where
  "exit_pending p \<longleftrightarrow> iState p \<noteq> StoppedState \<and> iState p \<noteq> DeletedState"

lemma Init_SetExited_pending:
  assumes "exit_pending p" "\<not> iWaitClosed p"
  shows "fst (Init_SetExited E st p) = Ok () \<and>
    icore (snd (Init_SetExited E st p)) = (StoppedState, True, Some (timeNow E), st)"
  using assms Init_setExited_core(1) [OF assms(2), of E st]
  by (auto simp: exit_pending_def Init_SetExited_def state_methods fst_and_then snd_and_then
      or_panic_transitions icore_def split: init_state.splits)

lemma Init_SetExited_ended: "\<not> exit_pending p \<Longrightarrow> Init_SetExited E st p = (Ok (), p)"
  by (auto simp: exit_pending_def Init_SetExited_def split: init_state.splits)

lemma lc_exit_pending: "exit_pending p \<longleftrightarrow> lc p \<noteq> LStopped \<and> lc p \<noteq> LDeleted"
  by (simp add: exit_pending_def lc_def split: init_state.split)

lemma Init_SetExited_panic_lc:
  "is_panic (fst (Init_SetExited E st p)) \<Longrightarrow> lc (snd (Init_SetExited E st p)) = lc p"
  by (cases "iWaitClosed p"; cases "exit_pending p")
    (auto simp: Init_SetExited_ended Init_SetExited_pending Init_SetExited_def state_methods
      fst_and_then snd_and_then or_panic_transitions dest!: Init_setExited_core(2) [of p E st]
      split: init_state.splits res.splits)

text \<open>Every method simulates the life cycle.\<close>

lemma lc_sim_SetExited: "lc_sim (OpSetExited st) p (Init_SetExited E st p)"
proof (cases "exit_pending p")
  case False
  then show ?thesis
    by (auto simp: Init_SetExited_ended lc_sim_def lc_exit_pending)
next
  case True
  show ?thesis
  proof (cases "iWaitClosed p")
    case True
    have "is_panic (fst (Init_SetExited E st p))"
      using \<open>exit_pending p\<close> Init_setExited_core(2) [OF True, of E st]
      by (auto simp: exit_pending_def Init_SetExited_def state_methods fst_and_then
          is_panic_def split: init_state.splits res.splits)
    then show ?thesis
      using Init_SetExited_panic_lc [of E st p]
      by (auto simp: lc_sim_def is_ok_def is_panic_def split: res.splits)
  next
    case False
    with \<open>exit_pending p\<close> show ?thesis
      using Init_SetExited_pending [OF \<open>exit_pending p\<close> False, of E st]
      by (auto simp: lc_sim_def lc_def icore_def exit_pending_def split: init_state.splits)
  qed
qed

lemma lc_sim_all: "lc_sim op p (init_apply E op p)"
proof (cases op)
  case OpStart
  then show ?thesis
    using lc_sim_checkpoint_start [of p _ E]
    by (cases "iState p")
      (auto simp: lc_sim_def Init_Start_def createdState_Start_def fst_and_then snd_and_then
        state_transitions frame_simps split: res.split, auto simp: lc_def)
next
  case OpDelete
  then show ?thesis
    by (cases "iState p")
      (auto simp: lc_sim_def Init_Delete_def state_methods fst_and_then snd_and_then
        state_transitions frame_simps split: res.split, auto simp: lc_def)
next
  case OpPause
  then show ?thesis
    by (cases "iState p"; cases "rtPause E (iId p)")
      (auto simp: lc_sim_def Init_Pause_def state_methods state_transitions lc_def)
next
  case OpResume
  then show ?thesis
    by (cases "iState p"; cases "rtResume E (iId p)")
      (auto simp: lc_sim_def Init_Resume_def state_methods state_transitions lc_def)
next
  case (OpKill sig all)
  then show ?thesis
    by (cases "iState p") (auto simp: lc_sim_def Init_Kill_def frame_simps, auto simp: lc_def)
next
  case OpKillAll
  then show ?thesis by (simp add: lc_sim_def Init_KillAll_def)
next
  case (OpCheckpoint r)
  then show ?thesis
    by (cases "iState p") (auto simp: lc_sim_def Init_Checkpoint_def frame_simps, auto simp: lc_def)
next
  case (OpUpdate r)
  then show ?thesis
    by (cases "iState p") (auto simp: lc_sim_def Init_Update_def frame_simps, auto simp: lc_def)
next
  case (OpSetExited st)
  then show ?thesis using lc_sim_SetExited by simp
next
  case (OpResize w h)
  then show ?thesis by (simp add: lc_sim_def Init_Resize_def split: option.split)
next
  case OpCloseIO
  then show ?thesis by (simp add: lc_sim_def Init_CloseIO_def split: option.split)
qed

text \<open>An operation the life cycle refuses fails and touches nothing.\<close>

lemma refused_unchanged:
  assumes "lc_next op (lc p) = None"
  shows "snd (init_apply E op p) = p \<and> \<not> is_ok (fst (init_apply E op p)) \<and>
    \<not> is_panic (fst (init_apply E op p))"
  using assms
  by (cases op; cases "iState p")
    (auto simp: lc_def Init_Start_def Init_Delete_def Init_Pause_def Init_Resume_def Init_Kill_def
      Init_Checkpoint_def Init_Update_def split: if_splits)

section \<open>The exit record\<close>

definition iexit :: "init \<Rightarrow> bool \<times> int option \<times> int" where
  "iexit p = (iWaitClosed p, iExited p, iStatus p)"

lemma iexit_core: "icore p = icore q \<Longrightarrow> iexit p = iexit q"
  by (simp add: icore_def iexit_def)

lemma iexit_updates [simp]:
  "iexit (iemit fx p) = iexit p" "iexit (p\<lparr>iState := s\<rparr>) = iexit p"
  "iexit (p\<lparr>iPausing := b\<rparr>) = iexit p"
  by (simp_all add: iexit_def iemit_def)

lemmas iexit_helpers [frame_simps] = icore_helpers [THEN iexit_core]

lemma iexit_restore [frame_simps]:
  "iexit (snd (createdCheckpointState_restore E opts socket p)) = iexit p"
  by (auto simp: createdCheckpointState_restore_def snd_and_then state_transitions frame_simps
      split: res.split)

lemma iexit_Start [frame_simps]: "iexit (snd (Init_Start E p)) = iexit p"
  by (cases "iState p")
    (auto simp: Init_Start_def createdState_Start_def createdCheckpointState_Start_def snd_and_then
      state_transitions frame_simps Let_def case_prod_beta split: res.split sum.split)

lemma iexit_Delete [frame_simps]: "iexit (snd (Init_Delete E p)) = iexit p"
  by (cases "iState p")
    (auto simp: Init_Delete_def state_methods snd_and_then state_transitions frame_simps
      split: res.split)

text \<open>Only \<open>SetExited\<close> writes the exit record.\<close>

lemma iexit_unchanged:
  assumes "\<And>st. op \<noteq> OpSetExited st"
  shows "iexit (snd (init_apply E op p)) = iexit p"
proof (cases op)
  case OpPause
  then show ?thesis
    by (cases "iState p"; cases "rtPause E (iId p)")
      (simp_all add: Init_Pause_def runningState_Pause_def runningState_transition_def)
next
  case OpResume
  then show ?thesis
    by (cases "iState p"; cases "rtResume E (iId p)")
      (simp_all add: Init_Resume_def pausedState_Resume_def pausedState_transition_def)
qed (use assms in \<open>simp_all add: frame_simps Init_Kill_def Init_KillAll_def Init_Checkpoint_def
    Init_Update_def Init_Resize_def Init_CloseIO_def split: init_state.split option.split\<close>)

text \<open>The wait channel is closed exactly when an exit is recorded, and always once stopped.\<close>

definition wait_inv :: "init \<Rightarrow> bool" where
  "wait_inv p \<longleftrightarrow> (iWaitClosed p \<longleftrightarrow> iExited p \<noteq> None) \<and>
     (exit_pending p \<longrightarrow> \<not> iWaitClosed p) \<and> (iState p = StoppedState \<longrightarrow> iWaitClosed p)"

definition io_inv :: "init \<Rightarrow> bool" where
  "io_inv p \<longleftrightarrow> (\<forall>opts. iState p = CreatedCheckpointState opts \<longrightarrow>
     Terminal (iStdio p) \<or> iIO p \<noteq> None)"

lemma lc_stopped: "iState p = StoppedState \<longleftrightarrow> lc p = LStopped"
  by (simp add: lc_def split: init_state.split)

lemma wait_inv_lc:
  "wait_inv p \<longleftrightarrow> (case iexit p of (c, x, _) \<Rightarrow> (c \<longleftrightarrow> x \<noteq> None) \<and>
     (lc p \<noteq> LStopped \<and> lc p \<noteq> LDeleted \<longrightarrow> \<not> c) \<and> (lc p = LStopped \<longrightarrow> c))"
  by (simp add: wait_inv_def iexit_def lc_exit_pending lc_stopped)

lemma lc_next_ended:
  assumes "lc_next op s = Some t" "\<And>st. op \<noteq> OpSetExited st"
  shows "(t = LStopped \<longrightarrow> s = LStopped) \<and> (t \<noteq> LStopped \<and> t \<noteq> LDeleted \<longrightarrow> s \<noteq> LStopped \<and> s \<noteq> LDeleted)"
  using assms by (cases op) (auto split: if_splits)

lemma wait_inv_SetExited: "wait_inv p \<Longrightarrow> wait_inv (snd (Init_SetExited E st p))"
proof (cases "exit_pending p")
  case True
  moreover assume "wait_inv p"
  ultimately show ?thesis
    using Init_SetExited_pending [OF True, of E st]
    by (auto simp: wait_inv_def icore_def exit_pending_def)
qed (simp add: Init_SetExited_ended)

lemma wait_inv_apply:
  assumes "wait_inv p" shows "wait_inv (snd (init_apply E op p))"
proof (cases "\<exists>st. op = OpSetExited st")
  case True
  with assms wait_inv_SetExited show ?thesis by auto
next
  case False
  then have x: "iexit (snd (init_apply E op p)) = iexit p"
    by (intro iexit_unchanged) auto
  have "lc (snd (init_apply E op p)) = lc p \<or> lc_next op (lc p) = Some (lc (snd (init_apply E op p)))"
    using lc_sim_all [of op p E] by (auto simp: lc_sim_def split: if_splits)
  with False lc_next_ended [of op "lc p" "lc (snd (init_apply E op p))"]
  show ?thesis using assms unfolding wait_inv_lc x by (auto split: prod.splits)
qed

section \<open>The attached IO\<close>

definition iattached :: "init \<Rightarrow> stdio \<times> process_io option" where
  "iattached p = (iStdio p, iIO p)"

lemma iattached_updates [simp]:
  "iattached (iemit fx p) = iattached p" "iattached (p\<lparr>iState := s\<rparr>) = iattached p"
  "iattached (p\<lparr>iStdin := x\<rparr>) = iattached p" "iattached (p\<lparr>iClosers := c\<rparr>) = iattached p"
  "iattached (p\<lparr>iConsole := y\<rparr>) = iattached p" "iattached (p\<lparr>iPid := n\<rparr>) = iattached p"
  "iattached (p\<lparr>iPausing := b\<rparr>) = iattached p"
  by (simp_all add: iattached_def iemit_def)

lemma iattached_helpers [frame_simps]:
  "iattached (snd (Init_openStdin E path p)) = iattached p"
  "iattached (snd (Init_attach E socket st p)) = iattached p"
  "iattached (snd (Init_readPid E path p)) = iattached p"
  "iattached (snd (Init_start E p)) = iattached p"
  "iattached (snd (Init_delete E p)) = iattached p"
  "iattached (snd (Init_kill E sig all p)) = iattached p"
  "iattached (snd (Init_checkpoint E r p)) = iattached p"
  "iattached (snd (Init_update E u p)) = iattached p"
  "iattached (snd (Init_setExited E x p)) = iattached p"
  by (simp_all add: Init_openStdin_def Init_attach_def Init_readPid_def
      Init_start_def Init_delete_def Init_kill_def Init_checkpoint_def Init_update_def
      Init_setExited_def Let_def iattached_def iemit_def split: sum.split option.split)

lemma iattached_restore [frame_simps]:
  "iattached (snd (createdCheckpointState_restore E opts socket p)) = iattached p"
  by (auto simp: createdCheckpointState_restore_def snd_and_then state_transitions frame_simps
      split: res.split)

lemma iattached_apply: "iattached (snd (init_apply E op p)) = iattached p"
proof (cases op)
  case OpStart
  then show ?thesis
    by (cases "iState p")
      (auto simp: Init_Start_def createdState_Start_def createdCheckpointState_Start_def
        snd_and_then state_transitions frame_simps Let_def case_prod_beta
        split: res.split sum.split)
next
  case OpDelete
  then show ?thesis
    by (cases "iState p") (auto simp: Init_Delete_def state_methods snd_and_then state_transitions
        frame_simps split: res.split)
next
  case OpPause
  then show ?thesis
    by (cases "iState p"; cases "rtPause E (iId p)")
      (simp_all add: Init_Pause_def runningState_Pause_def runningState_transition_def)
next
  case OpResume
  then show ?thesis
    by (cases "iState p"; cases "rtResume E (iId p)")
      (simp_all add: Init_Resume_def pausedState_Resume_def pausedState_transition_def)
next
  case (OpSetExited st)
  then show ?thesis
    by (cases "iState p") (auto simp: Init_SetExited_def state_methods snd_and_then
        or_panic_transitions frame_simps split: res.split)
qed (simp_all add: frame_simps Init_Kill_def Init_KillAll_def Init_Checkpoint_def
    Init_Update_def Init_Resize_def Init_CloseIO_def split: init_state.split option.split)

text \<open>A process enters the checkpoint state only in \<open>Create\<close>.\<close>

definition is_restored :: "init \<Rightarrow> bool" where
  "is_restored p = (case iState p of CreatedCheckpointState _ \<Rightarrow> True | _ \<Rightarrow> False)"

lemma is_restored_core: "icore p = icore q \<Longrightarrow> is_restored p = is_restored q"
  by (simp add: icore_def is_restored_def)

lemma is_restored_updates [simp]:
  "is_restored (iemit fx p) = is_restored p" "is_restored (p\<lparr>iPausing := b\<rparr>) = is_restored p"
  by (simp_all add: is_restored_def)

lemmas is_restored_helpers [frame_simps] = icore_helpers [THEN is_restored_core]

lemma is_restored_setExited [frame_simps]:
  "is_restored (snd (Init_setExited E x p)) = is_restored p"
  by (simp add: is_restored_def Init_setExited_def Let_def)

lemma io_inv_alt: "io_inv p \<longleftrightarrow>
  (is_restored p \<longrightarrow> Terminal (fst (iattached p)) \<or> snd (iattached p) \<noteq> None)"
  by (auto simp: io_inv_def is_restored_def iattached_def split: init_state.split)

lemma is_restored_apply:
  assumes "is_restored (snd (init_apply E op p))" shows "is_restored p"
proof (rule ccontr)
  assume n: "\<not> is_restored p"
  have [simp]: "\<And>q s. is_restored (q\<lparr>iState := s\<rparr>) =
      (case s of CreatedCheckpointState _ \<Rightarrow> True | _ \<Rightarrow> False)"
    by (simp add: is_restored_def)
  have "\<not> is_restored (snd (init_apply E op p))"
  proof (cases op)
    case OpStart
    with n show ?thesis
      by (cases "iState p") (simp_all add: is_restored_def [of p], simp_all add: Init_Start_def
          createdState_Start_def snd_and_then state_transitions frame_simps n split: res.split)
  next
    case OpDelete
    with n show ?thesis
      by (cases "iState p") (auto simp: Init_Delete_def state_methods snd_and_then
          state_transitions frame_simps split: res.split)
  next
    case OpPause
    with n show ?thesis
      by (cases "iState p"; cases "rtPause E (iId p)")
        (simp_all add: Init_Pause_def runningState_Pause_def runningState_transition_def)
  next
    case OpResume
    with n show ?thesis
      by (cases "iState p"; cases "rtResume E (iId p)")
        (simp_all add: Init_Resume_def pausedState_Resume_def pausedState_transition_def)
  next
    case (OpSetExited st)
    with n show ?thesis
      by (cases "iState p") (auto simp: Init_SetExited_def state_methods snd_and_then
          or_panic_transitions frame_simps split: res.split)
  qed (use n in \<open>simp_all add: frame_simps Init_Kill_def Init_KillAll_def Init_Checkpoint_def
      Init_Update_def Init_Resize_def Init_CloseIO_def split: init_state.split option.split\<close>)
  with assms show False by simp
qed

lemma io_inv_apply: "io_inv p \<Longrightarrow> io_inv (snd (init_apply E op p))"
  using is_restored_apply [of E op p] by (auto simp: io_inv_alt iattached_apply)

section \<open>Creation and reachability\<close>

lemma createFresh_core [frame_simps]:
  "icore (snd (Init_createFresh E r pf socket p)) = icore p"
  by (auto simp: Init_createFresh_def Let_def snd_and_then frame_simps split: res.split)

lemma openIO_io:
  "fst (Init_openIO E t p) = Ok socket \<Longrightarrow>
     (if t then socket \<noteq> None else socket = None \<and> iIO (snd (Init_openIO E t p)) \<noteq> None)"
  by (auto simp: Init_openIO_def split: if_splits sum.splits prod.splits res.splits)

lemma openIO_stdio: "iStdio (snd (Init_openIO E t p)) = iStdio p"
  by (simp add: Init_openIO_def split: sum.split prod.split res.split)

lemma openIO_no_panic: "fst (Init_openIO E t p) \<noteq> Panic m"
  using createIO_no_panic [of E "iIoUID p" "iIoGID p" "iStdio p" m]
  by (auto simp: Init_openIO_def split: sum.split prod.split res.split)

lemma createFresh_no_panic:
  assumes "socket \<noteq> None \<or> iIO p \<noteq> None"
  shows "fst (Init_createFresh E r pf socket p) \<noteq> Panic m"
  using assms
  by (auto simp: Init_createFresh_def Let_def fst_and_then snd_and_then frame_simps wrap_err_def
      split: res.split)

lemma Init_Create_cases:
  "Init_Create E r p =
     (case fst (Init_openIO E (ccTerminal r) p) of
        Ok socket \<Rightarrow>
          if ccCheckpoint r \<noteq> []
          then Init_createCheckpointedState r (newPidFile (iBundle p)) (snd (Init_openIO E (ccTerminal r) p))
          else Init_createFresh E r (newPidFile (iBundle p)) socket (snd (Init_openIO E (ccTerminal r) p))
      | Fail e \<Rightarrow> (Fail e, snd (Init_openIO E (ccTerminal r) p))
      | Panic m \<Rightarrow> (Panic m, snd (Init_openIO E (ccTerminal r) p)))"
  by (cases "Init_openIO E (ccTerminal r) p"; cases "fst (Init_openIO E (ccTerminal r) p)")
    (auto simp: Init_Create_def)

lemma NewBinaryIO_no_close: "CallRuntimeClose \<notin> set (snd (NewBinaryIO E))"
  by (simp add: NewBinaryIO_unfold split: sum.split option.split prod.split)

lemma createIO_no_close: "CallRuntimeClose \<notin> set (snd (createIO E uid gid st))"
proof -
  obtain b fx where nb: "NewBinaryIO E = (b, fx)" by (cases "NewBinaryIO E")
  with NewBinaryIO_no_close [of E] have "CallRuntimeClose \<notin> set fx" by simp
  with nb show ?thesis
    by (simp add: createIO_def Let_def wrapBinaryIO_def split: sum.split option.split prod.split res.split)
qed

lemma no_close_helpers:
  "CallRuntimeClose \<notin> set (iTrace p) \<Longrightarrow> CallRuntimeClose \<notin> set (iTrace (snd (Init_openStdin E path p)))"
  "CallRuntimeClose \<notin> set (iTrace p) \<Longrightarrow> CallRuntimeClose \<notin> set (iTrace (snd (Init_attach E socket st p)))"
  "CallRuntimeClose \<notin> set (iTrace p) \<Longrightarrow> CallRuntimeClose \<notin> set (iTrace (snd (Init_readPid E path p)))"
  by (auto simp: Init_openStdin_def Init_attach_def Init_readPid_def split: sum.split option.split)

lemma no_close_openIO:
  "CallRuntimeClose \<notin> set (iTrace p) \<Longrightarrow> CallRuntimeClose \<notin> set (iTrace (snd (Init_openIO E t p)))"
  using createIO_no_close [of E "iIoUID p" "iIoGID p" "iStdio p"]
  by (auto simp: Init_openIO_def split: sum.split prod.split res.split)

lemma no_close_createFresh:
  "CallRuntimeClose \<notin> set (iTrace p) \<Longrightarrow>
     CallRuntimeClose \<notin> set (iTrace (snd (Init_createFresh E r pf socket p)))"
  by (auto simp: Init_createFresh_def Let_def snd_and_then intro!: no_close_helpers split: res.split)

text \<open>\<open>Create\<close> never closes the runtime.\<close>

lemma Init_Create_no_close:
  "CallRuntimeClose \<notin> set (iTrace p) \<Longrightarrow> CallRuntimeClose \<notin> set (iTrace (snd (Init_Create E r p)))"
  using no_close_openIO [of p E "ccTerminal r"] no_close_createFresh
  by (simp add: Init_Create_cases Init_createCheckpointedState_def Let_def split: res.split)

lemma trace_helpers [frame_simps]:
  "set (iTrace p) \<subseteq> set (iTrace (snd (Init_openStdin E path p)))"
  "set (iTrace p) \<subseteq> set (iTrace (snd (Init_attach E socket st p)))"
  "set (iTrace p) \<subseteq> set (iTrace (snd (Init_readPid E path p)))"
  by (auto simp: Init_openStdin_def Init_attach_def Init_readPid_def split: sum.split option.split)

lemma readPid_ok:
  "fst (Init_readPid E path p) = Ok () \<Longrightarrow> rtReadPidFile E path = Inr (iPid (snd (Init_readPid E path p)))"
  by (auto simp: Init_readPid_def split: sum.splits)

lemma createFresh_ok:
  assumes "fst (Init_createFresh E r pf socket p) = Ok ()"
  shows "rtReadPidFile E pf = Inr (iPid (snd (Init_createFresh E r pf socket p))) \<and>
    (\<exists>opts. coPidFile opts = pf \<and> rtCreate E (ccID r) (ccBundle r) opts = None \<and>
       CallCreate (ccID r) (ccBundle r) opts \<in> set (iTrace (snd (Init_createFresh E r pf socket p))))"
proof -
  define opts where "opts = \<lparr>coPidFile = pf, coNoPivot = iNoPivotRoot p,
    coNoNewKeyring = iNoNewKeyring p,
    coIO = (case iIO p of Some pio \<Rightarrow> pioIO pio | None \<Rightarrow> None), coConsoleSocket = socket\<rparr>"
  let ?st = "\<lparr>Stdin = ccStdin r, Stdout = ccStdout r, Stderr = ccStderr r, Terminal = ccTerminal r\<rparr>"
  let ?p1 = "iemit [CallCreate (ccID r) (ccBundle r) opts] p"
  let ?x2 = "if ccStdin r \<noteq> [] then Init_openStdin E (ccStdin r) ?p1 else (Ok (), ?p1)"
  let ?x3 = "Init_attach E socket ?st (snd ?x2)"
  let ?x4 = "Init_readPid E pf (snd ?x3)"
  have c: "rtCreate E (ccID r) (ccBundle r) opts = None" and x4: "fst ?x4 = Ok ()"
    and q: "snd (Init_createFresh E r pf socket p) = snd ?x4"
    using assms unfolding Init_createFresh_def opts_def [symmetric] Let_def
    by (auto simp: fst_and_then snd_and_then split: res.splits if_splits)
  have "CallCreate (ccID r) (ccBundle r) opts \<in> set (iTrace ?p1)" by simp
  then have "CallCreate (ccID r) (ccBundle r) opts \<in> set (iTrace (snd ?x2))"
    using trace_helpers(1) [of ?p1] by auto
  then have "CallCreate (ccID r) (ccBundle r) opts \<in> set (iTrace (snd ?x4))"
    using trace_helpers(2) [of "snd ?x2"] trace_helpers(3) [of "snd ?x3"] by blast
  moreover have "coPidFile opts = pf" by (simp add: opts_def)
  ultimately show ?thesis unfolding q using c readPid_ok [OF x4] by blast
qed

lemma Init_Create_no_panic: "\<not> is_panic (fst (Init_Create E r p))"
  using openIO_io [of E "ccTerminal r" p] createFresh_no_panic
  by (auto simp: Init_Create_cases openIO_no_panic Init_createCheckpointedState_def Let_def
      is_panic_def split: res.splits if_splits)

lemma Init_Create_keeps:
  "iexit (snd (Init_Create E r p)) = iexit p"
  "lc p = LCreated \<Longrightarrow> lc (snd (Init_Create E r p)) = LCreated"
  using iexit_core [OF createFresh_core] iexit_helpers lc_core [OF createFresh_core]
    lc_core [OF icore_helpers(4)]
  by (auto simp: Init_Create_cases Init_createCheckpointedState_def Let_def split: res.split)

lemma Init_Create_io_inv:
  assumes "iState p = CreatedState" "ccTerminal r = Terminal (iStdio p)"
  shows "io_inv (snd (Init_Create E r p))"
  using assms openIO_io [of E "ccTerminal r" p] icore_eqD(1) [OF createFresh_core]
    icore_eqD(1) [OF icore_helpers(4)] openIO_stdio [of E "ccTerminal r" p]
  by (auto simp: Init_Create_cases io_inv_def Init_createCheckpointedState_def Let_def
      split: res.split if_splits)

definition init_inv :: "init \<Rightarrow> bool" where
  "init_inv p \<longleftrightarrow> wait_inv p \<and> io_inv p"

lemma init_fresh_wait: "init_fresh p \<Longrightarrow> lc p = LCreated \<and> fst (iexit p) = False \<and> fst (snd (iexit p)) = None"
  by (simp add: init_fresh_def lc_def iexit_def)

lemma init_start_inv: "init_start p \<Longrightarrow> init_inv p"
proof -
  assume "init_start p"
  then obtain p0 where p0: "init_fresh p0"
    and p: "p = p0 \<or> (\<exists>E r. ccTerminal r = Terminal (iStdio p0) \<and> p = snd (Init_Create E r p0))"
    by (auto simp: init_start_def)
  from p have "lc p = LCreated \<and> iexit p = iexit p0"
    using init_fresh_wait [OF p0] Init_Create_keeps by auto
  then have "wait_inv p" using init_fresh_wait [OF p0] by (simp add: wait_inv_lc case_prod_beta)
  moreover have "io_inv p"
    using p p0 Init_Create_io_inv by (auto simp: init_fresh_def) (simp add: io_inv_def)
  ultimately show ?thesis by (simp add: init_inv_def)
qed

lemma deleted_stays:
  assumes "lc p = LDeleted"
  shows "lc (snd (init_apply E op p)) = LDeleted \<and> iexit (snd (init_apply E op p)) = iexit p"
proof -
  have "iexit (snd (init_apply E op p)) = iexit p"
    using iexit_unchanged [of op E p] Init_SetExited_ended [of p E] assms
    by (cases op) (auto simp: lc_exit_pending)
  moreover have "lc (snd (init_apply E op p)) = LDeleted"
    using lc_sim_all [of op p E] assms by (cases op) (auto simp: lc_sim_def split: if_splits)
  ultimately show ?thesis by simp
qed

interpretation init_life: inductive_invariant init_start init_step init_inv
  by unfold_locales
    (auto simp: init_inv_def wait_inv_apply io_inv_apply dest: init_start_inv elim!: init_stepE)

interpretation init_latch: exit_latch Init_SetExited iWaitClosed "\<lambda>p. (iExited p, iStatus p)"
  exit_pending wait_inv
proof
  fix p E st
  assume "wait_inv p" "exit_pending p"
  then show "fst (Init_SetExited E st p) = Ok () \<and> iWaitClosed (snd (Init_SetExited E st p)) \<and>
      (iExited (snd (Init_SetExited E st p)), iStatus (snd (Init_SetExited E st p)))
        = (Some (timeNow E), st) \<and> \<not> exit_pending (snd (Init_SetExited E st p))"
    using Init_SetExited_pending [of p E st]
    by (auto simp: wait_inv_def icore_def exit_pending_def)
qed (rule Init_SetExited_ended)

text \<open>No method of a process in an invariant state panics.\<close>

lemma restore_no_panic:
  assumes "socket \<noteq> None \<or> iIO p \<noteq> None"
  shows "\<not> is_panic (fst (createdCheckpointState_restore E opts socket p))"
  using assms
  by (auto simp: createdCheckpointState_restore_def fst_and_then snd_and_then frame_simps
      wrap_err_def is_panic_def createdCheckpointState_transition_def split: res.split)

lemma Start_no_panic: "io_inv p \<Longrightarrow> \<not> is_panic (fst (Init_Start E p))"
  by (cases "iState p")
    (auto simp: Init_Start_def createdState_Start_def createdCheckpointState_Start_def io_inv_def
      is_panic_and_then Init_start_def createdState_transition_def Let_def case_prod_beta
      restore_no_panic split: sum.split)

lemma helper_not_panic:
  "\<not> is_panic (fst (Init_delete E p))" "\<not> is_panic (fst (Init_kill E sig all p))"
  "\<not> is_panic (fst (Init_checkpoint E r p))" "\<not> is_panic (fst (Init_update E u p))"
  by (auto simp: is_panic_def frame_simps split: res.split)

lemma init_apply_no_panic:
  assumes "init_inv p" shows "\<not> is_panic (fst (init_apply E op p))"
proof (cases op)
  case (OpSetExited st)
  then show ?thesis
    using init_latch.exit_never_panics [of p E st] assms by (simp add: init_inv_def)
qed (use assms helper_not_panic in \<open>auto simp: init_inv_def Start_no_panic Init_Delete_def
    Init_Pause_def Init_Resume_def Init_Kill_def Init_KillAll_def Init_Checkpoint_def
    Init_Update_def Init_Resize_def state_methods state_transitions is_panic_and_then Let_def
    case_prod_beta split: init_state.split option.split\<close>)

section \<open>Properties\<close>

text \<open>
  C2: The init process implements the container life cycle. Whatever the outside answers,
  a method that returns no error takes the process to the state the life cycle names for
  it, and a method that returns an error (or panics) leaves the life-cycle state as it was.
\<close>

theorem Init_simulates_lifecycle:
  "if is_ok (fst (init_apply E op p))
   then lc_next op (lc p) = Some (lc (snd (init_apply E op p)))
   else lc (snd (init_apply E op p)) = lc p"
  using lc_sim_all [of op p E] by (simp add: lc_sim_def)

text \<open>
  A method the life cycle refuses in the current state (start when not created, delete
  while running or paused, pause when not running, kill or delete after deletion, ...) returns an error and has no effect at all: no field of the process changes and no
  call reaches the OCI runtime.
\<close>

lemma Init_refused_no_effect:
  assumes "lc_next op (lc p) = None"
  shows "\<exists>e. init_apply E op p = (Fail e, p)"
  using refused_unchanged [OF assms, of E]
  by (cases "init_apply E op p"; cases "fst (init_apply E op p)") auto



lemma Init_New_start: "init_start (Init_New cid st)"
proof -
  have "init_fresh (Init_New cid st)" by (simp add: init_fresh_def Init_New_def)
  then show ?thesis by (auto simp: init_start_def)
qed

lemma Init_New_fields [simp]:
  "iState (Init_New cid st) = CreatedState" "iWaitClosed (Init_New cid st) = False"
  "iExited (Init_New cid st) = None" "iId (Init_New cid st) = cid"
  by (simp_all add: Init_New_def)


text \<open>
  C32: The first exit wins. Once a reachable init process has recorded an exit, no sequence
  of further calls, of whatever methods and with whatever outcomes, changes the recorded
  exit status or exit time or reopens its wait channel.
\<close>

theorem Init_exit_record_stable:
  assumes "reachable init_start init_step p" and "Init_WaitReturns p" and "init_step\<^sup>*\<^sup>* p q"
  shows "Init_WaitReturns q \<and> iExited q = iExited p \<and> iStatus q = iStatus p"
proof -
  have "iexit q = iexit p"
    using assms(3)
  proof (induction rule: rtranclp_induct)
    case (step q q')
    have "init_inv q"
      using init_life.reachable_inv reachable_rtranclp [OF assms(1) step.hyps(1)] by blast
    moreover have "iWaitClosed q" using step.IH assms(2) by (simp add: iexit_def Init_WaitReturns_def)
    ultimately have ended: "\<not> exit_pending q" by (auto simp: init_inv_def wait_inv_def)
    from step.hyps(2) obtain E op where q': "q' = snd (init_apply E op q)"
      by (auto elim: init_stepE)
    have "iexit q' = iexit q"
      using iexit_unchanged [of op E q] Init_SetExited_ended [OF ended, of E]
      unfolding q' by (cases op) auto
    with step.IH show ?case by simp
  qed simp
  with assms(2) show ?thesis by (simp add: iexit_def Init_WaitReturns_def)
qed

theorem Init_exit_record_stable_witness:
  "let n = Init_New ''c1'' no_streams;
       p = snd (Init_SetExited env_ok 3 n); q = snd (Init_SetExited env_ok 9 p)
   in Init_WaitReturns p \<and> iStatus p = 3 \<and> iStatus q = 3 \<and> Init_WaitReturns q"
proof -
  let ?n = "Init_New ''c1'' no_streams"
  let ?p = "snd (init_apply env_ok (OpSetExited 3) ?n)"
  have n: "wait_inv ?n" "exit_pending ?n"
    by (simp_all add: wait_inv_def exit_pending_def)
  have p: "iWaitClosed ?p \<and> iStatus ?p = 3"
    using init_latch.first_exit [OF n, of env_ok 3] by simp
  have r: "reachable init_start init_step ?p"
    by (blast intro: reachable.intros init_step.call Init_New_start)
  have "init_step\<^sup>*\<^sup>* ?p (snd (init_apply env_ok (OpSetExited 9) ?p))"
    by (blast intro: init_step.call)
  from Init_exit_record_stable [OF r _ this] p show ?thesis
    by (simp add: Let_def Init_WaitReturns_def)
qed

text \<open>
  What \<open>Create\<close> does. It never panics. Without a checkpoint, success means that
  the runtime's create succeeded and that the process has the pid of its pid file; with a
  checkpoint nothing is sent to the runtime beyond the IO setup and the restore waits in
  the state. In every case the process stays in a created state with its exit record
  untouched.
\<close>

lemma Init_Create_outcome:
  assumes "iState p = CreatedState"
  shows "lc (snd (Init_Create E r p)) = LCreated \<and> iexit (snd (Init_Create E r p)) = iexit p \<and>
    (case fst (Init_Create E r p) of
       Panic _ \<Rightarrow> False
     | Fail _ \<Rightarrow> True
     | Ok _ \<Rightarrow>
         if ccCheckpoint r = []
         then rtReadPidFile E (newPidFile (iBundle p)) = Inr (iPid (snd (Init_Create E r p))) \<and>
              (\<exists>opts. coPidFile opts = newPidFile (iBundle p) \<and> rtCreate E (ccID r) (ccBundle r) opts = None \<and>
                 CallCreate (ccID r) (ccBundle r) opts \<in> set (iTrace (snd (Init_Create E r p))))
         else \<exists>opts. iState (snd (Init_Create E r p)) = CreatedCheckpointState opts \<and>
                roPidFile opts = newPidFile (iBundle p) \<and>
                ckoImagePath (roCheckpoint opts) = ccCheckpoint r)"
proof -
  have "lc p = LCreated" using assms by (simp add: lc_def)
  then have 1: "lc (snd (Init_Create E r p)) = LCreated" "iexit (snd (Init_Create E r p)) = iexit p"
    using Init_Create_keeps by auto
  have 2: "\<exists>opts. iState (snd (Init_createCheckpointedState r pf q)) = CreatedCheckpointState opts \<and>
      roPidFile opts = pf \<and> ckoImagePath (roCheckpoint opts) = ccCheckpoint r" for pf q
    by (auto simp: Init_createCheckpointedState_def Let_def)
  show ?thesis
    using 1 Init_Create_no_panic [of E r p] createFresh_ok [of E r "newPidFile (iBundle p)"] 2
    by (cases "fst (Init_Create E r p)")
      (auto simp: Init_Create_cases split: res.splits if_splits prod.splits)
qed


text \<open>
  \<open>Delete\<close> of a created or stopped process reports success and enters the deleted
  state even when the OCI runtime's own delete failed with an arbitrary error: the error
  is overwritten by the result of closing the runtime.
\<close>

lemma Init_Delete_loses_runtime_error:
  assumes "lc p = LCreated \<or> lc p = LStopped" and "rtDelete E (iId p) = Some err" and "rtClose E = None"
  shows "fst (Init_Delete E p) = Ok () \<and> iState (snd (Init_Delete E p)) = DeletedState"
  using assms
  by (cases "iState p") (auto simp: lc_def Init_Delete_def state_methods fst_and_then snd_and_then
      Init_delete_def Let_def res_of_err_def state_transitions)


text \<open>
  Deleting a process that was never started leaves its waiters blocked for ever: after
  a successful delete in a created state no later call closes the wait channel.
\<close>

lemma Init_created_delete_blocks_Wait:
  assumes "reachable init_start init_step p" and "lc p = LCreated"
    and "fst (Init_Delete E p) = Ok ()" and "init_step\<^sup>*\<^sup>* (snd (Init_Delete E p)) q"
  shows "\<not> Init_WaitReturns q"
proof -
  let ?d = "snd (Init_Delete E p)"
  have w: "\<not> iWaitClosed p"
    using init_life.reachable_inv [OF assms(1)] assms(2)
    by (auto simp: init_inv_def wait_inv_def lc_exit_pending)
  have d: "lc ?d = LDeleted \<and> iexit ?d = iexit p"
    using lc_sim_all [of OpDelete p E] assms(2,3) by (simp add: lc_sim_def iexit_Delete)
  from assms(4) have "lc q = LDeleted \<and> iexit q = iexit ?d"
  proof (induction rule: rtranclp_induct)
    case (step q q')
    from step.hyps(2) obtain F op where q': "q' = snd (init_apply F op q)"
      by (auto elim: init_stepE)
    show ?case
      using step.IH deleted_stays [of q F op] unfolding q' by simp
  qed (simp add: d)
  with d w show ?thesis by (simp add: iexit_def Init_WaitReturns_def)
qed


text \<open>
  Pid files. Two exec processes of one bundle share a pid file only when they have the
  same id; but the exec id \<open>init\<close> names the pid file of the container's own init process,
  and it is the only exec id that does.
\<close>

lemma pid_file_collisions:
  assumes "CHR ''/'' \<notin> set e1" and "CHR ''/'' \<notin> set e2"
  shows "(newExecPidFile b e1 = newExecPidFile b e2 \<longleftrightarrow> e1 = e2) \<and>
    (newExecPidFile b e1 = newPidFile b \<longleftrightarrow> e1 = ''init'')"
proof -
  have plain: "plain_name (e @ ''.pid'')" if "CHR ''/'' \<notin> set e" for e
    using that by (auto simp: plain_name_def append_eq_Cons_conv)
  have init: "InitPidFile = ''init'' @ ''.pid''" by (simp add: InitPidFile_def)
  have "newExecPidFile b e = newExecPidFile b f \<longleftrightarrow> e = f"
    if "CHR ''/'' \<notin> set e" "CHR ''/'' \<notin> set f" for e f
    using filepath_Join_plain_inj [OF plain [OF that(1)] plain [OF that(2)]]
    unfolding newExecPidFile_def by auto
  from this [OF assms] this [OF assms(1), of "''init''"] show ?thesis
    unfolding newPidFile_def init newExecPidFile_def by simp
qed


text \<open>
  How a failed kill is classified. A nil error stays nil; otherwise the caller sees
  not-found exactly when the runtime says that the process or the container is gone (or its
  error already was one), and every other error is passed on.
\<close>

lemma checkKillError_classifies:
  "case err of
     None \<Rightarrow> checkKillError err = None
   | Some e \<Rightarrow> (\<exists>g. checkKillError err = Some g \<and>
       (err_is g ErrNotFound \<longleftrightarrow>
          str_contains (ext_text e) ''os: process already finished'' \<or>
          str_contains (ext_text e) ''container not running'' \<or>
          str_contains (to_lower (ext_text e)) ''no such process'' \<or> ext_is_ESRCH e \<or>
          str_contains (ext_text e) ''does not exist'' \<or> ErrNotFound \<in> set (ext_wraps e)))"
  by (simp add: checkKillError_def split: option.split)

end
