(* ===== verification/ExecProcess.thy ===== *)
theory ExecProcess
  imports InitProcess
begin

text \<open>
  The exec processes of a container (\<open>process/exec.go\<close>, \<open>process/exec_state.go\<close>,
  \<open>process/deleted_state.go\<close>) and their creation by the init process (\<open>Init.Exec\<close>). As for the
  init process, every method holds the process mutex throughout. The parent is read only
  for its id and its IO owner, which never change, and for its status.
\<close>

section \<open>Data\<close>

datatype exec_state = ExecCreated | ExecRunning | ExecStopped | ExecDeleted

record exec =
  eState :: exec_state
  eId :: string
  eConsole :: "handle option"
  eIO :: "process_io option"
  eStatus :: int
  eExited :: "int option"
  ePid :: int
  eClosers :: "handle list"
  eStdin :: "handle option"
  eStdio :: stdio
  ePath :: string
  eSpec :: proc_spec
  eWaitClosed :: bool
  eTrace :: "effect list"

definition eemit :: "effect list \<Rightarrow> exec \<Rightarrow> exec" where
  "eemit fx e = e\<lparr>eTrace := eTrace e @ fx\<rparr>"

section \<open>Creation\<close>

definition Init_exec :: "string \<Rightarrow> exec_config \<Rightarrow> init \<Rightarrow> exec res" where
  "Init_exec path r p =
     (case ecSpec r of
        None \<Rightarrow> Fail (ErrNew ''spec is nil'')
      | Some spec \<Rightarrow>
          Ok \<lparr>eState = ExecCreated, eId = ecID r, eConsole = None, eIO = None, eStatus = 0,
              eExited = None, ePid = 0, eClosers = [], eStdin = None,
              eStdio = \<lparr>Stdin = ecStdin r, Stdout = ecStdout r, Stderr = ecStderr r,
                        Terminal = ecTerminal r\<rparr>,
              ePath = path, eSpec = spec\<lparr>specTerminal := ecTerminal r\<rparr>,
              eWaitClosed = False, eTrace = []\<rparr>)"

definition Init_Exec :: "string \<Rightarrow> exec_config \<Rightarrow> init \<Rightarrow> exec res" where
  "Init_Exec path r p =
     wrap_err ''executing init process: ''
       (case iState p of
          CreatedState \<Rightarrow> Init_exec path r p
        | CreatedCheckpointState _ \<Rightarrow> Fail (ErrNew ''cannot exec in a created state'')
        | RunningState \<Rightarrow> Init_exec path r p
        | PausedState \<Rightarrow> Fail (ErrNew ''cannot exec in a paused state'')
        | StoppedState \<Rightarrow> Fail (ErrNew ''cannot exec in a stopped state'')
        | DeletedState \<Rightarrow> Fail (ErrNew ''cannot exec in a deleted state''))"

section \<open>Operations shared by the states\<close>

definition exec_setExited :: "env \<Rightarrow> int \<Rightarrow> exec \<Rightarrow> unit res \<times> exec" where
  "exec_setExited E st e =
     (let e1 = eemit [DoShutdownConsole (eConsole e)]
                 (e\<lparr>eStatus := st, eExited := Some (timeNow E)\<rparr>)
      in if eWaitClosed e1 then (Panic ''close of closed channel'', e1)
         else (Ok (), eemit [DoCloseWaitBlock] (e1\<lparr>eWaitClosed := True\<rparr>)))"

text \<open>The bounded wait for the IO copies has no effect on the process.\<close>

definition exec_delete :: "exec \<Rightarrow> unit res \<times> exec" where
  "exec_delete e =
     (let e1 = (case eIO e of
                  Some pio \<Rightarrow> eemit (map DoClose (eClosers e) @ processIO_Close pio) e
                | None \<Rightarrow> e)
      in (Ok (), eemit [DoRemove (filepath_Join [ePath e, eId e @ ''.pid''])] e1))"

definition exec_resize :: "env \<Rightarrow> 16 word \<Rightarrow> 16 word \<Rightarrow> exec \<Rightarrow> unit res \<times> exec" where
  "exec_resize E w h e =
     (case eConsole e of
        None \<Rightarrow> (Ok (), e)
      | Some c \<Rightarrow> (of_opt (ConsoleResize E c w h), eemit [DoResizeConsole c] e))"

definition exec_kill :: "env \<Rightarrow> 32 word \<Rightarrow> exec \<Rightarrow> unit res \<times> exec" where
  "exec_kill E sig e =
     (if ePid e = 0
      then (Fail (Wrapf ''process not created: '' (Sentinel ErrFailedPrecondition)), e)
      else if eExited e \<noteq> None
      then (Fail (Wrapf ''process already finished: '' (Sentinel ErrNotFound)), e)
      else (case checkKillError (unixKill E (ePid e) (uint sig)) of
              None \<Rightarrow> Ok ()
            | Some g \<Rightarrow> Fail (Wrapf ''exec kill error: '' g),
            eemit [CallUnixKill (ePid e) (uint sig)] e))"

definition exec_openStdin :: "env \<Rightarrow> string \<Rightarrow> exec \<Rightarrow> unit res \<times> exec" where
  "exec_openStdin E path e =
     (case OpenFifo E path FifoWriteNonblock of
        Inl x \<Rightarrow> (Fail (Wrapf ''failed to open stdin fifo: '' (Ext x)),
                  eemit [DoOpenFifo path FifoWriteNonblock] e)
      | Inr sc \<Rightarrow> (Ok (), eemit [DoOpenFifo path FifoWriteNonblock]
                    (e\<lparr>eStdin := Some sc, eClosers := eClosers e @ [sc]\<rparr>)))"

definition exec_openIO :: "env \<Rightarrow> init \<Rightarrow> exec \<Rightarrow> handle option res \<times> exec" where
  "exec_openIO E parent e =
     (if Terminal (eStdio e) then
        (case NewTempConsoleSocket E of
           Inl x \<Rightarrow> (Fail (Wrapf ''failed to create runc console socket: '' (Ext x)),
                     eemit [CallNewTempConsoleSocket] e)
         | Inr s \<Rightarrow> (Ok (Some s), eemit [CallNewTempConsoleSocket] (e\<lparr>eClosers := eClosers e @ [s]\<rparr>)))
      else
        (case createIO E (iIoUID parent) (iIoGID parent) (eStdio e) of
           (Ok pio, fx) \<Rightarrow> (Ok None, eemit fx (e\<lparr>eIO := Some pio\<rparr>))
         | (Fail x, fx) \<Rightarrow> (Fail (Wrapf ''failed to create init process I/O: '' x), eemit fx e)
         | (Panic m, fx) \<Rightarrow> (Panic m, eemit fx e)))"

text \<open>Without a terminal the IO just created is the process's IO.\<close>

definition exec_attach :: "env \<Rightarrow> handle option \<Rightarrow> exec \<Rightarrow> unit res \<times> exec" where
  "exec_attach E socket e =
     (case socket of
        Some s \<Rightarrow>
          (case ReceiveMaster E s of
             Inl x \<Rightarrow> (Fail (Wrapf ''failed to retrieve console master: '' (Ext x)),
                       eemit [DoReceiveMaster s] e)
           | Inr c0 \<Rightarrow>
               (case CopyConsole E c0 (eId e) (eStdio e) of
                  Inl x \<Rightarrow> (Fail (Wrapf ''failed to start console copy: '' (Ext x)),
                            eemit [DoReceiveMaster s, DoCopyConsole c0] e)
                | Inr c \<Rightarrow> (Ok (), eemit [DoReceiveMaster s, DoCopyConsole c0] (e\<lparr>eConsole := Some c\<rparr>))))
      | None \<Rightarrow>
          (case eIO e of
             Some pio \<Rightarrow> wrapping ''failed to start io pipe copy: ''
                           (processIO_Copy E pio, eemit [DoStartCopy] e)
           | None \<Rightarrow> (Panic ''nil pointer dereference'', e)))"

text \<open>The runtime call: on failure the wait channel is closed before the error returns.\<close>

definition exec_run :: "env \<Rightarrow> init \<Rightarrow> exec_opts \<Rightarrow> exec \<Rightarrow> unit res \<times> exec" where
  "exec_run E parent opts e =
     (let e1 = eemit [CallExec (iId parent) (eSpec e) opts] e in
      case rtExec E (iId parent) (eSpec e) opts of
        Some x \<Rightarrow>
          if eWaitClosed e1 then (Panic ''close of closed channel'', e1)
          else (Fail (Wrapf ''OCI runtime exec failed: '' (Ext x)),
                eemit [DoCloseWaitBlock] (e1\<lparr>eWaitClosed := True\<rparr>))
      | None \<Rightarrow>
          (case rtReadPidFile E (eoPidFile opts) of
             Inl x \<Rightarrow> (Fail (Wrapf ''failed to retrieve OCI runtime exec pid: '' (Ext x)),
                       eemit [CallReadPidFile (eoPidFile opts)] e1)
           | Inr pid \<Rightarrow> (Ok (), eemit [CallReadPidFile (eoPidFile opts)] (e1\<lparr>ePid := pid\<rparr>))))"

definition exec_start :: "env \<Rightarrow> init \<Rightarrow> exec \<Rightarrow> unit res \<times> exec" where
  "exec_start E parent e =
     and_then (exec_openIO E parent e)
       (\<lambda>socket e.
          let opts = \<lparr>eoPidFile = newExecPidFile (ePath e) (eId e), eoDetach = True,
                      eoIO = (if socket = None
                              then (case eIO e of Some pio \<Rightarrow> pioIO pio | None \<Rightarrow> None) else None),
                      eoConsoleSocket = socket\<rparr>
          in and_then (if Stdin (eStdio e) \<noteq> [] then exec_openStdin E (Stdin (eStdio e)) e
                       else (Ok (), e))
             (\<lambda>_ e. and_then (exec_attach E socket e)
             (\<lambda>_ e. exec_run E parent opts e)))"

section \<open>The states\<close>

definition execCreatedState_transition :: "string \<Rightarrow> exec \<Rightarrow> unit res \<times> exec" where
  "execCreatedState_transition name e =
     (if name = ''running'' then (Ok (), e\<lparr>eState := ExecRunning\<rparr>)
      else if name = ''stopped'' then (Ok (), e\<lparr>eState := ExecStopped\<rparr>)
      else if name = ''deleted'' then (Ok (), e\<lparr>eState := ExecDeleted\<rparr>)
      else (Fail (ErrNew ''transitioning state from created''), e))"

text \<open>\<open>Start\<close> recovers from a panic; its unnamed result is then nil.\<close>

definition recovered :: "unit res \<times> 's \<Rightarrow> unit res \<times> 's" where
  "recovered x = (case fst x of Panic _ \<Rightarrow> (Ok (), snd x) | _ \<Rightarrow> x)"

definition execCreatedState_Start :: "env \<Rightarrow> init \<Rightarrow> exec \<Rightarrow> unit res \<times> exec" where
  "execCreatedState_Start E parent e =
     recovered (and_then (exec_start E parent e) (\<lambda>_. execCreatedState_transition ''running''))"

definition execCreatedState_Delete :: "exec \<Rightarrow> unit res \<times> exec" where
  "execCreatedState_Delete e = and_then (exec_delete e) (\<lambda>_. execCreatedState_transition ''deleted'')"

definition execCreatedState_SetExited :: "env \<Rightarrow> int \<Rightarrow> exec \<Rightarrow> unit res \<times> exec" where
  "execCreatedState_SetExited E st e =
     and_then (exec_setExited E st e) (\<lambda>_ e. or_panic (execCreatedState_transition ''stopped'' e))"

definition execRunningState_transition :: "string \<Rightarrow> exec \<Rightarrow> unit res \<times> exec" where
  "execRunningState_transition name e =
     (if name = ''stopped'' then (Ok (), e\<lparr>eState := ExecStopped\<rparr>)
      else (Fail (ErrNew ''transitioning state from running''), e))"

definition execRunningState_SetExited :: "env \<Rightarrow> int \<Rightarrow> exec \<Rightarrow> unit res \<times> exec" where
  "execRunningState_SetExited E st e =
     and_then (exec_setExited E st e) (\<lambda>_ e. or_panic (execRunningState_transition ''stopped'' e))"

text \<open>The name of a stopped exec process is not known to \<open>stateName\<close>, which panics.\<close>

definition execStoppedState_transition :: "string \<Rightarrow> exec \<Rightarrow> unit res \<times> exec" where
  "execStoppedState_transition name e =
     (if name = ''deleted'' then (Ok (), e\<lparr>eState := ExecDeleted\<rparr>)
      else (Panic ''determining state name for invalid state'', e))"

definition execStoppedState_Delete :: "exec \<Rightarrow> unit res \<times> exec" where
  "execStoppedState_Delete e = and_then (exec_delete e) (\<lambda>_. execStoppedState_transition ''deleted'')"

section \<open>The exported methods\<close>

definition exec_Start :: "env \<Rightarrow> init \<Rightarrow> exec \<Rightarrow> unit res \<times> exec" where
  "exec_Start E parent e =
     (case eState e of
        ExecCreated \<Rightarrow> execCreatedState_Start E parent e
      | ExecRunning \<Rightarrow> (Fail (ErrNew ''cannot start a running process''), e)
      | ExecStopped \<Rightarrow> (Fail (ErrNew ''cannot start a stopped process''), e)
      | ExecDeleted \<Rightarrow> (Fail (ErrNew ''cannot start a deleted process''), e))"

definition exec_Delete :: "exec \<Rightarrow> unit res \<times> exec" where
  "exec_Delete e =
     (case eState e of
        ExecCreated \<Rightarrow> execCreatedState_Delete e
      | ExecRunning \<Rightarrow> (Fail (ErrNew ''cannot delete a running process''), e)
      | ExecStopped \<Rightarrow> execStoppedState_Delete e
      | ExecDeleted \<Rightarrow>
          (Fail (Wrapf ''deleting already deleted process: '' (Sentinel ErrNotFound)), e))"

definition exec_Resize :: "env \<Rightarrow> 16 word \<Rightarrow> 16 word \<Rightarrow> exec \<Rightarrow> unit res \<times> exec" where
  "exec_Resize E w h e =
     (case eState e of
        ExecCreated \<Rightarrow> exec_resize E w h e
      | ExecRunning \<Rightarrow> exec_resize E w h e
      | ExecStopped \<Rightarrow> (Fail (ErrNew ''cannot resize a stopped container''), e)
      | ExecDeleted \<Rightarrow> (Fail (ErrNew ''cannot resize a deleted process''), e))"

text \<open>The \<open>all\<close> flag of the request is ignored.\<close>

definition exec_Kill :: "env \<Rightarrow> 32 word \<Rightarrow> bool \<Rightarrow> exec \<Rightarrow> unit res \<times> exec" where
  "exec_Kill E sig all e =
     (case eState e of
        ExecDeleted \<Rightarrow> (Fail (Wrapf ''killing deleted process: '' (Sentinel ErrNotFound)), e)
      | _ \<Rightarrow> exec_kill E sig e)"

definition exec_SetExited :: "env \<Rightarrow> int \<Rightarrow> exec \<Rightarrow> unit res \<times> exec" where
  "exec_SetExited E st e =
     (case eState e of
        ExecCreated \<Rightarrow> execCreatedState_SetExited E st e
      | ExecRunning \<Rightarrow> execRunningState_SetExited E st e
      | ExecStopped \<Rightarrow> (Ok (), e)
      | ExecDeleted \<Rightarrow> (Ok (), e))"

definition execState_Status :: "exec_state \<Rightarrow> string" where
  "execState_Status s =
     (case s of
        ExecCreated \<Rightarrow> ''created''
      | ExecRunning \<Rightarrow> ''running''
      | ExecStopped \<Rightarrow> ''stopped''
      | ExecDeleted \<Rightarrow> ''stopped'')"

definition exec_Status :: "init \<Rightarrow> exec \<Rightarrow> string" where
  "exec_Status parent e =
     (let s = Init_Status parent in
      if s = ''paused'' \<or> s = ''pausing'' then s else execState_Status (eState e))"

definition exec_CloseIO :: "exec \<Rightarrow> exec" where
  "exec_CloseIO e = (case eIO e of Some pio \<Rightarrow> eemit (processIO_Close pio) e | None \<Rightarrow> e)"

definition exec_WaitReturns :: "exec \<Rightarrow> bool" where
  "exec_WaitReturns e = eWaitClosed e"

text \<open>\<open>stateName\<close> over the states of both kinds of process.\<close>

definition stateName :: "init_state + exec_state \<Rightarrow> string res" where
  "stateName v =
     (case v of
        Inl RunningState \<Rightarrow> Ok ''running''
      | Inr ExecRunning \<Rightarrow> Ok ''running''
      | Inl CreatedState \<Rightarrow> Ok ''created''
      | Inr ExecCreated \<Rightarrow> Ok ''created''
      | Inl (CreatedCheckpointState _) \<Rightarrow> Ok ''created''
      | Inl PausedState \<Rightarrow> Ok ''paused''
      | Inl DeletedState \<Rightarrow> Ok ''deleted''
      | Inr ExecDeleted \<Rightarrow> Ok ''deleted''
      | Inl StoppedState \<Rightarrow> Ok ''stopped''
      | Inr ExecStopped \<Rightarrow> Panic ''determining state name for invalid state'')"

section \<open>Operations and the abstract life cycle\<close>

datatype exec_op =
    XStart | XDelete | XKill "32 word" bool | XSetExited int | XResize "16 word" "16 word" | XCloseIO

fun exec_apply :: "env \<Rightarrow> init \<Rightarrow> exec_op \<Rightarrow> exec \<Rightarrow> unit res \<times> exec" where
  "exec_apply E parent XStart e = exec_Start E parent e"
| "exec_apply E parent XDelete e = exec_Delete e"
| "exec_apply E parent (XKill sig all) e = exec_Kill E sig all e"
| "exec_apply E parent (XSetExited st) e = exec_SetExited E st e"
| "exec_apply E parent (XResize w h) e = exec_Resize E w h e"
| "exec_apply E parent XCloseIO e = (Ok (), exec_CloseIO e)"

text \<open>Where each operation is allowed, and where it leads.\<close>

fun exec_next :: "exec_op \<Rightarrow> exec_state \<Rightarrow> exec_state option" where
  "exec_next XStart s = (if s = ExecCreated then Some ExecRunning else None)"
| "exec_next XDelete s = (if s = ExecCreated \<or> s = ExecStopped then Some ExecDeleted else None)"
| "exec_next (XKill _ _) s = (if s = ExecDeleted then None else Some s)"
| "exec_next (XSetExited _) s = (if s = ExecDeleted then Some ExecDeleted else Some ExecStopped)"
| "exec_next (XResize _ _) s = (if s = ExecCreated \<or> s = ExecRunning then Some s else None)"
| "exec_next XCloseIO s = Some s"

text \<open>A process that has not ended, and one whose wait channel is then still open.\<close>

definition exec_pending :: "exec \<Rightarrow> bool" where
  "exec_pending e \<longleftrightarrow> eState e = ExecCreated \<or> eState e = ExecRunning"

definition exec_sound :: "exec \<Rightarrow> bool" where
  "exec_sound e \<longleftrightarrow> (exec_pending e \<longrightarrow> \<not> eWaitClosed e)"

text \<open>The terminal exec that concrete runs use, as \<open>Init_exec\<close> makes it.\<close>

definition tty_exec_request :: exec_config where
  "tty_exec_request = \<lparr>ecID = ''sh'', ecTerminal = True, ecStdin = [], ecStdout = ''/out'', ecStderr = [],
     ecSpec = Some \<lparr>specTerminal = False, specArgs = [''sh'']\<rparr>\<rparr>"

definition tty_exec :: exec where
  "tty_exec = (case Init_exec ''/b'' tty_exec_request (Init_New ''c1'' no_streams) of Ok e \<Rightarrow> e)"

section \<open>Frame facts\<close>

lemma eemit_simps [simp]:
  "eState (eemit fx e) = eState e" "eWaitClosed (eemit fx e) = eWaitClosed e"
  "eExited (eemit fx e) = eExited e" "eStatus (eemit fx e) = eStatus e"
  "eId (eemit fx e) = eId e" "ePid (eemit fx e) = ePid e" "eIO (eemit fx e) = eIO e"
  "eStdio (eemit fx e) = eStdio e" "eSpec (eemit fx e) = eSpec e" "ePath (eemit fx e) = ePath e"
  "eTrace (eemit fx e) = eTrace e @ fx"
  by (simp_all add: eemit_def)

definition ecore :: "exec \<Rightarrow> exec_state \<times> bool \<times> int option \<times> int" where
  "ecore e = (eState e, eWaitClosed e, eExited e, eStatus e)"

lemma ecore_eqD:
  assumes "ecore e = ecore f"
  shows "eState e = eState f" "eWaitClosed e = eWaitClosed f" "eExited e = eExited f"
    "eStatus e = eStatus f"
  using assms by (simp_all add: ecore_def)

lemma ecore_updates [simp]:
  "ecore (eemit fx e) = ecore e" "ecore (e\<lparr>eStdin := x\<rparr>) = ecore e"
  "ecore (e\<lparr>eClosers := c\<rparr>) = ecore e" "ecore (e\<lparr>eConsole := y\<rparr>) = ecore e"
  "ecore (e\<lparr>ePid := n\<rparr>) = ecore e" "ecore (e\<lparr>eIO := z\<rparr>) = ecore e"
  by (simp_all add: ecore_def)

lemma ecore_helpers [frame_simps]:
  "ecore (snd (exec_delete e)) = ecore e"
  "ecore (snd (exec_resize E w h e)) = ecore e"
  "ecore (snd (exec_kill E sig e)) = ecore e"
  "ecore (snd (exec_openStdin E path e)) = ecore e"
  "ecore (snd (exec_openIO E parent e)) = ecore e"
  "ecore (snd (exec_attach E socket e)) = ecore e"
  "ecore (exec_CloseIO e) = ecore e"
  by (simp_all add: exec_delete_def exec_resize_def exec_kill_def exec_openStdin_def
      exec_openIO_def exec_attach_def exec_CloseIO_def Let_def
      split: sum.split option.split prod.split res.split)

lemmas eState_helpers [frame_simps] = ecore_helpers [THEN ecore_eqD(1)]
lemmas eWait_helpers [frame_simps] = ecore_helpers [THEN ecore_eqD(2)]

lemma eIO_openStdin [frame_simps]: "eIO (snd (exec_openStdin E path e)) = eIO e"
  by (simp add: exec_openStdin_def split: sum.split)

lemma exec_helpers_no_panic:
  "\<not> is_panic (fst (exec_delete e))" "\<not> is_panic (fst (exec_resize E w h e))"
  "\<not> is_panic (fst (exec_kill E sig e))" "\<not> is_panic (fst (exec_openStdin E path e))"
  by (simp_all add: exec_delete_def exec_resize_def exec_kill_def exec_openStdin_def Let_def
      split: sum.split option.split)

lemma createIO_not_panic: "\<not> is_panic (fst (createIO E uid gid st))"
  by (simp add: is_panic_def createIO_no_panic split: res.split)

lemma exec_openIO_no_panic: "\<not> is_panic (fst (exec_openIO E parent e))"
  using createIO_not_panic [of E "iIoUID parent" "iIoGID parent" "eStdio e"]
  by (auto simp: exec_openIO_def split: sum.split prod.split res.split)

lemma exec_openIO_io:
  "fst (exec_openIO E parent e) = Ok socket \<Longrightarrow> socket \<noteq> None \<or> eIO (snd (exec_openIO E parent e)) \<noteq> None"
  by (auto simp: exec_openIO_def split: if_splits sum.splits prod.splits res.splits)

lemma exec_attach_no_panic:
  "socket \<noteq> None \<or> eIO e \<noteq> None \<Longrightarrow> \<not> is_panic (fst (exec_attach E socket e))"
  by (auto simp: exec_attach_def processIO_Copy_no_panic is_panic_def wrap_err_def
      split: sum.split option.split res.split)

lemma exec_run_state [frame_simps]: "eState (snd (exec_run E parent opts e)) = eState e"
  by (simp add: exec_run_def Let_def split: option.split sum.split)

lemma exec_run_panic:
  "is_panic (fst (exec_run E parent opts e)) \<longleftrightarrow>
     eWaitClosed e \<and> rtExec E (iId parent) (eSpec e) opts \<noteq> None"
  by (auto simp: exec_run_def Let_def split: option.split sum.split)

lemma exec_run_ok_wait:
  "fst (exec_run E parent opts e) = Ok () \<Longrightarrow> eWaitClosed (snd (exec_run E parent opts e)) = eWaitClosed e"
  by (auto simp: exec_run_def Let_def split: option.splits sum.splits if_splits)

lemma exec_start_state [frame_simps]: "eState (snd (exec_start E parent e)) = eState e"
  by (auto simp: exec_start_def snd_and_then Let_def frame_simps split: res.split)

lemma exec_start_panic: "is_panic (fst (exec_start E parent e)) \<Longrightarrow> eWaitClosed e"
  using exec_openIO_no_panic [of E parent e] exec_openIO_io [of E parent e]
  by (auto simp: exec_start_def is_panic_and_then Let_def frame_simps exec_run_panic
      exec_helpers_no_panic exec_attach_no_panic split: if_splits)

lemma exec_start_ok_wait:
  "fst (exec_start E parent e) = Ok () \<Longrightarrow> eWaitClosed (snd (exec_start E parent e)) = eWaitClosed e"
  unfolding exec_start_def Let_def
  by (elim and_then_OkE) (simp add: frame_simps exec_run_ok_wait split: if_splits)

lemmas exec_transitions =
  execCreatedState_transition_def execRunningState_transition_def execStoppedState_transition_def

lemmas exec_methods =
  execCreatedState_Delete_def execStoppedState_Delete_def
  execCreatedState_SetExited_def execRunningState_SetExited_def

section \<open>The exit latch\<close>

lemma exec_or_panic:
  "or_panic (execCreatedState_transition ''stopped'' e) = (Ok (), e\<lparr>eState := ExecStopped\<rparr>)"
  "or_panic (execRunningState_transition ''stopped'' e) = (Ok (), e\<lparr>eState := ExecStopped\<rparr>)"
  by (simp_all add: or_panic_def exec_transitions)

lemma exec_SetExited_pending:
  assumes "exec_pending e" "\<not> eWaitClosed e"
  shows "fst (exec_SetExited E st e) = Ok () \<and>
    ecore (snd (exec_SetExited E st e)) = (ExecStopped, True, Some (timeNow E), st)"
  using assms
  by (auto simp: exec_pending_def exec_SetExited_def exec_methods exec_setExited_def
      exec_or_panic ecore_def Let_def)

lemma exec_SetExited_ended: "\<not> exec_pending e \<Longrightarrow> exec_SetExited E st e = (Ok (), e)"
  by (cases "eState e") (simp_all add: exec_pending_def exec_SetExited_def)

lemma exec_SetExited_closed:
  "exec_pending e \<Longrightarrow> eWaitClosed e \<Longrightarrow>
     is_panic (fst (exec_SetExited E st e)) \<and> eState (snd (exec_SetExited E st e)) = eState e"
  by (auto simp: exec_pending_def exec_SetExited_def exec_methods exec_setExited_def Let_def)

interpretation exec_latch: exit_latch exec_SetExited eWaitClosed "\<lambda>e. (eExited e, eStatus e)"
  exec_pending exec_sound
proof
  fix e E st
  assume "exec_sound e" "exec_pending e"
  then show "fst (exec_SetExited E st e) = Ok () \<and> eWaitClosed (snd (exec_SetExited E st e)) \<and>
      (eExited (snd (exec_SetExited E st e)), eStatus (snd (exec_SetExited E st e)))
        = (Some (timeNow E), st) \<and> \<not> exec_pending (snd (exec_SetExited E st e))"
    using exec_SetExited_pending [of e E st]
    by (auto simp: exec_sound_def ecore_def exec_pending_def)
qed (rule exec_SetExited_ended)

section \<open>Simulation\<close>

lemma exec_Delete_simps:
  "exec_pending e \<Longrightarrow> eState e = ExecCreated \<Longrightarrow> fst (exec_Delete e) = Ok () \<and> eState (snd (exec_Delete e)) = ExecDeleted"
  "eState e = ExecStopped \<Longrightarrow> fst (exec_Delete e) = Ok () \<and> eState (snd (exec_Delete e)) = ExecDeleted"
  by (simp_all add: exec_Delete_def exec_methods exec_delete_def exec_transitions Let_def)

lemma exec_sim_Start:
  assumes "exec_sound e"
  shows "if is_ok (fst (exec_Start E parent e))
    then exec_next XStart (eState e) = Some (eState (snd (exec_Start E parent e)))
    else eState (snd (exec_Start E parent e)) = eState e \<and> \<not> is_panic (fst (exec_Start E parent e))"
proof (cases "eState e = ExecCreated")
  case True
  then have "\<not> is_panic (fst (exec_start E parent e))"
    using assms exec_start_panic by (auto simp: exec_sound_def exec_pending_def)
  with True show ?thesis
    by (auto simp: exec_Start_def execCreatedState_Start_def recovered_def fst_and_then snd_and_then
        execCreatedState_transition_def frame_simps split: res.split)
next
  case False
  then show ?thesis by (cases "eState e") (simp_all add: exec_Start_def)
qed

lemma exec_sim:
  assumes "exec_sound e"
  shows "if is_ok (fst (exec_apply E parent op e))
    then exec_next op (eState e) = Some (eState (snd (exec_apply E parent op e)))
    else eState (snd (exec_apply E parent op e)) = eState e \<and>
         \<not> is_panic (fst (exec_apply E parent op e))"
proof (cases op)
  case XStart
  show ?thesis using exec_sim_Start [OF assms, of E parent] unfolding XStart exec_apply.simps .
next
  case XDelete
  then show ?thesis
    using exec_Delete_simps [of e]
    by (cases "eState e") (auto simp: exec_pending_def exec_Delete_def)
next
  case (XKill sig all)
  then show ?thesis
    using exec_helpers_no_panic(3) [of E sig e]
    by (cases "eState e") (auto simp: exec_Kill_def frame_simps)
next
  case (XSetExited st)
  then show ?thesis
    using assms exec_SetExited_pending [of e E st] exec_SetExited_ended [of e E st]
    by (cases "eState e") (auto simp: exec_sound_def exec_pending_def ecore_def)
next
  case (XResize w h)
  then show ?thesis
    using exec_helpers_no_panic(2) [of E w h e]
    by (cases "eState e") (auto simp: exec_Resize_def frame_simps)
next
  case XCloseIO
  then show ?thesis by (simp add: frame_simps)
qed

text \<open>The wait channel: only a failed start spoils the invariant.\<close>

lemma exec_wait_unchanged:
  assumes "\<And>st. op \<noteq> XSetExited st" "op \<noteq> XStart"
  shows "ecore (snd (exec_apply E parent op e)) = ecore e \<or>
    eState (snd (exec_apply E parent op e)) = ExecDeleted"
  using assms
  by (cases op; cases "eState e")
    (auto simp: exec_Kill_def exec_Resize_def exec_Delete_def exec_methods snd_and_then
      exec_delete_def exec_transitions Let_def frame_simps)

lemma exec_sound_step:
  assumes "exec_sound e" "op = XStart \<Longrightarrow> is_ok (fst (exec_Start E parent e)) \<or> eState e \<noteq> ExecCreated"
  shows "exec_sound (snd (exec_apply E parent op e))"
proof (cases "op = XStart \<or> (\<exists>st. op = XSetExited st)")
  case False
  then show ?thesis
    using exec_wait_unchanged [of op E parent e] assms(1)
    by (auto simp: exec_sound_def exec_pending_def ecore_def)
next
  case True
  then show ?thesis
  proof (elim disjE exE)
    fix st assume "op = XSetExited st"
    then show ?thesis
      using assms(1) exec_latch.first_exit [of e E st] exec_latch.later_exit [of e E st]
      by (cases "exec_pending e") (auto simp: exec_sound_def)
  next
    assume op: "op = XStart"
    show ?thesis
    proof (cases "eState e = ExecCreated")
      case True
      then have "\<not> is_panic (fst (exec_start E parent e))"
        using assms exec_start_panic by (auto simp: exec_sound_def exec_pending_def)
      with True op assms show ?thesis
        by (auto simp: exec_Start_def execCreatedState_Start_def recovered_def fst_and_then
            snd_and_then execCreatedState_transition_def exec_sound_def exec_pending_def
            exec_start_ok_wait split: res.splits)
    next
      case False
      then show ?thesis using op assms(1) by (cases "eState e") (simp_all add: exec_Start_def)
    qed
  qed
qed

text \<open>The id of an exec process never changes.\<close>

lemma eId_helpers [frame_simps]:
  "eId (snd (exec_delete e)) = eId e" "eId (snd (exec_resize E w h e)) = eId e"
  "eId (snd (exec_kill E sig e)) = eId e" "eId (snd (exec_openStdin E path e)) = eId e"
  "eId (snd (exec_openIO E parent e)) = eId e" "eId (snd (exec_attach E socket e)) = eId e"
  "eId (exec_CloseIO e) = eId e" "eId (snd (exec_run E parent opts e)) = eId e"
  "eId (snd (exec_setExited E st e)) = eId e"
  by (simp_all add: exec_delete_def exec_resize_def exec_kill_def exec_openStdin_def
      exec_openIO_def exec_attach_def exec_CloseIO_def exec_run_def exec_setExited_def Let_def
      split: sum.split option.split prod.split res.split)

lemma exec_start_eId [frame_simps]: "eId (snd (exec_start E parent e)) = eId e"
  by (auto simp: exec_start_def snd_and_then Let_def frame_simps split: res.split)

lemma exec_apply_eId: "eId (snd (exec_apply E parent op e)) = eId e"
  by (cases op; cases "eState e")
    (auto simp: exec_Start_def execCreatedState_Start_def recovered_def exec_Delete_def
      exec_Kill_def exec_SetExited_def exec_Resize_def exec_methods exec_transitions or_panic_def
      snd_and_then frame_simps split: res.split)

section \<open>Properties\<close>

lemma tty_exec_fields [simp]:
  "eState tty_exec = ExecCreated" "\<not> eWaitClosed tty_exec" "eExited tty_exec = None"
  "eIO tty_exec = None" "ePid tty_exec = 0" "Terminal (eStdio tty_exec)" "Stdin (eStdio tty_exec) = []"
  by (simp_all add: tty_exec_def Init_exec_def tty_exec_request_def)

text \<open>
  C15: An exec process whose wait channel is open while it has not ended follows its life
  cycle: a method that returns no error moves it to the state named for that method, a
  method that fails leaves the state alone, no method panics, and every method but a
  failing \<open>Start\<close> keeps the channel open until the exit.
\<close>

theorem exec_simulates_lifecycle:
  assumes "exec_sound e"
  shows "(if is_ok (fst (exec_apply E parent op e))
      then exec_next op (eState e) = Some (eState (snd (exec_apply E parent op e)))
      else eState (snd (exec_apply E parent op e)) = eState e \<and>
           \<not> is_panic (fst (exec_apply E parent op e))) \<and>
    ((op = XStart \<longrightarrow> is_ok (fst (exec_Start E parent e)) \<or> eState e \<noteq> ExecCreated) \<longrightarrow>
      exec_sound (snd (exec_apply E parent op e)))"
  using exec_sim [OF assms, of E parent op] exec_sound_step [OF assms, of op E parent] by blast

theorem exec_simulates_lifecycle_witness:
  "exec_sound tty_exec \<and>
   eState (snd (exec_apply env_ok (Init_New ''c1'' no_streams) (XSetExited 7) tty_exec)) = ExecStopped"
proof -
  have s: "exec_sound tty_exec" by (simp add: exec_sound_def)
  have "is_ok (fst (exec_SetExited env_ok 7 tty_exec))"
    by (simp add: exec_latch.exit_never_panics [OF s])
  with exec_simulates_lifecycle [OF s, of env_ok "Init_New ''c1'' no_streams" "XSetExited 7"] s
  show ?thesis by simp
qed

text \<open>
  A signal is sent to an operating-system process only through a live exec: \<open>Kill\<close>
  signals exactly the recorded pid, which is not 0, of a process that has not ended and is
  not deleted; otherwise it sends nothing and reports failed-precondition before the pid
  is known and not-found after the exit or the deletion.
\<close>

lemma exec_Kill_signals_live_only:
  "(if eState e \<noteq> ExecDeleted \<and> ePid e \<noteq> 0 \<and> eExited e = None
    then eTrace (snd (exec_Kill E sig all e)) = eTrace e @ [CallUnixKill (ePid e) (uint sig)] \<and>
         (is_ok (fst (exec_Kill E sig all e)) \<longleftrightarrow> unixKill E (ePid e) (uint sig) = None)
    else snd (exec_Kill E sig all e) = e \<and>
         (\<exists>g. fst (exec_Kill E sig all e) = Fail g \<and>
           (if eState e \<noteq> ExecDeleted \<and> ePid e = 0 then err_is g ErrFailedPrecondition
            else err_is g ErrNotFound)))"
  by (cases "eState e"; cases "unixKill E (ePid e) (uint sig)")
    (auto simp: exec_Kill_def exec_kill_def checkKillError_def)



text \<open>
  The first exit of an exec process wins: however many exit notifications follow, the
  recorded status and time are those of the first, and waiters are released.
\<close>

lemma exec_first_exit_wins:
  assumes "exec_sound e" and "exec_pending e"
  shows "let e' = fold (\<lambda>(E, st) e. snd (exec_SetExited E st e)) ((E0, st0) # later) e in
    exec_WaitReturns e' \<and> eExited e' = Some (timeNow E0) \<and> eStatus e' = st0"
  using exec_latch.first_exit_wins [OF assms, of E0 st0 later]
  by (simp add: Let_def exec_WaitReturns_def)

end
