(* ===== verification/Container.thy ===== *)
theory Container
  imports ExecProcess "HOL-Library.AList"
begin

text \<open>
  A container of the shim (\<open>runm/container.go\<close>, \<open>runm/util.go\<close>): the init process, the exec
  processes by id and the reserved ids. Exec processes are objects that outlive their
  entry in the map (the task service keeps references to them), so a container carries
  the list of all exec objects ever added and the map holds positions in it. The Go map
  is an association list; its order is the iteration order, which the code must not rely
  on. The nil tests of the init process are dead, \<open>NewContainer\<close> being the only
  constructor, and are left out.
\<close>

section \<open>Processes\<close>

datatype pref = InitP | ExecP nat

record container =
  cID :: string
  cBundle :: string
  cProcess :: init
  cProcesses :: "(string \<times> nat) list"
  cReserved :: "string list"
  cExecs :: "exec list"

text \<open>The methods of the \<open>Process\<close> interface on a reference.\<close>

definition on_process ::
  "(init \<Rightarrow> unit res \<times> init) \<Rightarrow> (init \<Rightarrow> exec \<Rightarrow> unit res \<times> exec) \<Rightarrow>
   pref \<Rightarrow> container \<Rightarrow> unit res \<times> container" where
  "on_process f g p c =
     (case p of
        InitP \<Rightarrow> (case f (cProcess c) of (r, q) \<Rightarrow> (r, c\<lparr>cProcess := q\<rparr>))
      | ExecP i \<Rightarrow> (case g (cProcess c) (cExecs c ! i) of
                     (r, e) \<Rightarrow> (r, c\<lparr>cExecs := (cExecs c)[i := e]\<rparr>)))"

definition Process_Start :: "env \<Rightarrow> pref \<Rightarrow> container \<Rightarrow> unit res \<times> container" where
  "Process_Start E = on_process (Init_Start E) (exec_Start E)"

definition Process_Delete :: "env \<Rightarrow> pref \<Rightarrow> container \<Rightarrow> unit res \<times> container" where
  "Process_Delete E = on_process (Init_Delete E) (\<lambda>_. exec_Delete)"

definition Process_Kill :: "env \<Rightarrow> 32 word \<Rightarrow> bool \<Rightarrow> pref \<Rightarrow> container \<Rightarrow> unit res \<times> container" where
  "Process_Kill E sig all = on_process (Init_Kill E sig all) (\<lambda>_. exec_Kill E sig all)"

definition Process_Resize ::
  "env \<Rightarrow> 16 word \<Rightarrow> 16 word \<Rightarrow> pref \<Rightarrow> container \<Rightarrow> unit res \<times> container" where
  "Process_Resize E w h = on_process (Init_Resize E w h) (\<lambda>_. exec_Resize E w h)"

definition Process_SetExited :: "env \<Rightarrow> int \<Rightarrow> pref \<Rightarrow> container \<Rightarrow> unit res \<times> container" where
  "Process_SetExited E st = on_process (Init_SetExited E st) (\<lambda>_. exec_SetExited E st)"

definition Process_CloseIO :: "pref \<Rightarrow> container \<Rightarrow> unit res \<times> container" where
  "Process_CloseIO = on_process (\<lambda>p. (Ok (), Init_CloseIO p)) (\<lambda>_ e. (Ok (), exec_CloseIO e))"

definition Process_ID :: "pref \<Rightarrow> container \<Rightarrow> string" where
  "Process_ID p c = (case p of InitP \<Rightarrow> iId (cProcess c) | ExecP i \<Rightarrow> eId (cExecs c ! i))"

definition Process_Pid :: "pref \<Rightarrow> container \<Rightarrow> int" where
  "Process_Pid p c = (case p of InitP \<Rightarrow> iPid (cProcess c) | ExecP i \<Rightarrow> ePid (cExecs c ! i))"

definition Process_ExitStatus :: "pref \<Rightarrow> container \<Rightarrow> int" where
  "Process_ExitStatus p c = (case p of InitP \<Rightarrow> iStatus (cProcess c) | ExecP i \<Rightarrow> eStatus (cExecs c ! i))"

definition Process_ExitedAt :: "pref \<Rightarrow> container \<Rightarrow> int option" where
  "Process_ExitedAt p c = (case p of InitP \<Rightarrow> iExited (cProcess c) | ExecP i \<Rightarrow> eExited (cExecs c ! i))"

definition Process_Stdin :: "pref \<Rightarrow> container \<Rightarrow> handle option" where
  "Process_Stdin p c = (case p of InitP \<Rightarrow> iStdin (cProcess c) | ExecP i \<Rightarrow> eStdin (cExecs c ! i))"

definition Process_Stdio :: "pref \<Rightarrow> container \<Rightarrow> stdio" where
  "Process_Stdio p c = (case p of InitP \<Rightarrow> iStdio (cProcess c) | ExecP i \<Rightarrow> eStdio (cExecs c ! i))"

definition Process_Status :: "pref \<Rightarrow> container \<Rightarrow> string" where
  "Process_Status p c =
     (case p of InitP \<Rightarrow> Init_Status (cProcess c)
              | ExecP i \<Rightarrow> exec_Status (cProcess c) (cExecs c ! i))"

definition Process_WaitReturns :: "pref \<Rightarrow> container \<Rightarrow> bool" where
  "Process_WaitReturns p c =
     (case p of InitP \<Rightarrow> Init_WaitReturns (cProcess c) | ExecP i \<Rightarrow> exec_WaitReturns (cExecs c ! i))"

section \<open>Files of the bundle\<close>

type_synonym files = "string \<Rightarrow> string option"

definition write_file :: "env \<Rightarrow> string \<Rightarrow> string \<Rightarrow> files \<Rightarrow> unit res \<times> files" where
  "write_file E path data fs =
     (case WriteFileFails E path of
        Some e \<Rightarrow> (Fail (Ext e), fs)
      | None \<Rightarrow> (Ok (), fs(path \<mapsto> data)))"

definition file_missing :: go_error where
  "file_missing = ErrNew ''no such file or directory''"

definition read_file :: "string \<Rightarrow> files \<Rightarrow> string res" where
  "read_file path fs = (case fs path of None \<Rightarrow> Fail file_missing | Some d \<Rightarrow> Ok d)"

definition optionsFilename :: string where
  "optionsFilename = ''options.json''"

text \<open>A missing options file is no error and no value.\<close>

definition ReadOptions :: "env \<Rightarrow> string \<Rightarrow> files \<Rightarrow> shim_options option res" where
  "ReadOptions E path fs =
     (let filePath = filepath_Join [path, optionsFilename] in
      case fs filePath of
        None \<Rightarrow> Ok None
      | Some data \<Rightarrow>
          (case ParseOptions E data of
             Inl e \<Rightarrow> Fail (Ext e)
           | Inr opts \<Rightarrow> Ok (Some opts)))"

definition WriteOptions :: "env \<Rightarrow> string \<Rightarrow> shim_options \<Rightarrow> files \<Rightarrow> unit res \<times> files" where
  "WriteOptions E path opts fs =
     (case MarshalOptions E opts of
        Inl e \<Rightarrow> (Fail (Ext e), fs)
      | Inr data \<Rightarrow> write_file E (filepath_Join [path, optionsFilename]) data fs)"

definition ReadRuntime :: "string \<Rightarrow> files \<Rightarrow> string res" where
  "ReadRuntime path fs = read_file (filepath_Join [path, ''runtime'']) fs"

definition WriteRuntime :: "env \<Rightarrow> string \<Rightarrow> string \<Rightarrow> files \<Rightarrow> unit res \<times> files" where
  "WriteRuntime E path rt fs = write_file E (filepath_Join [path, ''runtime'']) rt fs"

definition WritePid :: "env \<Rightarrow> string \<Rightarrow> files \<Rightarrow> unit res \<times> files" where
  "WritePid E path fs = write_file E (filepath_Join [path, ''pid'']) (nat_digits (osGetpid E)) fs"

definition ReadPid :: "string \<Rightarrow> files \<Rightarrow> int res" where
  "ReadPid path fs =
     (case read_file (filepath_Join [path, ''pid'']) fs of
        Fail e \<Rightarrow> Fail e
      | Panic m \<Rightarrow> Panic m
      | Ok data \<Rightarrow> (case Atoi data of None \<Rightarrow> Fail (ErrNew ''strconv.Atoi'') | Some n \<Rightarrow> Ok n))"

section \<open>Creation\<close>

record create_request =
  crID :: string
  crBundle :: string
  crRootfs :: "mount list"
  crTerminal :: bool
  crStdin :: string
  crStdout :: string
  crStderr :: string
  crCheckpoint :: string
  crParentCheckpoint :: string
  crOptions :: "string option"

definition newInit :: "string \<Rightarrow> create_config \<Rightarrow> shim_options \<Rightarrow> string \<Rightarrow> init" where
  "newInit workDir r opts rootfs =
     (let p = Init_New (ccID r) \<lparr>Stdin = ccStdin r, Stdout = ccStdout r, Stderr = ccStderr r,
                                 Terminal = ccTerminal r\<rparr>
      in p\<lparr>iBundle := ccBundle r, iRootfs := rootfs, iWorkDir := workDir, iIoUID := IoUid opts,
           iIoGID := IoGid opts, iNoPivotRoot := optNoPivotRoot opts,
           iNoNewKeyring := optNoNewKeyring opts,
           iCriuWorkPath := (if optCriuWorkPath opts = [] then workDir else optCriuWorkPath opts)\<rparr>)"

definition empty_options :: shim_options where
  "empty_options = \<lparr>BinaryName = [], IoUid = 0, IoGid = 0, optNoPivotRoot = False,
     optNoNewKeyring = False, optCriuWorkPath = []\<rparr>"

text \<open>The type assertion on the unmarshalled options panics for any other type.\<close>

definition request_options :: "env \<Rightarrow> create_request \<Rightarrow> shim_options res" where
  "request_options E r =
     (case crOptions r of
        None \<Rightarrow> Ok empty_options
      | Some v \<Rightarrow>
          (case UnmarshalOptions E v of
             Inl e \<Rightarrow> Fail (Ext e)
           | Inr NilValue \<Rightarrow> Ok empty_options
           | Inr (OptionsValue opts) \<Rightarrow> Ok opts
           | Inr OtherValue \<Rightarrow> Panic ''interface conversion''))"

definition request_rootfs :: "create_request \<Rightarrow> string" where
  "request_rootfs r = (if crRootfs r \<noteq> [] then filepath_Join [crBundle r, ''rootfs''] else [])"

definition request_config :: "create_request \<Rightarrow> shim_options \<Rightarrow> create_config" where
  "request_config r opts =
     \<lparr>ccID = crID r, ccBundle = crBundle r, ccRuntime = BinaryName opts, ccRootfs = crRootfs r,
      ccTerminal = crTerminal r, ccStdin = crStdin r, ccStdout = crStdout r, ccStderr = crStderr r,
      ccCheckpoint = crCheckpoint r, ccParentCheckpoint = crParentCheckpoint r, ccOptions = opts\<rparr>"

text \<open>
  \<open>NewContainer\<close> threads the bundle's files and the list of outside effects. The last part
  runs once the runtime exists.
\<close>

definition NewContainer_init ::
  "env \<Rightarrow> create_config \<Rightarrow> shim_options \<Rightarrow> string \<Rightarrow> files \<times> effect list \<Rightarrow>
   container res \<times> files \<times> effect list" where
  "NewContainer_init E config opts rootfs st =
     (case Init_Create E config
             (newInit (filepath_Join [ccBundle config, ''work'']) config opts rootfs) of
        (Ok _, p) \<Rightarrow> (Ok \<lparr>cID = ccID config, cBundle = ccBundle config, cProcess = p,
                          cProcesses = [], cReserved = [], cExecs = []\<rparr>,
                     fst st, snd st @ iTrace p)
      | (Fail e, p) \<Rightarrow> (Fail e, fst st, snd st @ iTrace p)
      | (Panic m, p) \<Rightarrow> (Panic m, fst st, snd st @ iTrace p))"

definition NewContainer_runtime ::
  "env \<Rightarrow> string \<Rightarrow> create_config \<Rightarrow> shim_options \<Rightarrow> string \<Rightarrow> files \<times> effect list \<Rightarrow>
   container res \<times> files \<times> effect list" where
  "NewContainer_runtime E ns config opts rootfs st =
     (case rtcCreate E ns config rootfs of
        Inl e \<Rightarrow> (Fail (Wrapf ''failed to create runtime: '' (Ext e)), st)
      | Inr isCgroupAdapter \<Rightarrow>
          (let st1 = (fst st, snd st @ [CallRuntimeCreate config]) in
           if \<not> isCgroupAdapter
           then (Fail (Wrapf ''runtime is not a cgroup adapter: '' (Sentinel ErrAborted)), st1)
           else NewContainer_init E config opts rootfs st1))"

definition NewContainer_write ::
  "env \<Rightarrow> create_request \<Rightarrow> shim_options \<Rightarrow> files \<Rightarrow> unit res \<times> files" where
  "NewContainer_write E r opts fs =
     and_then (WriteOptions E (crBundle r) opts fs)
       (\<lambda>_ fs. and_then (WriteRuntime E (crBundle r) (BinaryName opts) fs)
       (\<lambda>_ fs. WritePid E (crBundle r) fs))"

definition NewContainer ::
  "env \<Rightarrow> create_request \<Rightarrow> files \<Rightarrow> container res \<times> files \<times> effect list" where
  "NewContainer E r fs =
     (case NamespaceRequired E of
        Inl e \<Rightarrow> (Fail (Wrapf ''create namespace: '' (Ext e)), fs, [])
      | Inr ns \<Rightarrow>
     (case request_options E r of
        Fail e \<Rightarrow> (Fail e, fs, [])
      | Panic m \<Rightarrow> (Panic m, fs, [])
      | Ok opts \<Rightarrow>
          (let rootfs = request_rootfs r in
           case (if crRootfs r = [] then None else osMkdir E rootfs) of
             Some (e, False) \<Rightarrow> (Fail (Ext e), fs, [])
           | _ \<Rightarrow>
               (case NewContainer_write E r opts fs of
                  (Fail e, fs') \<Rightarrow> (Fail e, fs', [])
                | (Panic m, fs') \<Rightarrow> (Panic m, fs', [])
                | (Ok _, fs') \<Rightarrow>
                    NewContainer_runtime E ns (request_config r opts) opts rootfs (fs', [])))))"

section \<open>Methods\<close>

definition Container_All :: "container \<Rightarrow> pref list" where
  "Container_All c = map (\<lambda>(k, i). ExecP i) (cProcesses c) @ [InitP]"

definition Container_ExecdProcesses :: "container \<Rightarrow> pref list" where
  "Container_ExecdProcesses c = map (\<lambda>(k, i). ExecP i) (cProcesses c)"

definition Container_Pid :: "container \<Rightarrow> int" where
  "Container_Pid c = iPid (cProcess c)"

definition Container_Process :: "container \<Rightarrow> string \<Rightarrow> pref res" where
  "Container_Process c eid =
     (if eid = [] then Ok InitP
      else case map_of (cProcesses c) eid of
             None \<Rightarrow> Fail (Wrapf ''process does not exist: '' (Sentinel ErrNotFound))
           | Some i \<Rightarrow> Ok (ExecP i))"

definition Container_ReserveProcess :: "string \<Rightarrow> container \<Rightarrow> bool \<times> container" where
  "Container_ReserveProcess eid c =
     (if map_of (cProcesses c) eid \<noteq> None then (False, c)
      else if eid \<in> set (cReserved c) then (False, c)
      else (True, c\<lparr>cReserved := eid # cReserved c\<rparr>))"

text \<open>The cancel function that \<open>ReserveProcess\<close> returns.\<close>

definition Container_CancelReservation :: "string \<Rightarrow> container \<Rightarrow> container" where
  "Container_CancelReservation eid c = c\<lparr>cReserved := removeAll eid (cReserved c)\<rparr>"

definition Container_ProcessAdd :: "exec \<Rightarrow> container \<Rightarrow> container" where
  "Container_ProcessAdd e c =
     c\<lparr>cReserved := removeAll (eId e) (cReserved c),
       cProcesses := AList.update (eId e) (length (cExecs c)) (cProcesses c),
       cExecs := cExecs c @ [e]\<rparr>"

definition Container_ProcessRemove :: "string \<Rightarrow> container \<Rightarrow> container" where
  "Container_ProcessRemove eid c = c\<lparr>cProcesses := AList.delete eid (cProcesses c)\<rparr>"

text \<open>\<open>Start\<close> also returns the process when it fails to start.\<close>

definition Container_Start :: "env \<Rightarrow> string \<Rightarrow> container \<Rightarrow> (pref option \<times> unit res) \<times> container" where
  "Container_Start E eid c =
     (case Container_Process c eid of
        Ok p \<Rightarrow>
          (case Process_Start E p c of
             (r, c') \<Rightarrow> ((Some p, wrap_err ''failed to start process: '' r), c'))
      | Fail _ \<Rightarrow> ((None, Fail (Wrapf ''process does not exist: '' (Sentinel ErrNotFound))), c)
      | Panic m \<Rightarrow> ((None, Panic m), c))"

definition Container_Delete :: "env \<Rightarrow> string \<Rightarrow> container \<Rightarrow> pref res \<times> container" where
  "Container_Delete E eid c =
     (case Container_Process c eid of
        Ok p \<Rightarrow>
          and_then (Process_Delete E p c)
            (\<lambda>_ c. (Ok p, if eid \<noteq> [] then Container_ProcessRemove eid c else c))
      | Fail e \<Rightarrow> (Fail e, c)
      | Panic m \<Rightarrow> (Panic m, c))"

record exec_request =
  xrExecID :: string
  xrTerminal :: bool
  xrStdin :: string
  xrStdout :: string
  xrStderr :: string
  xrSpec :: "string option"

definition Container_Exec :: "env \<Rightarrow> exec_request \<Rightarrow> container \<Rightarrow> string res \<times> container" where
  "Container_Exec E r c =
     (case xrSpec r of
        None \<Rightarrow> (Panic ''nil pointer dereference'', c)
      | Some v \<Rightarrow>
     (case UnmarshalSpec E v of
        Inl e \<Rightarrow> (Fail (Ext e), c)
      | Inr spec \<Rightarrow>
     (case Init_Exec (cBundle c)
             \<lparr>ecID = xrExecID r, ecTerminal = xrTerminal r, ecStdin = xrStdin r,
              ecStdout = xrStdout r, ecStderr = xrStderr r,
              ecSpec = Some (spec\<lparr>specTerminal := xrTerminal r\<rparr>)\<rparr> (cProcess c) of
        Fail e \<Rightarrow> (Fail e, c)
      | Panic m \<Rightarrow> (Panic m, c)
      | Ok e \<Rightarrow> (Ok (eId e), Container_ProcessAdd e c))))"

definition on_init :: "(init \<Rightarrow> unit res \<times> init) \<Rightarrow> container \<Rightarrow> unit res \<times> container" where
  "on_init f c = (case f (cProcess c) of (r, q) \<Rightarrow> (r, c\<lparr>cProcess := q\<rparr>))"

definition Container_Pause :: "env \<Rightarrow> container \<Rightarrow> unit res \<times> container" where
  "Container_Pause E = on_init (Init_Pause E)"

definition Container_Resume :: "env \<Rightarrow> container \<Rightarrow> unit res \<times> container" where
  "Container_Resume E = on_init (Init_Resume E)"

text \<open>An operation on the process with a given id.\<close>

definition with_process ::
  "string \<Rightarrow> (pref \<Rightarrow> container \<Rightarrow> unit res \<times> container) \<Rightarrow> container \<Rightarrow> unit res \<times> container" where
  "with_process eid f c =
     (case Container_Process c eid of
        Ok p \<Rightarrow> f p c
      | Fail e \<Rightarrow> (Fail e, c)
      | Panic m \<Rightarrow> (Panic m, c))"

text \<open>The 32-bit width and height of the request are cut to 16 bits.\<close>

definition Container_ResizePty ::
  "env \<Rightarrow> string \<Rightarrow> 32 word \<Rightarrow> 32 word \<Rightarrow> container \<Rightarrow> unit res \<times> container" where
  "Container_ResizePty E eid width height =
     with_process eid (Process_Resize E (ucast width) (ucast height))"

definition Container_Kill ::
  "env \<Rightarrow> string \<Rightarrow> 32 word \<Rightarrow> bool \<Rightarrow> container \<Rightarrow> unit res \<times> container" where
  "Container_Kill E eid sig all =
     with_process eid (\<lambda>p c. and_then (Process_CloseIO p c) (\<lambda>_. Process_Kill E sig all p))"

definition Container_CloseIO :: "env \<Rightarrow> string \<Rightarrow> container \<Rightarrow> unit res \<times> container" where
  "Container_CloseIO E eid =
     with_process eid
       (\<lambda>p c. case Process_Stdin p c of
                None \<Rightarrow> (Ok (), c)
              | Some h \<Rightarrow> (wrap_err ''close stdin: '' (of_opt (closeHandle E h)), c))"

definition Container_Checkpoint ::
  "env \<Rightarrow> string \<Rightarrow> string option \<Rightarrow> container \<Rightarrow> unit res \<times> container" where
  "Container_Checkpoint E path options c =
     (case (case options of
              None \<Rightarrow> Inr \<lparr>cpExit = False, cpOpenTcp = False, cpExternalUnixSockets = False,
                          cpTerminal = False, cpFileLocks = False, cpEmptyNamespaces = [],
                          cpWorkPath = []\<rparr>
            | Some v \<Rightarrow> UnmarshalCheckpointOptions E v) of
        Inl e \<Rightarrow> (Fail (Ext e), c)
      | Inr o' \<Rightarrow>
          on_init (Init_Checkpoint E
            \<lparr>ckWorkDir = cpWorkPath o', ckPath = path, ckExit = cpExit o',
             ckAllowOpenTCP = cpOpenTcp o',
             ckAllowExternalUnixSockets = cpExternalUnixSockets o',
             ckAllowTerminal = cpTerminal o', ckFileLocks = cpFileLocks o',
             ckEmptyNamespaces = cpEmptyNamespaces o'\<rparr>) c)"

definition Container_Update :: "env \<Rightarrow> string \<Rightarrow> container \<Rightarrow> unit res \<times> container" where
  "Container_Update E resources = on_init (Init_Update E resources)"

definition Container_HasPid :: "int \<Rightarrow> container \<Rightarrow> bool" where
  "Container_HasPid pid c =
     (if Container_Pid c = pid then True
      else list_ex (\<lambda>p. Process_Pid p c = pid) (Container_All c))"

definition readSpec :: "env \<Rightarrow> string \<Rightarrow> ext_error + oci_spec" where
  "readSpec E p = DecodeSpec E (filepath_Join [p, ''config.json''])"

definition ShouldKillAllOnExit :: "env \<Rightarrow> string \<Rightarrow> bool" where
  "ShouldKillAllOnExit E bundlePath =
     (case readSpec E bundlePath of
        Inl _ \<Rightarrow> True
      | Inr spec \<Rightarrow>
          (case linuxNamespaces spec of
             None \<Rightarrow> True
           | Some nss \<Rightarrow> \<not> list_ex (\<lambda>(t, path). t = ''pid'' \<and> path = []) nss))"

section \<open>Well-formed containers\<close>

text \<open>
  The map has one entry per id, its positions are those of exec objects with that id, a
  reserved id is not in the map, and the init process is in a state it can reach.
\<close>

definition exec_entry_ok :: "container \<Rightarrow> string \<times> nat \<Rightarrow> bool" where
  "exec_entry_ok c x \<longleftrightarrow> snd x < length (cExecs c) \<and> eId (cExecs c ! snd x) = fst x"

definition container_inv :: "container \<Rightarrow> bool" where
  "container_inv c \<longleftrightarrow> distinct (map fst (cProcesses c)) \<and>
     (\<forall>x \<in> set (cProcesses c). exec_entry_ok c x) \<and>
     distinct (cReserved c) \<and> set (cReserved c) \<inter> fst ` set (cProcesses c) = {} \<and>
     init_inv (cProcess c)"

text \<open>The calls that the shim makes on a process reference.\<close>

definition init_call :: "(init \<Rightarrow> unit res \<times> init) \<Rightarrow> bool" where
  "init_call f \<longleftrightarrow> (\<exists>E op. \<forall>p. f p = init_apply E op p)"

definition exec_call :: "(init \<Rightarrow> exec \<Rightarrow> unit res \<times> exec) \<Rightarrow> bool" where
  "exec_call g \<longleftrightarrow> (\<exists>E op. \<forall>p e. g p e = exec_apply E p op e)"

lemma init_callI: "(\<And>p. f p = init_apply E op p) \<Longrightarrow> init_call f"
  by (auto simp: init_call_def)

lemma exec_callI: "(\<And>p e. g p e = exec_apply E p op e) \<Longrightarrow> exec_call g"
  by (auto simp: exec_call_def)

lemma init_call_inv: "init_call f \<Longrightarrow> init_inv p \<Longrightarrow> init_inv (snd (f p))"
  by (auto simp: init_call_def init_inv_def wait_inv_apply io_inv_apply)

lemma exec_call_eId: "exec_call g \<Longrightarrow> eId (snd (g p e)) = eId e"
  by (auto simp: exec_call_def exec_apply_eId)

lemma on_process_frame:
  "cID (snd (on_process f g p c)) = cID c" "cBundle (snd (on_process f g p c)) = cBundle c"
  "cProcesses (snd (on_process f g p c)) = cProcesses c"
  "cReserved (snd (on_process f g p c)) = cReserved c"
  "length (cExecs (snd (on_process f g p c))) = length (cExecs c)"
  by (simp_all add: on_process_def split: pref.split prod.split)

lemma on_process_inv:
  assumes "container_inv c" "init_call f" "exec_call g"
  shows "container_inv (snd (on_process f g p c))"
proof (cases p)
  case InitP
  with assms show ?thesis
    using init_call_inv [of f "cProcess c"]
    by (auto simp: container_inv_def on_process_def exec_entry_ok_def split: prod.splits)
next
  case (ExecP i)
  obtain r e where g: "g (cProcess c) (cExecs c ! i) = (r, e)" by (cases "g (cProcess c) (cExecs c ! i)")
  have "eId e = eId (cExecs c ! i)"
    using exec_call_eId [OF assms(3), of "cProcess c" "cExecs c ! i"] g by simp
  then have "exec_entry_ok c x \<Longrightarrow> exec_entry_ok (c\<lparr>cExecs := (cExecs c)[i := e]\<rparr>) x" for x
    by (cases "snd x = i") (auto simp: exec_entry_ok_def)
  with assms(1) ExecP g show ?thesis
    by (auto simp: container_inv_def on_process_def)
qed

lemma on_init_inv:
  assumes "container_inv c" "init_call f" shows "container_inv (snd (on_init f c))"
  using assms init_call_inv [of f "cProcess c"]
  by (auto simp: container_inv_def on_init_def exec_entry_ok_def split: prod.splits)

lemma process_calls:
  "init_call (Init_Start E)" "exec_call (exec_Start E)"
  "init_call (Init_Delete E)" "exec_call (\<lambda>_. exec_Delete)"
  "init_call (Init_Kill E sig all)" "exec_call (\<lambda>_. exec_Kill E sig all)"
  "init_call (Init_Resize E w h)" "exec_call (\<lambda>_. exec_Resize E w h)"
  "init_call (Init_SetExited E st)" "exec_call (\<lambda>_. exec_SetExited E st)"
  "init_call (\<lambda>p. (Ok (), Init_CloseIO p))" "exec_call (\<lambda>_ e. (Ok (), exec_CloseIO e))"
  "init_call (Init_Pause E)" "init_call (Init_Resume E)" "init_call (Init_Checkpoint E r)"
  "init_call (Init_Update E u)" "init_call (Init_KillAll E)"
  by (rule init_callI exec_callI, rule init_apply.simps [symmetric] exec_apply.simps [symmetric])+

lemma Process_methods_inv:
  assumes "container_inv c"
  shows "container_inv (snd (Process_Start E p c))" "container_inv (snd (Process_Delete E p c))"
    "container_inv (snd (Process_Kill E sig all p c))" "container_inv (snd (Process_Resize E w h p c))"
    "container_inv (snd (Process_SetExited E st p c))" "container_inv (snd (Process_CloseIO p c))"
  using assms on_process_inv process_calls
  by (simp_all add: Process_Start_def Process_Delete_def Process_Kill_def Process_Resize_def
      Process_SetExited_def Process_CloseIO_def)

lemma with_process_inv:
  assumes "container_inv c" "\<And>p. container_inv (snd (f p c))"
  shows "container_inv (snd (with_process eid f c))"
  using assms by (simp add: with_process_def split: res.split)

lemma Container_Start_inv: "container_inv c \<Longrightarrow> container_inv (snd (Container_Start E eid c))"
  using Process_methods_inv(1) [of c E]
  by (auto simp: Container_Start_def split: res.split prod.split) (metis snd_conv)

lemma Container_Kill_inv: "container_inv c \<Longrightarrow> container_inv (snd (Container_Kill E eid sig all c))"
  unfolding Container_Kill_def
  by (rule with_process_inv)
    (auto simp: snd_and_then Process_methods_inv split: res.split)

lemma Container_ResizePty_inv: "container_inv c \<Longrightarrow> container_inv (snd (Container_ResizePty E eid w h c))"
  unfolding Container_ResizePty_def by (rule with_process_inv) (simp_all add: Process_methods_inv)

lemma Container_CloseIO_inv: "container_inv c \<Longrightarrow> container_inv (snd (Container_CloseIO E eid c))"
  unfolding Container_CloseIO_def by (rule with_process_inv) (simp_all split: option.split)

lemma Container_ProcessRemove_inv: "container_inv c \<Longrightarrow> container_inv (Container_ProcessRemove eid c)"
  by (auto simp: container_inv_def Container_ProcessRemove_def exec_entry_ok_def
      AList.delete_eq distinct_map_filter)

lemma Container_Delete_inv: "container_inv c \<Longrightarrow> container_inv (snd (Container_Delete E eid c))"
  by (auto simp: Container_Delete_def snd_and_then Process_methods_inv
      Container_ProcessRemove_inv split: res.split)

lemma Container_init_ops_inv:
  assumes "container_inv c"
  shows "container_inv (snd (Container_Pause E c))" "container_inv (snd (Container_Resume E c))"
    "container_inv (snd (Container_Checkpoint E path opts c))"
    "container_inv (snd (Container_Update E u c))"
  using assms on_init_inv process_calls
  by (simp_all add: Container_Pause_def Container_Resume_def Container_Checkpoint_def
      Container_Update_def split: sum.split option.split)

section \<open>Concurrent exec requests\<close>

text \<open>
  A container together with the exec requests that have reserved their id and not yet
  finished. Every other method is one step.
\<close>

inductive container_step ::
  "container \<times> exec_request list \<Rightarrow> container \<times> exec_request list \<Rightarrow> bool" where
  reserve: "Container_ReserveProcess (xrExecID r) c = (True, c') \<Longrightarrow>
    container_step (c, rs) (c', r # rs)"
| exec_done: "r \<in> set rs \<Longrightarrow> Container_Exec E r c = (Ok i, c') \<Longrightarrow>
    container_step (c, rs) (c', remove1 r rs)"
| exec_failed: "r \<in> set rs \<Longrightarrow> Container_Exec E r c = (Fail e, c') \<Longrightarrow>
    container_step (c, rs) (Container_CancelReservation (xrExecID r) c', remove1 r rs)"
| start: "container_step (c, rs) (snd (Container_Start E eid c), rs)"
| delete: "container_step (c, rs) (snd (Container_Delete E eid c), rs)"
| kill: "container_step (c, rs) (snd (Container_Kill E eid sig all c), rs)"
| resize: "container_step (c, rs) (snd (Container_ResizePty E eid w h c), rs)"
| close_io: "container_step (c, rs) (snd (Container_CloseIO E eid c), rs)"
| pause: "container_step (c, rs) (snd (Container_Pause E c), rs)"
| resume: "container_step (c, rs) (snd (Container_Resume E c), rs)"
| checkpoint: "container_step (c, rs) (snd (Container_Checkpoint E path opts c), rs)"
| update: "container_step (c, rs) (snd (Container_Update E u c), rs)"
| exited: "container_step (c, rs) (snd (Process_SetExited E st p c), rs)"
| closed: "container_step (c, rs) (snd (Process_CloseIO p c), rs)"

definition container_start :: "container \<times> exec_request list \<Rightarrow> bool" where
  "container_start s \<longleftrightarrow> snd s = [] \<and> (\<exists>E r fs. fst (NewContainer E r fs) = Ok (fst s))"

definition reserved_ids :: "container \<times> exec_request list \<Rightarrow> bool" where
  "reserved_ids s \<longleftrightarrow> distinct (map xrExecID (snd s)) \<and>
     set (cReserved (fst s)) = xrExecID ` set (snd s)"

definition requests_inv :: "container \<times> exec_request list \<Rightarrow> bool" where
  "requests_inv s \<longleftrightarrow> container_inv (fst s) \<and> reserved_ids s"

lemma Container_Start_reserved [frame_simps]:
  "cReserved (snd (Container_Start E eid c)) = cReserved c"
  by (auto simp: Container_Start_def Process_Start_def on_process_frame split: res.split prod.split)
    (metis on_process_frame(4) snd_conv)

lemma Container_ops_reserved [frame_simps]:
  "cReserved (snd (Process_Delete E p c)) = cReserved c"
  "cReserved (snd (Process_Kill E sig all p c)) = cReserved c"
  "cReserved (snd (Process_Resize E w h p c)) = cReserved c"
  "cReserved (snd (Process_SetExited E st p c)) = cReserved c"
  "cReserved (snd (Process_CloseIO p c)) = cReserved c"
  "cReserved (snd (on_init f c)) = cReserved c"
  by (simp_all add: Process_Delete_def Process_Kill_def Process_Resize_def Process_SetExited_def
      Process_CloseIO_def on_process_frame on_init_def split: prod.split)

lemma Container_methods_reserved [frame_simps]:
  "cReserved (snd (Container_Delete E eid c)) = cReserved c"
  "cReserved (snd (Container_Kill E eid sig all c)) = cReserved c"
  "cReserved (snd (Container_ResizePty E eid w h c)) = cReserved c"
  "cReserved (snd (Container_CloseIO E eid c)) = cReserved c"
  "cReserved (snd (Container_Pause E c)) = cReserved c"
  "cReserved (snd (Container_Resume E c)) = cReserved c"
  "cReserved (snd (Container_Checkpoint E path opts c)) = cReserved c"
  "cReserved (snd (Container_Update E u c)) = cReserved c"
  by (simp_all add: Container_Delete_def Container_Kill_def Container_ResizePty_def
      Container_CloseIO_def Container_Pause_def Container_Resume_def Container_Checkpoint_def
      Container_Update_def with_process_def snd_and_then Container_ProcessRemove_def frame_simps
      split: res.split option.split sum.split)

text \<open>Reservation and its release.\<close>

lemma exec_entry_ok_reserved [simp]: "exec_entry_ok (c\<lparr>cReserved := x\<rparr>) = exec_entry_ok c"
  by (simp add: fun_eq_iff exec_entry_ok_def)

lemma ReserveProcess_inv:
  assumes "container_inv c" "Container_ReserveProcess eid c = (True, c')"
  shows "container_inv c' \<and> eid \<notin> set (cReserved c) \<and> cReserved c' = eid # cReserved c"
proof -
  have "eid \<notin> fst ` set (cProcesses c)" and r: "eid \<notin> set (cReserved c)"
    and c': "c' = c\<lparr>cReserved := eid # cReserved c\<rparr>"
    using assms(2) by (simp_all add: Container_ReserveProcess_def map_of_eq_None_iff split: if_splits)
  with assms(1) have "container_inv c'" unfolding container_inv_def by simp
  with r c' show ?thesis by simp
qed

lemma update_new_key: "k \<notin> fst ` set al \<Longrightarrow> AList.update k v al = al @ [(k, v)]"
  by (induction al) auto

lemma ProcessAdd_inv:
  assumes "container_inv c" "eId e \<notin> fst ` set (cProcesses c)"
  shows "container_inv (Container_ProcessAdd e c)"
  using assms
  by (auto simp: container_inv_def Container_ProcessAdd_def update_new_key exec_entry_ok_def
      nth_append distinct_removeAll)

lemma Init_Exec_id: "Init_Exec path r p = Ok e \<Longrightarrow> eId e = ecID r"
  by (auto simp: Init_Exec_def Init_exec_def wrap_err_def split: init_state.splits option.splits)

lemma Container_Exec_ok:
  "Container_Exec E r c = (Ok i, c') \<Longrightarrow>
     \<exists>e. eId e = xrExecID r \<and> i = xrExecID r \<and> c' = Container_ProcessAdd e c"
  using Init_Exec_id
  by (fastforce simp: Container_Exec_def split: option.splits sum.splits res.splits)

lemma Container_Exec_failed: "Container_Exec E r c = (Fail e, c') \<Longrightarrow> c' = c"
  by (auto simp: Container_Exec_def split: option.splits sum.splits res.splits)

lemma reserved_not_added:
  "requests_inv (c, rs) \<Longrightarrow> r \<in> set rs \<Longrightarrow> xrExecID r \<notin> fst ` set (cProcesses c)"
  by (auto simp: requests_inv_def reserved_ids_def container_inv_def)

lemma remove1_ids:
  assumes "distinct (map xrExecID rs)" "r \<in> set rs"
  shows "distinct (map xrExecID (remove1 r rs)) \<and>
    xrExecID ` set (remove1 r rs) = xrExecID ` set rs - {xrExecID r}"
  using assms by (auto simp: distinct_map inj_on_def)

lemma exec_done_inv:
  assumes "requests_inv (c, rs)" "r \<in> set rs" "Container_Exec E r c = (Ok i, c')"
  shows "requests_inv (c', remove1 r rs)"
proof -
  from Container_Exec_ok [OF assms(3)] obtain e
    where e: "eId e = xrExecID r" "c' = Container_ProcessAdd e c" by blast
  have "container_inv c'"
    using ProcessAdd_inv [of c e] assms reserved_not_added [OF assms(1,2)] e
    by (simp add: requests_inv_def)
  moreover have "reserved_ids (c', remove1 r rs)"
    using assms(1,2) remove1_ids [of rs r] e
    by (simp add: requests_inv_def reserved_ids_def Container_ProcessAdd_def)
  ultimately show ?thesis by (simp add: requests_inv_def)
qed

lemma exec_failed_inv:
  assumes "requests_inv (c, rs)" "r \<in> set rs"
  shows "requests_inv (Container_CancelReservation (xrExecID r) c, remove1 r rs)"
  using assms remove1_ids [of rs r]
  by (simp add: requests_inv_def reserved_ids_def container_inv_def
      Container_CancelReservation_def distinct_removeAll) blast

lemma requests_inv_step: "container_step s t \<Longrightarrow> requests_inv s \<Longrightarrow> requests_inv t"
proof (induction rule: container_step.induct)
  case (reserve r c c' rs)
  then show ?case
    using ReserveProcess_inv [of c "xrExecID r" c']
    by (auto simp: requests_inv_def reserved_ids_def)
next
  case (exec_done r rs E c i c')
  then show ?case by (rule_tac exec_done_inv)
next
  case (exec_failed r rs E c e c')
  then show ?case using Container_Exec_failed [of E r c e c'] exec_failed_inv [of c rs r] by simp
qed (simp_all add: requests_inv_def reserved_ids_def frame_simps Container_Start_inv
    Container_Delete_inv Container_Kill_inv Container_ResizePty_inv Container_CloseIO_inv
    Container_init_ops_inv Process_methods_inv)

lemma newInit_fresh: "init_fresh (newInit workDir r opts rootfs) \<and>
  iStdio (newInit workDir r opts rootfs) = \<lparr>Stdin = ccStdin r, Stdout = ccStdout r,
    Stderr = ccStderr r, Terminal = ccTerminal r\<rparr> \<and> iBundle (newInit workDir r opts rootfs) = ccBundle r"
  by (simp add: newInit_def Let_def init_fresh_def Init_New_def)

lemma NewContainer_init_ok:
  "fst (NewContainer_init E config opts rootfs st) = Ok c \<Longrightarrow>
     \<exists>p. Init_Create E config (newInit (filepath_Join [ccBundle config, ''work'']) config opts rootfs) = (Ok (), p) \<and>
       c = \<lparr>cID = ccID config, cBundle = ccBundle config, cProcess = p, cProcesses = [],
            cReserved = [], cExecs = []\<rparr>"
  by (auto simp: NewContainer_init_def split: prod.splits res.splits)

lemma NewContainer_runtime_ok:
  "fst (NewContainer_runtime E ns config opts rootfs st) = Ok c \<Longrightarrow>
     \<exists>st1. fst (NewContainer_init E config opts rootfs st1) = Ok c"
  by (auto simp: NewContainer_runtime_def Let_def split: sum.splits if_splits)

lemma NewContainer_runtime_files:
  "fst (snd (NewContainer_runtime E ns config opts rootfs st)) = fst st"
  by (simp add: NewContainer_runtime_def NewContainer_init_def Let_def split: sum.split prod.split res.split)

lemma NewContainer_stages:
  assumes "NamespaceRequired E = Inr ns" "request_options E r = Ok opts"
    and "NewContainer_write E r opts fs = (Ok (), fs')"
    and "\<And>e. (if crRootfs r = [] then None else osMkdir E (request_rootfs r)) \<noteq> Some (e, False)"
  shows "NewContainer E r fs =
    NewContainer_runtime E ns (request_config r opts) opts (request_rootfs r) (fs', [])"
  using assms(4)
  by (cases "crRootfs r = []")
    (auto simp: NewContainer_def assms(1-3) Let_def split: option.split prod.split bool.split)

lemma NewContainer_ok:
  assumes "fst (NewContainer E r fs) = Ok c"
  obtains opts p where
    "request_options E r = Ok opts"
    "NewContainer_write E r opts fs = (Ok (), fst (snd (NewContainer E r fs)))"
    "Init_Create E (request_config r opts) (newInit (filepath_Join [crBundle r, ''work''])
       (request_config r opts) opts (request_rootfs r)) = (Ok (), p)"
    "c = \<lparr>cID = crID r, cBundle = crBundle r, cProcess = p, cProcesses = [], cReserved = [], cExecs = []\<rparr>"
proof -
  obtain ns where ns: "NamespaceRequired E = Inr ns"
    using assms by (cases "NamespaceRequired E") (simp_all add: NewContainer_def)
  obtain opts where opts: "request_options E r = Ok opts"
    using assms ns by (cases "request_options E r") (simp_all add: NewContainer_def)
  have mk: "(if crRootfs r = [] then None else osMkdir E (request_rootfs r)) \<noteq> Some (e, False)" for e
    using assms ns opts by (auto simp: NewContainer_def Let_def)
  obtain w fs' where w: "NewContainer_write E r opts fs = (w, fs')"
    by (cases "NewContainer_write E r opts fs")
  have "w = Ok ()"
    using assms ns opts w by (cases w)
      (simp_all add: NewContainer_def Let_def split: option.splits prod.splits bool.splits)
  with w have w: "NewContainer_write E r opts fs = (Ok (), fs')" by simp
  note eq = NewContainer_stages [OF ns opts w mk]
  from assms obtain p where
    "Init_Create E (request_config r opts) (newInit (filepath_Join [crBundle r, ''work''])
       (request_config r opts) opts (request_rootfs r)) = (Ok (), p)"
    "c = \<lparr>cID = crID r, cBundle = crBundle r, cProcess = p, cProcesses = [], cReserved = [], cExecs = []\<rparr>"
    unfolding eq by (auto simp: request_config_def dest!: NewContainer_runtime_ok NewContainer_init_ok)
  with opts w show ?thesis
    by (intro that [of opts p]) (simp_all add: eq NewContainer_runtime_files)
qed

lemma NewContainer_inv: "fst (NewContainer E r fs) = Ok c \<Longrightarrow> container_inv c"
proof (erule NewContainer_ok)
  fix opts p
  let ?r = "request_config r opts"
  let ?n = "newInit (filepath_Join [crBundle r, ''work'']) ?r opts (request_rootfs r)"
  assume "Init_Create E ?r ?n = (Ok (), p)"
  then have "p = snd (Init_Create E ?r ?n)" by simp
  then have "init_start p"
    using newInit_fresh [of "filepath_Join [crBundle r, ''work'']" ?r opts "request_rootfs r"]
    unfolding init_start_def by (metis stdio.select_convs(4))
  moreover assume "c = \<lparr>cID = crID r, cBundle = crBundle r, cProcess = p, cProcesses = [],
    cReserved = [], cExecs = []\<rparr>"
  ultimately show ?thesis
    by (simp add: container_inv_def init_life.start_inv)
qed

interpretation container_life: inductive_invariant container_start container_step requests_inv
proof
  fix s assume "container_start s"
  then show "requests_inv s"
    using NewContainer_inv
    by (auto simp: container_start_def requests_inv_def reserved_ids_def elim: NewContainer_ok)
qed (rule requests_inv_step)

section \<open>Properties\<close>

lemma reachable_container_start:
  "fst (NewContainer E r fs) = Ok c \<Longrightarrow> reachable container_start container_step (c, [])"
  by (rule reachable.at_start) (simp add: container_start_def, blast)

text \<open>A container made from a terminal request, as \<open>NewContainer\<close> returns it.\<close>

definition tty_create_request :: create_request where
  "tty_create_request = \<lparr>crID = ''c1'', crBundle = ''/b'', crRootfs = [], crTerminal = True,
     crStdin = [], crStdout = ''/out'', crStderr = [], crCheckpoint = [], crParentCheckpoint = [],
     crOptions = None\<rparr>"

definition tty_container :: container where
  "tty_container = (case fst (NewContainer env_ok tty_create_request (\<lambda>_. None)) of Ok c \<Rightarrow> c)"

lemma tty_container_new:
  "fst (NewContainer env_ok tty_create_request (\<lambda>_. None)) = Ok tty_container"
  by (simp add: tty_container_def tty_create_request_def NewContainer_def NewContainer_write_def
      NewContainer_runtime_def NewContainer_init_def WriteOptions_def WriteRuntime_def WritePid_def
      write_file_def request_options_def request_rootfs_def request_config_def newInit_def
      Init_New_def Init_Create_def Init_openIO_def Init_createFresh_def Init_attach_def
      Init_readPid_def env_ok_def empty_options_def Let_def)

lemma tty_container_fields:
  "cProcesses tty_container = [] \<and> cReserved tty_container = [] \<and> cExecs tty_container = [] \<and>
   iState (cProcess tty_container) = CreatedState \<and> cID tty_container = ''c1'' \<and>
   iPid (cProcess tty_container) = 42 \<and> iConsole (cProcess tty_container) = Some 5 \<and>
   iIO (cProcess tty_container) = None \<and> iId (cProcess tty_container) = ''c1''"
  by (simp add: tty_container_def tty_create_request_def NewContainer_def NewContainer_write_def
      NewContainer_runtime_def NewContainer_init_def WriteOptions_def WriteRuntime_def WritePid_def
      write_file_def request_options_def request_rootfs_def request_config_def newInit_def
      Init_New_def Init_Create_def Init_openIO_def Init_createFresh_def Init_attach_def
      Init_readPid_def env_ok_def empty_options_def Let_def)

text \<open>
  C26: In every state that concurrent requests can bring a container to, its map has one
  entry per id and each entry is an exec object with that id, the reserved ids are exactly
  those of the exec requests in flight, no two of which have the same id and none of which is
  in the map, and the init process keeps its own invariant.
\<close>

theorem container_reachable_wf:
  assumes "reachable container_start container_step (c, rs)"
  shows "distinct (map fst (cProcesses c)) \<and> distinct (map xrExecID rs) \<and>
    set (cReserved c) = xrExecID ` set rs \<and>
    set (cReserved c) \<inter> fst ` set (cProcesses c) = {} \<and>
    (\<forall>eid i. map_of (cProcesses c) eid = Some i \<longrightarrow>
       i < length (cExecs c) \<and> Process_ID (ExecP i) c = eid) \<and>
    init_inv (cProcess c)"
  using container_life.reachable_inv [OF assms]
  by (auto simp: requests_inv_def reserved_ids_def container_inv_def exec_entry_ok_def
      Process_ID_def dest!: map_of_SomeD)

definition sh_request :: exec_request where
  "sh_request = \<lparr>xrExecID = ''sh'', xrTerminal = True, xrStdin = [], xrStdout = ''/out'',
     xrStderr = [], xrSpec = Some ''sh''\<rparr>"

lemma reserved_sh_reachable:
  "reachable container_start container_step
     (snd (Container_ReserveProcess ''sh'' tty_container), [sh_request])"
  using reachable.by_step [OF reachable_container_start [OF tty_container_new],
      of "(snd (Container_ReserveProcess ''sh'' tty_container), [sh_request])"]
    container_step.reserve [of sh_request tty_container
      "snd (Container_ReserveProcess ''sh'' tty_container)" "[]"]
  by (simp add: Container_ReserveProcess_def tty_container_fields sh_request_def)

theorem container_reachable_wf_witness:
  "set (cReserved (snd (Container_ReserveProcess ''sh'' tty_container))) = {''sh''}"
  using container_reachable_wf [OF reserved_sh_reachable] by (simp add: sh_request_def)

text \<open>
  Reservation makes exec ids unique. \<open>ReserveProcess\<close> succeeds exactly for an id that is
  neither in the map nor reserved; and when a request that holds a reservation completes, it
  adds its process under its own id without replacing another: every other lookup is
  unchanged, and the reservation is gone.
\<close>

lemma exec_reservation_exclusive:
  assumes "reachable container_start container_step (c, rs)" and "r \<in> set rs"
    and "Container_Exec E r c = (Ok i, c')"
  shows "map_of (cProcesses c) (xrExecID r) = None \<and> i = xrExecID r \<and>
    \<not> fst (Container_ReserveProcess (xrExecID r) c) \<and>
    map_of (cProcesses c') = (map_of (cProcesses c))(xrExecID r \<mapsto> length (cExecs c)) \<and>
    set (cReserved c') = set (cReserved c) - {xrExecID r} \<and>
    \<not> fst (Container_ReserveProcess (xrExecID r) c')"
proof -
  have inv: "requests_inv (c, rs)" by (rule container_life.reachable_inv [OF assms(1)])
  have new: "xrExecID r \<notin> fst ` set (cProcesses c)" by (rule reserved_not_added [OF inv assms(2)])
  have res: "xrExecID r \<in> set (cReserved c)"
    using inv assms(2) by (auto simp: requests_inv_def reserved_ids_def)
  obtain e where "eId e = xrExecID r" "i = xrExecID r" "c' = Container_ProcessAdd e c"
    using Container_Exec_ok [OF assms(3)] by blast
  with new res show ?thesis
    by (simp add: Container_ProcessAdd_def Container_ReserveProcess_def map_of_eq_None_iff update_conv')
qed


text \<open>
  A container that \<open>NewContainer\<close> returns is in the created state with the id and bundle of
  the request, and its bundle's files can be read back: the options file gives the options used,
  the runtime file the runtime's name and the pid file the shim's process id. The JSON codec is
  assumed to read back the options it wrote.
\<close>

lemma NewContainer_bundle_readable:
  assumes "NewContainer E r fs = (Ok c, fs', fx)" and "request_options E r = Ok opts"
    and codec: "\<And>d. MarshalOptions E opts = Inr d \<Longrightarrow> ParseOptions E d = Inr opts"
    and pid: "osGetpid E < 2 ^ 63"
  shows "cID c = crID r \<and> cBundle c = crBundle r \<and> lc (cProcess c) = LCreated \<and>
    ReadOptions E (crBundle r) fs' = Ok (Some opts) \<and>
    ReadRuntime (crBundle r) fs' = Ok (BinaryName opts) \<and>
    ReadPid (crBundle r) fs' = Ok (int (osGetpid E))"
proof -
  have "fst (NewContainer E r fs) = Ok c" using assms(1) by simp
  then obtain p where w: "NewContainer_write E r opts fs = (Ok (), fs')"
    and p: "Init_Create E (request_config r opts) (newInit (filepath_Join [crBundle r, ''work''])
       (request_config r opts) opts (request_rootfs r)) = (Ok (), p)"
    and c: "c = \<lparr>cID = crID r, cBundle = crBundle r, cProcess = p, cProcesses = [], cReserved = [], cExecs = []\<rparr>"
    using assms(1,2) by (elim NewContainer_ok) auto
  have plain: "plain_name optionsFilename" "plain_name ''runtime''" "plain_name ''pid''"
    by (simp_all add: plain_name_def optionsFilename_def)
  have d: "filepath_Join [b, optionsFilename] \<noteq> filepath_Join [b, ''runtime'']"
      "filepath_Join [b, optionsFilename] \<noteq> filepath_Join [b, ''pid'']"
      "filepath_Join [b, ''runtime''] \<noteq> filepath_Join [b, ''pid'']" for b
    using filepath_Join_plain_inj [OF plain(1,2), of b] filepath_Join_plain_inj [OF plain(1,3), of b]
      filepath_Join_plain_inj [OF plain(2,3), of b]
    by (auto simp: optionsFilename_def)
  obtain data where data: "MarshalOptions E opts = Inr data"
    and fs': "fs' = fs(filepath_Join [crBundle r, optionsFilename] \<mapsto> data,
      filepath_Join [crBundle r, ''runtime''] \<mapsto> BinaryName opts,
      filepath_Join [crBundle r, ''pid''] \<mapsto> nat_digits (osGetpid E))"
    using w by (auto simp: NewContainer_write_def WriteOptions_def WriteRuntime_def WritePid_def
        write_file_def split: sum.splits option.splits)
  have "lc (newInit (filepath_Join [crBundle r, ''work'']) (request_config r opts) opts (request_rootfs r)) = LCreated"
    using newInit_fresh init_fresh_wait by blast
  then have "lc p = LCreated" using Init_Create_keeps(2) p by (metis snd_conv)
  with c d [of "crBundle r"] codec [OF data] fs' Atoi_nat_digits [OF pid] show ?thesis
    by (simp add: ReadOptions_def ReadRuntime_def ReadPid_def read_file_def Let_def)
qed


text \<open>
  A failed creation leaks the runtime: when the runtime creator has succeeded and creation
  fails afterwards (no cgroup adapter, or the init process cannot be created), the runtime is
  never closed.
\<close>

lemma NewContainer_failure_leaks_runtime:
  assumes "NewContainer E r fs = (Fail err, fs', fx)" and "CallRuntimeCreate config \<in> set fx"
  shows "CallRuntimeClose \<notin> set fx"
proof -
  have no_close: "CallRuntimeClose \<notin> set (iTrace (snd (Init_Create E cfg p)))"
    if "iTrace p = []" for cfg p
    using Init_Create_no_close [of p E cfg] that by simp
  have "iTrace (newInit w cfg opts rootfs) = []" for w cfg opts rootfs
    by (simp add: newInit_def Let_def Init_New_def)
  from no_close [OF this] show ?thesis
    using assms
    by (auto simp: NewContainer_def NewContainer_runtime_def NewContainer_init_def Let_def
        split: sum.splits res.splits option.splits prod.splits if_splits bool.splits)
      (metis snd_conv)+
qed


text \<open>
  Deleting a stopped exec process removes exactly its entry: the process can no longer be
  found, its id can be reserved again, every other id still names the same object, and the
  deleted object itself is kept for the references the service holds. While the process is
  running, delete fails and the container is unchanged.
\<close>

lemma Container_Delete_exec:
  assumes "container_inv c" and "eid \<noteq> []" and "map_of (cProcesses c) eid = Some i"
  shows "(eState (cExecs c ! i) = ExecStopped \<longrightarrow>
      (let c' = snd (Container_Delete E eid c) in
       fst (Container_Delete E eid c) = Ok (ExecP i) \<and>
       (\<exists>g. Container_Process c' eid = Fail g \<and> err_is g ErrNotFound) \<and>
       fst (Container_ReserveProcess eid c') \<and>
       (\<forall>k. k \<noteq> eid \<longrightarrow> Container_Process c' k = Container_Process c k) \<and>
       eState (cExecs c' ! i) = ExecDeleted \<and> length (cExecs c') = length (cExecs c))) \<and>
    (eState (cExecs c ! i) = ExecRunning \<longrightarrow>
       (\<exists>g. Container_Delete E eid c = (Fail g, c)))"
proof (intro conjI impI)
  assume st: "eState (cExecs c ! i) = ExecStopped"
  have i: "i < length (cExecs c)"
    using assms(1,3) by (auto simp: container_inv_def exec_entry_ok_def dest!: map_of_SomeD)
  obtain r e where d: "exec_Delete (cExecs c ! i) = (r, e)" by (cases "exec_Delete (cExecs c ! i)")
  then have r: "r = Ok ()" "eState e = ExecDeleted"
    using exec_Delete_simps(2) [OF st] by auto
  have "eid \<notin> set (cReserved c)"
    using assms(1,3) by (force simp: container_inv_def dest!: map_of_SomeD)
  with assms(2,3) d r i show "let c' = snd (Container_Delete E eid c) in
       fst (Container_Delete E eid c) = Ok (ExecP i) \<and>
       (\<exists>g. Container_Process c' eid = Fail g \<and> err_is g ErrNotFound) \<and>
       fst (Container_ReserveProcess eid c') \<and>
       (\<forall>k. k \<noteq> eid \<longrightarrow> Container_Process c' k = Container_Process c k) \<and>
       eState (cExecs c' ! i) = ExecDeleted \<and> length (cExecs c') = length (cExecs c)"
    by (simp add: Container_Delete_def Container_Process_def Process_Delete_def on_process_def
        Container_ProcessRemove_def Container_ReserveProcess_def delete_conv' Let_def)
next
  assume "eState (cExecs c ! i) = ExecRunning"
  with assms(2,3) show "\<exists>g. Container_Delete E eid c = (Fail g, c)"
    by (simp add: Container_Delete_def Container_Process_def Process_Delete_def on_process_def
        exec_Delete_def)
qed

text \<open>
  \<open>ResizePty\<close> hands the console the low 16 bits of the requested width and height: a size
  below 65536 is exact, a larger one is silently reduced modulo 65536.
\<close>

lemma ResizePty_truncates:
  assumes "iConsole (cProcess c) = Some h"
  shows "Container_ResizePty E [] width height c =
      (of_opt (ConsoleResize E h (ucast width) (ucast height)),
       c\<lparr>cProcess := iemit [DoResizeConsole h] (cProcess c)\<rparr>) \<and>
    uint (ucast width :: 16 word) = uint width mod 65536 \<and>
    (uint width < 65536 \<longrightarrow> uint (ucast width :: 16 word) = uint width)"
proof -
  have m: "uint (ucast width :: 16 word) = uint width mod 65536"
    by (simp add: unsigned_ucast_eq take_bit_eq_mod)
  moreover have "uint width mod 65536 = uint width" if "uint width < 65536"
    using that by (simp add: mod_pos_pos_trivial)
  ultimately show ?thesis
    using assms by (simp add: Container_ResizePty_def with_process_def Container_Process_def
        Process_Resize_def on_process_def Init_Resize_def)
qed


text \<open>
  \<open>ShouldKillAllOnExit\<close> asks for the kill of all processes when the specification cannot be
  read or when no namespace entry gives the container a PID namespace of its own; for a container with
  a private PID namespace it answers no.
\<close>

lemma ShouldKillAllOnExit_iff:
  "ShouldKillAllOnExit E b \<longleftrightarrow>
     (case readSpec E b of
        Inl _ \<Rightarrow> True
      | Inr spec \<Rightarrow> \<not> (\<exists>nss. linuxNamespaces spec = Some nss \<and> (''pid'', []) \<in> set nss))"
  by (auto simp: ShouldKillAllOnExit_def list_ex_iff split: sum.split option.split)

text \<open>
  The container owns a pid exactly when it is the pid of its init process or of an exec
  process in its map.
\<close>

lemma Container_HasPid_iff:
  "Container_HasPid pid c \<longleftrightarrow> iPid (cProcess c) = pid \<or>
     (\<exists>eid i. (eid, i) \<in> set (cProcesses c) \<and> ePid (cExecs c ! i) = pid)"
proof -
  have "list_ex (\<lambda>p. Process_Pid p c = pid) (map (\<lambda>(k, i). ExecP i) (cProcesses c)) \<longleftrightarrow>
      (\<exists>eid i. (eid, i) \<in> set (cProcesses c) \<and> ePid (cExecs c ! i) = pid)"
    by (simp add: list_ex_iff Process_Pid_def case_prod_beta) force
  moreover have "Process_Pid InitP c = iPid (cProcess c)" by (simp add: Process_Pid_def)
  ultimately show ?thesis
    by (simp add: Container_HasPid_def Container_Pid_def Container_All_def)
qed

end
