(* ===== verification/TaskService.thy ===== *)
theory TaskService
  imports Container
begin

text \<open>
  The task service of the shim (\<open>task/service.go\<close>): the handlers of the task API, the goroutine
  that processes exits, and the goroutines that hold back an init exit until the execs of its
  container are done. Handlers run concurrently. Each is a sequence of \<open>action\<close>s, cut where the
  code releases a lock or calls into a container, so that the interleavings of the program are
  those of the actions; the state they share is the record \<open>service\<close>.

  Containers are objects compared by address: \<open>svHeap\<close> holds them and a \<open>cref\<close> is a position in
  it. The map \<open>running\<close> from pids to slices is one list of entries, whose order within a key is
  that of the slice. A map read of a missing counter gives 0, so \<open>runningExecs\<close> is total. The
  event channel is the list of all events sent; each carries the process it is about.
\<close>

section \<open>State\<close>

type_synonym cref = nat

record exit =
  exPid :: int
  exStatus :: int

record containerPid =
  cpidPid :: int
  cpidContainer :: string

record containerProcess =
  cpContainer :: cref
  cpProcess :: pref

datatype event =
    TaskCreate string "32 word"
  | TaskStart string "32 word"
  | TaskExecAdded string string
  | TaskExecStarted string string "32 word"
  | TaskExit string string "32 word" "32 word" "int option"
  | TaskDelete string "32 word" "32 word" "int option"
  | TaskPaused string
  | TaskResumed string

text \<open>A buffered channel of exec counts.\<close>

record count_chan =
  chCap :: nat
  chBuf :: "int list"

type_synonym exits = "containerPid \<Rightarrow> exit list option"

record service =
  svMu :: bool
  svContainers :: "(string \<times> cref) list"
  svPrimary :: string
  svHeap :: "container list"
  svFiles :: files
  svRunning :: "(containerPid \<times> containerProcess) list"
  svRunningExecs :: "cref \<Rightarrow> int"
  svExecCountSubscribers :: "cref \<Rightarrow> nat option"
  svChans :: "count_chan list"
  svContainerInitExit :: "cref \<Rightarrow> exit option"
  svExitSubscribers :: "nat list"
  svExits :: "exits list"
  svEvents :: "((cref \<times> pref) \<times> event) list"
  svEc :: "(string \<times> exit) list"

definition NewTaskService :: service where
  "NewTaskService = \<lparr>svMu = False, svContainers = [], svPrimary = [], svHeap = [],
     svFiles = (\<lambda>_. None), svRunning = [], svRunningExecs = (\<lambda>_. 0),
     svExecCountSubscribers = (\<lambda>_. None), svChans = [], svContainerInitExit = (\<lambda>_. None),
     svExitSubscribers = [], svExits = [], svEvents = [], svEc = []\<rparr>"

definition containerPidOf :: "pref \<Rightarrow> container \<Rightarrow> containerPid" where
  "containerPidOf p c = \<lparr>cpidPid = Process_Pid p c, cpidContainer = cID c\<rparr>"

definition slice_of :: "containerPid \<Rightarrow> (containerPid \<times> containerProcess) list \<Rightarrow> containerProcess list" where
  "slice_of q xs = map snd (filter (\<lambda>x. fst x = q) xs)"

definition service_send :: "cref \<Rightarrow> pref \<Rightarrow> event \<Rightarrow> service \<Rightarrow> service" where
  "service_send c p e s = s\<lparr>svEvents := svEvents s @ [((c, p), e)]\<rparr>"

definition set_container :: "cref \<Rightarrow> container \<Rightarrow> service \<Rightarrow> service" where
  "set_container c x s = s\<lparr>svHeap := (svHeap s)[c := x]\<rparr>"

section \<open>Lookups\<close>

definition getContainer :: "string \<Rightarrow> service \<Rightarrow> cref res" where
  "getContainer cid s =
     (case map_of (svContainers s) cid of
        None \<Rightarrow> Fail (Wrapf ''container not created: '' (Sentinel ErrNotFound))
      | Some c \<Rightarrow> Ok c)"

datatype task_status = UNKNOWN | CREATED | RUNNING | STOPPED | PAUSED | PAUSING

record state_response =
  srID :: string
  srBundle :: string
  srPid :: "32 word"
  srStatus :: task_status
  srStdio :: stdio
  srExitStatus :: "32 word"
  srExitedAt :: "int option"

definition task_status_of :: "string \<Rightarrow> task_status" where
  "task_status_of st =
     (if st = ''created'' then CREATED
      else if st = ''running'' then RUNNING
      else if st = ''stopped'' then STOPPED
      else if st = ''paused'' then PAUSED
      else if st = ''pausing'' then PAUSING
      else UNKNOWN)"

text \<open>A query of the process a request names.\<close>

definition query_process ::
  "string \<Rightarrow> string \<Rightarrow> (pref \<Rightarrow> container \<Rightarrow> 'a res) \<Rightarrow> service \<Rightarrow> 'a res" where
  "query_process cid eid f s =
     (case getContainer cid s of
        Fail e \<Rightarrow> Fail e
      | Panic m \<Rightarrow> Panic m
      | Ok c \<Rightarrow>
          (case Container_Process (svHeap s ! c) eid of
             Fail e \<Rightarrow> Fail e
           | Panic m \<Rightarrow> Panic m
           | Ok p \<Rightarrow> f p (svHeap s ! c)))"

definition service_State :: "string \<Rightarrow> string \<Rightarrow> service \<Rightarrow> state_response res" where
  "service_State cid eid =
     query_process cid eid
       (\<lambda>p c. Ok \<lparr>srID = Process_ID p c, srBundle = cBundle c,
                  srPid = word_of_int (Process_Pid p c),
                  srStatus = task_status_of (Process_Status p c), srStdio = Process_Stdio p c,
                  srExitStatus = word_of_int (Process_ExitStatus p c),
                  srExitedAt = Process_ExitedAt p c\<rparr>)"

text \<open>\<open>Wait\<close> blocks until the process is done: no answer yet is \<open>None\<close>.\<close>

definition service_Wait :: "string \<Rightarrow> string \<Rightarrow> service \<Rightarrow> (32 word \<times> int option) res option" where
  "service_Wait cid eid s =
     (case query_process cid eid
             (\<lambda>p c. Ok (if Process_WaitReturns p c
                        then Some (word_of_int (Process_ExitStatus p c), Process_ExitedAt p c)
                        else None)) s of
        Fail e \<Rightarrow> Some (Fail e)
      | Panic m \<Rightarrow> Some (Panic m)
      | Ok None \<Rightarrow> None
      | Ok (Some x) \<Rightarrow> Some (Ok x))"

definition getContainerPids :: "env \<Rightarrow> container \<Rightarrow> 32 word list res" where
  "getContainerPids E c =
     (case rtPs E (cID c) of
        Inl e \<Rightarrow> Fail (Ext e)
      | Inr ps \<Rightarrow> Ok (map word_of_int ps))"

text \<open>The exec whose pid is listed is looked up in the order the map is visited.\<close>

definition pid_details :: "env \<Rightarrow> container \<Rightarrow> 32 word \<Rightarrow> (32 word \<times> string option) res" where
  "pid_details E c pid =
     (case find (\<lambda>p. Process_Pid p c = uint pid) (Container_ExecdProcesses c) of
        None \<Rightarrow> Ok (pid, None)
      | Some p \<Rightarrow>
          (case MarshalDetails E (Process_ID p c) of
             Inl e \<Rightarrow> Fail (Wrapf ''marshaling process info: '' (Ext e))
           | Inr a \<Rightarrow> Ok (pid, Some a)))"

fun details_all :: "env \<Rightarrow> container \<Rightarrow> 32 word list \<Rightarrow> (32 word \<times> string option) list res" where
  "details_all E c [] = Ok []"
| "details_all E c (pid # pids) =
     (case pid_details E c pid of
        Fail e \<Rightarrow> Fail e
      | Panic m \<Rightarrow> Panic m
      | Ok x \<Rightarrow>
          (case details_all E c pids of
             Fail e \<Rightarrow> Fail e
           | Panic m \<Rightarrow> Panic m
           | Ok xs \<Rightarrow> Ok (x # xs)))"

definition service_Pids :: "env \<Rightarrow> string \<Rightarrow> service \<Rightarrow> (32 word \<times> string option) list res" where
  "service_Pids E cid s =
     (case getContainer cid s of
        Fail e \<Rightarrow> Fail e
      | Panic m \<Rightarrow> Panic m
      | Ok c \<Rightarrow>
          (case getContainerPids E (svHeap s ! c) of
             Fail e \<Rightarrow> Fail e
           | Panic m \<Rightarrow> Panic m
           | Ok pids \<Rightarrow> details_all E (svHeap s ! c) pids))"

definition service_Connect :: "env \<Rightarrow> string \<Rightarrow> service \<Rightarrow> 32 word \<times> 32 word" where
  "service_Connect E cid s =
     (word_of_int (int (osGetpid E)),
      case getContainer cid s of
        Ok c \<Rightarrow> word_of_int (Container_Pid (svHeap s ! c))
      | _ \<Rightarrow> 0)"

text \<open>Whether \<open>Shutdown\<close> triggers the shutdown of the shim.\<close>

definition service_Shutdown :: "bool \<Rightarrow> service \<Rightarrow> bool" where
  "service_Shutdown now s = (now \<or> svContainers s = [])"

definition service_Stats :: "env \<Rightarrow> string \<Rightarrow> service \<Rightarrow> string res" where
  "service_Stats E cid s =
     (case getContainer cid s of
        Fail e \<Rightarrow> Fail e
      | Panic m \<Rightarrow> Panic m
      | Ok c \<Rightarrow>
          (case cgroupStat E of
             Inl e \<Rightarrow> Fail (Ext e)
           | Inr st \<Rightarrow> of_sum (MarshalStats E st)))"

section \<open>Handlers without shared bookkeeping\<close>

text \<open>An operation on the container a request names; the event is sent when it succeeds.\<close>

definition container_op ::
  "string \<Rightarrow> (container \<Rightarrow> unit res \<times> container) \<Rightarrow> (string \<Rightarrow> event) option \<Rightarrow> service \<Rightarrow> unit res \<times> service" where
  "container_op cid f evt s =
     (case getContainer cid s of
        Fail e \<Rightarrow> (Fail e, s)
      | Panic m \<Rightarrow> (Panic m, s)
      | Ok c \<Rightarrow>
          (case f (svHeap s ! c) of
             (r, x) \<Rightarrow>
               (r, (case (r, evt) of
                      (Ok _, Some v) \<Rightarrow> service_send c InitP (v (cID x)) (set_container c x s)
                    | _ \<Rightarrow> set_container c x s))))"

definition service_ResizePty ::
  "env \<Rightarrow> string \<Rightarrow> string \<Rightarrow> 32 word \<Rightarrow> 32 word \<Rightarrow> service \<Rightarrow> unit res \<times> service" where
  "service_ResizePty E cid eid w h = container_op cid (Container_ResizePty E eid w h) None"

definition service_Pause :: "env \<Rightarrow> string \<Rightarrow> service \<Rightarrow> unit res \<times> service" where
  "service_Pause E cid = container_op cid (Container_Pause E) (Some TaskPaused)"

definition service_Resume :: "env \<Rightarrow> string \<Rightarrow> service \<Rightarrow> unit res \<times> service" where
  "service_Resume E cid = container_op cid (Container_Resume E) (Some TaskResumed)"

definition service_Kill ::
  "env \<Rightarrow> string \<Rightarrow> string \<Rightarrow> 32 word \<Rightarrow> bool \<Rightarrow> service \<Rightarrow> unit res \<times> service" where
  "service_Kill E cid eid sig all = container_op cid (Container_Kill E eid sig all) None"

definition service_CloseIO :: "env \<Rightarrow> string \<Rightarrow> string \<Rightarrow> service \<Rightarrow> unit res \<times> service" where
  "service_CloseIO E cid eid = container_op cid (Container_CloseIO E eid) None"

definition service_Checkpoint ::
  "env \<Rightarrow> string \<Rightarrow> string \<Rightarrow> string option \<Rightarrow> service \<Rightarrow> unit res \<times> service" where
  "service_Checkpoint E cid path opts = container_op cid (Container_Checkpoint E path opts) None"

definition service_Update :: "env \<Rightarrow> string \<Rightarrow> string \<Rightarrow> service \<Rightarrow> unit res \<times> service" where
  "service_Update E cid resources = container_op cid (Container_Update E resources) None"

section \<open>Actions\<close>

text \<open>
  The atomic parts of the handlers and goroutines. \<open>HandleStarted\<close> carries whether the call
  was made after a successful exec start, that is, whether the exec counter still has to be given back
  for it; the code does not use this.
\<close>

datatype action =
    StartGet string string
  | PreStart cref string
  | RunStart cref string nat
  | StartFailed cref
  | SendStarted cref string pref
  | HandleStarted cref "pref option" nat bool
  | Cleanup nat
  | SetExit exit cref pref
  | SendExit exit cref pref
  | ExecExited cref
  | NextExit
  | InitExit exit cref
  | InitExitCheck exit cref
  | AwaitExecs exit cref nat
  | DropCounters cref
  | CreateLock create_request
  | CreateNew create_request nat
  | Unlock
  | DeleteGet string string
  | DeleteRun cref string string
  | DeleteEntry cref string
  | ForgetInitExit cref
  | ExecGet string exec_request
  | ExecReserve cref exec_request
  | ExecRun cref exec_request
  | OtherCall string "container \<Rightarrow> unit res \<times> container" "(string \<Rightarrow> event) option"

text \<open>
  What an action leads to: the actions that follow in the same thread, the goroutines it starts and
  the new state; or it cannot proceed yet; or it panics, which ends the shim.
\<close>

datatype outcome = Next "action list" "action list list" service | Blocked | Crash string

subsection \<open>Starting a process\<close>

text \<open>
  \<open>preStart\<close> registers a new map of exits. For the init process it also takes the container's
  entries out of \<open>running\<close>.
\<close>

definition preStart :: "cref option \<Rightarrow> service \<Rightarrow> nat \<times> service" where
  "preStart co s =
     (let k = length (svExits s);
          s1 = s\<lparr>svExits := svExits s @ [\<lambda>_. None], svExitSubscribers := k # svExitSubscribers s\<rparr>
      in (k, case co of
               None \<Rightarrow> s1
             | Some c \<Rightarrow>
                 let q = containerPidOf InitP (svHeap s ! c)
                 in s1\<lparr>svRunning :=
                         filter (\<lambda>x. \<not> (fst x = q \<and> cpContainer (snd x) = c)) (svRunning s)\<rparr>))"

text \<open>The first critical section of \<open>Start\<close>.\<close>

definition service_preStart :: "cref \<Rightarrow> string \<Rightarrow> service \<Rightarrow> outcome" where
  "service_preStart c eid s =
     (if eid = [] then
        (case preStart (Some c) s of
           (k, s1) \<Rightarrow> Next [RunStart c eid k, Cleanup k] [] s1)
      else if svContainerInitExit s c \<noteq> None then Next [] [] s
      else
        (case preStart None (s\<lparr>svRunningExecs := (svRunningExecs s)(c := svRunningExecs s c + 1)\<rparr>) of
           (k, s1) \<Rightarrow> Next [RunStart c eid k, Cleanup k] [] s1))"

text \<open>The call of \<open>container.Start\<close> and the branch on its error.\<close>

definition service_runStart :: "env \<Rightarrow> cref \<Rightarrow> string \<Rightarrow> nat \<Rightarrow> service \<Rightarrow> outcome" where
  "service_runStart E c eid k s =
     (case Container_Start E eid (svHeap s ! c) of
        ((po, r), x) \<Rightarrow>
          (case r of
             Panic m \<Rightarrow> Crash m
           | Fail _ \<Rightarrow> Next ((if eid \<noteq> [] then [StartFailed c] else []) @ [HandleStarted c po k False])
                            [] (set_container c x s)
           | Ok _ \<Rightarrow>
               (case po of
                  None \<Rightarrow> Crash ''nil pointer dereference''
                | Some p \<Rightarrow> Next [SendStarted c eid p, HandleStarted c po k (eid \<noteq> [])]
                                 [] (set_container c x s))))"

text \<open>
  Giving back one exec: the counter goes down and a subscriber is told; the send blocks while
  its channel is full.
\<close>

definition exec_done_notify :: "cref \<Rightarrow> service \<Rightarrow> outcome" where
  "exec_done_notify c s =
     (let n = svRunningExecs s c - 1;
          s1 = s\<lparr>svRunningExecs := (svRunningExecs s)(c := n)\<rparr>
      in case svExecCountSubscribers s c of
           None \<Rightarrow> Next [] [] s1
         | Some ch \<Rightarrow>
             let q = svChans s ! ch
             in if length (chBuf q) < chCap q
                then Next [] [] (s1\<lparr>svChans := (svChans s)[ch := q\<lparr>chBuf := chBuf q @ [n]\<rparr>]\<rparr>)
                else Blocked)"

definition service_sendStarted :: "cref \<Rightarrow> string \<Rightarrow> pref \<Rightarrow> service \<Rightarrow> outcome" where
  "service_sendStarted c eid p s =
     (let x = svHeap s ! c; pid = word_of_int (Process_Pid p x)
      in Next [] [] (service_send c p
           (if eid = [] then TaskStart (cID x) pid else TaskExecStarted (cID x) eid pid) s))"

text \<open>
  \<open>handleStarted\<close>: a process that is not running, or whose exit has already been seen, gets its
  exits handled now; otherwise it is recorded as running.
\<close>

definition handleStarted :: "cref \<Rightarrow> pref option \<Rightarrow> nat \<Rightarrow> service \<Rightarrow> outcome" where
  "handleStarted c po k s =
     (let x = svHeap s ! c;
          pid = (case po of None \<Rightarrow> 0 | Some p \<Rightarrow> Process_Pid p x);
          q = \<lparr>cpidPid = pid, cpidContainer = cID x\<rparr>;
          ees = (svExits s ! k) q;
          s1 = s\<lparr>svExitSubscribers := removeAll k (svExitSubscribers s)\<rparr>
      in if pid = 0 \<or> ees \<noteq> None then
           (case po of
              None \<Rightarrow> if ees = None \<or> ees = Some [] then Next [] [] s1
                      else Crash ''nil pointer dereference''
            | Some p \<Rightarrow>
                Next (map (\<lambda>e. SetExit e c p) (case ees of None \<Rightarrow> [] | Some es \<Rightarrow> es)) [] s1)
         else
           (case po of
              None \<Rightarrow> Next [] [] s1
            | Some p \<Rightarrow>
                Next [] [] (s1\<lparr>svRunning := svRunning s @ [(q, \<lparr>cpContainer = c, cpProcess = p\<rparr>)]\<rparr>)))"

definition service_cleanup :: "nat \<Rightarrow> service \<Rightarrow> outcome" where
  "service_cleanup k s =
     Next [] [] (s\<lparr>svExitSubscribers := removeAll k (svExitSubscribers s)\<rparr>)"

subsection \<open>Exits\<close>

text \<open>\<open>handleProcessExit\<close>, cut at the process's mutex, the send and the lifecycle lock.\<close>

definition handleProcessExit_set :: "env \<Rightarrow> exit \<Rightarrow> cref \<Rightarrow> pref \<Rightarrow> service \<Rightarrow> outcome" where
  "handleProcessExit_set E e c p s =
     (case and_then (Process_SetExited E (exStatus e) p (svHeap s ! c)) (\<lambda>_. Process_CloseIO p) of
        (Panic m, _) \<Rightarrow> Crash m
      | (_, x) \<Rightarrow> Next [SendExit e c p] [] (set_container c x s))"

definition handleProcessExit_send :: "exit \<Rightarrow> cref \<Rightarrow> pref \<Rightarrow> service \<Rightarrow> outcome" where
  "handleProcessExit_send e c p s =
     (let x = svHeap s ! c
      in Next (if p = InitP then [] else [ExecExited c]) []
           (service_send c p
              (TaskExit (cID x) (Process_ID p x) (word_of_int (exPid e)) (word_of_int (exStatus e))
                 (Process_ExitedAt p x)) s))"

text \<open>One round of \<open>processExits\<close>, up to the release of the lifecycle lock.\<close>

definition exit_actions :: "exit \<Rightarrow> containerProcess \<Rightarrow> action list" where
  "exit_actions e cp =
     (if cpProcess cp = InitP then [InitExit e (cpContainer cp)]
      else [SetExit e (cpContainer cp) (cpProcess cp)])"

definition processExits :: "service \<Rightarrow> outcome" where
  "processExits s =
     (case svEc s of
        [] \<Rightarrow> Blocked
      | (cid, e) # rest \<Rightarrow>
          (let q = \<lparr>cpidPid = exPid e, cpidContainer = cid\<rparr>;
               tell = (\<lambda>k m. if k \<in> set (svExitSubscribers s)
                             then m(q := Some ((case m q of None \<Rightarrow> [] | Some es \<Rightarrow> es) @ [e])) else m);
               cps = slice_of q (svRunning s);
               inits = map cpContainer (filter (\<lambda>cp. cpProcess cp = InitP) cps)
           in Next (concat (map (exit_actions e) cps) @ [NextExit]) []
                (s\<lparr>svEc := rest,
                   svExits := map (\<lambda>(k, m). tell k m) (enumerate 0 (svExits s)),
                   svContainerInitExit :=
                     (\<lambda>c. if c \<in> set inits then Some e else svContainerInitExit s c),
                   svRunning := filter (\<lambda>x. fst x \<noteq> q) (svRunning s)\<rparr>)))"

text \<open>\<open>handleInitExit\<close>: an error of the kill is only logged.\<close>

definition handleInitExit_kill :: "env \<Rightarrow> exit \<Rightarrow> cref \<Rightarrow> service \<Rightarrow> outcome" where
  "handleInitExit_kill E e c s =
     (let x = svHeap s ! c
      in Next [InitExitCheck e c] []
           (if ShouldKillAllOnExit E (cBundle x)
            then set_container c (snd (on_init (Init_KillAll E) x)) s else s))"

definition handleInitExit_check :: "exit \<Rightarrow> cref \<Rightarrow> service \<Rightarrow> outcome" where
  "handleInitExit_check e c s =
     (let n = svRunningExecs s c
      in if n = 0 then
           Next [SetExit e c InitP] [] (s\<lparr>svRunningExecs := (svRunningExecs s)(c := 0)\<rparr>)
         else if n < 0 then Crash ''makechan: size out of range''
         else
           (let ch = length (svChans s)
            in Next [] [[AwaitExecs e c ch]]
                 (s\<lparr>svChans := svChans s @ [\<lparr>chCap = nat n, chBuf = []\<rparr>],
                    svExecCountSubscribers := (svExecCountSubscribers s)(c \<mapsto> ch)\<rparr>)))"

definition handleInitExit_await :: "exit \<Rightarrow> cref \<Rightarrow> nat \<Rightarrow> service \<Rightarrow> outcome" where
  "handleInitExit_await e c ch s =
     (let q = svChans s ! ch
      in case chBuf q of
           [] \<Rightarrow> Blocked
         | n # rest \<Rightarrow>
             Next (if n = 0 then [SetExit e c InitP, DropCounters c] else [AwaitExecs e c ch]) []
               (s\<lparr>svChans := (svChans s)[ch := q\<lparr>chBuf := rest\<rparr>]\<rparr>))"

definition handleInitExit_drop :: "cref \<Rightarrow> service \<Rightarrow> outcome" where
  "handleInitExit_drop c s =
     Next [] [] (s\<lparr>svExecCountSubscribers := (svExecCountSubscribers s)(c := None),
                   svRunningExecs := (svRunningExecs s)(c := 0)\<rparr>)"

subsection \<open>Creating and deleting\<close>

text \<open>\<open>Create\<close> holds the service mutex from its first statement until it returns.\<close>

definition service_Create_lock :: "create_request \<Rightarrow> service \<Rightarrow> outcome" where
  "service_Create_lock r s =
     (if svMu s then Blocked
      else case preStart None (s\<lparr>svMu := True\<rparr>) of
             (k, s1) \<Rightarrow> Next [CreateNew r k, Cleanup k, Unlock] [] s1)"

definition service_Create_new :: "env \<Rightarrow> create_request \<Rightarrow> nat \<Rightarrow> service \<Rightarrow> outcome" where
  "service_Create_new E r k s =
     (if serveGrpcFails E \<noteq> None then Next [] [] s
      else case ociReadSpec E (filepath_Join [crBundle r, ''config.json'']) of
        Inl _ \<Rightarrow> Next [] [] s
      | Inr _ \<Rightarrow>
          (case NewContainer E r (svFiles s) of
             (Panic m, _) \<Rightarrow> Crash m
           | (Fail _, fs, _) \<Rightarrow> Next [] [] (s\<lparr>svFiles := fs\<rparr>)
           | (Ok x, fs, _) \<Rightarrow>
               (let c = length (svHeap s);
                    s1 = s\<lparr>svFiles := fs, svHeap := svHeap s @ [x]\<rparr>
                in if svPrimary s \<noteq> [] then Next [] [] s1
                   else Next [HandleStarted c (Some InitP) k False] []
                          (service_send c InitP (TaskCreate (crID r) (word_of_int (Container_Pid x)))
                             (s1\<lparr>svPrimary := crID r,
                                 svContainers := AList.update (crID r) c (svContainers s)\<rparr>)))))"

definition service_Delete_run :: "env \<Rightarrow> cref \<Rightarrow> string \<Rightarrow> string \<Rightarrow> service \<Rightarrow> outcome" where
  "service_Delete_run E c cid eid s =
     (case Container_Delete E eid (svHeap s ! c) of
        (Panic m, _) \<Rightarrow> Crash m
      | (Fail _, x) \<Rightarrow> Next [] [] (set_container c x s)
      | (Ok _, x) \<Rightarrow> Next (if eid = [] then [DeleteEntry c cid, ForgetInitExit c] else [])
                         [] (set_container c x s))"

definition service_Delete_entry :: "cref \<Rightarrow> string \<Rightarrow> service \<Rightarrow> outcome" where
  "service_Delete_entry c cid s =
     (if svMu s then Blocked
      else let x = svHeap s ! c
           in Next [] [] (service_send c InitP
                (TaskDelete (cID x) (word_of_int (Process_Pid InitP x))
                   (word_of_int (Process_ExitStatus InitP x)) (Process_ExitedAt InitP x))
                (s\<lparr>svContainers := AList.delete cid (svContainers s)\<rparr>)))"

subsection \<open>Exec\<close>

definition service_Exec_reserve :: "cref \<Rightarrow> exec_request \<Rightarrow> service \<Rightarrow> outcome" where
  "service_Exec_reserve c r s =
     (case Container_ReserveProcess (xrExecID r) (svHeap s ! c) of
        (False, x) \<Rightarrow> Next [] [] (set_container c x s)
      | (True, x) \<Rightarrow> Next [ExecRun c r] [] (set_container c x s))"

definition service_Exec_run :: "env \<Rightarrow> cref \<Rightarrow> exec_request \<Rightarrow> service \<Rightarrow> outcome" where
  "service_Exec_run E c r s =
     (case Container_Exec E r (svHeap s ! c) of
        (Panic m, _) \<Rightarrow> Crash m
      | (Fail _, x) \<Rightarrow> Next [] [] (set_container c (Container_CancelReservation (xrExecID r) x) s)
      | (Ok i, x) \<Rightarrow> Next [] [] (service_send c (ExecP (length (cExecs x) - 1))
                          (TaskExecAdded (cID x) i) (set_container c x s)))"

section \<open>The system\<close>

definition get_then :: "string \<Rightarrow> (cref \<Rightarrow> action) \<Rightarrow> service \<Rightarrow> outcome" where
  "get_then cid k s =
     (if svMu s then Blocked
      else case getContainer cid s of Ok c \<Rightarrow> Next [k c] [] s | _ \<Rightarrow> Next [] [] s)"

definition service_other ::
  "string \<Rightarrow> (container \<Rightarrow> unit res \<times> container) \<Rightarrow> (string \<Rightarrow> event) option \<Rightarrow> service \<Rightarrow> outcome" where
  "service_other cid f evt s =
     (if svMu s then Blocked
      else case container_op cid f evt s of
             (Panic m, _) \<Rightarrow> Crash m
           | (_, s1) \<Rightarrow> Next [] [] s1)"

fun act :: "env \<Rightarrow> action \<Rightarrow> service \<Rightarrow> outcome" where
  "act E (StartGet cid eid) s = get_then cid (\<lambda>c. PreStart c eid) s"
| "act E (PreStart c eid) s = service_preStart c eid s"
| "act E (RunStart c eid k) s = service_runStart E c eid k s"
| "act E (StartFailed c) s = exec_done_notify c s"
| "act E (SendStarted c eid p) s = service_sendStarted c eid p s"
| "act E (HandleStarted c po k owed) s = handleStarted c po k s"
| "act E (Cleanup k) s = service_cleanup k s"
| "act E (SetExit e c p) s = handleProcessExit_set E e c p s"
| "act E (SendExit e c p) s = handleProcessExit_send e c p s"
| "act E (ExecExited c) s = exec_done_notify c s"
| "act E NextExit s = processExits s"
| "act E (InitExit e c) s = handleInitExit_kill E e c s"
| "act E (InitExitCheck e c) s = handleInitExit_check e c s"
| "act E (AwaitExecs e c ch) s = handleInitExit_await e c ch s"
| "act E (DropCounters c) s = handleInitExit_drop c s"
| "act E (CreateLock r) s = service_Create_lock r s"
| "act E (CreateNew r k) s = service_Create_new E r k s"
| "act E Unlock s = Next [] [] (s\<lparr>svMu := False\<rparr>)"
| "act E (DeleteGet cid eid) s = get_then cid (\<lambda>c. DeleteRun c cid eid) s"
| "act E (DeleteRun c cid eid) s = service_Delete_run E c cid eid s"
| "act E (DeleteEntry c cid) s = service_Delete_entry c cid s"
| "act E (ForgetInitExit c) s =
     Next [] [] (s\<lparr>svContainerInitExit := (svContainerInitExit s)(c := None)\<rparr>)"
| "act E (ExecGet cid r) s = get_then cid (\<lambda>c. ExecReserve c r) s"
| "act E (ExecReserve c r) s = service_Exec_reserve c r s"
| "act E (ExecRun c r) s = service_Exec_run E c r s"
| "act E (OtherCall cid f evt) s = service_other cid f evt s"

text \<open>The requests a client can make.\<close>

definition container_call :: "(container \<Rightarrow> unit res \<times> container) \<Rightarrow> bool" where
  "container_call f \<longleftrightarrow> (\<exists>E eid w h sig all path opts u.
     f = Container_ResizePty E eid w h \<or> f = Container_Pause E \<or> f = Container_Resume E \<or>
     f = Container_Kill E eid sig all \<or> f = Container_CloseIO E eid \<or>
     f = Container_Checkpoint E path opts \<or> f = Container_Update E u)"

fun is_request :: "action \<Rightarrow> bool" where
  "is_request (StartGet _ _) \<longleftrightarrow> True"
| "is_request (CreateLock _) \<longleftrightarrow> True"
| "is_request (DeleteGet _ _) \<longleftrightarrow> True"
| "is_request (ExecGet _ _) \<longleftrightarrow> True"
| "is_request (OtherCall _ f evt) \<longleftrightarrow> container_call f \<and> evt \<in> {None, Some TaskPaused, Some TaskResumed}"
| "is_request _ \<longleftrightarrow> False"

type_synonym system = "service \<times> action list list"

text \<open>A step: some thread acts, a client sends a request, or the runtime reports an exit.\<close>

inductive service_step :: "system \<Rightarrow> system \<Rightarrow> bool" where
  acts: "i < length ts \<Longrightarrow> ts ! i = a # as \<Longrightarrow> act E a s = Next bs new s' \<Longrightarrow>
    service_step (s, ts) (s', ts[i := bs @ as] @ new)"
| request: "is_request a \<Longrightarrow> service_step (s, ts) (s, ts @ [[a]])"
| reports: "service_step (s, ts) (s\<lparr>svEc := svEc s @ [(cid, e)]\<rparr>, ts)"

definition service_start :: "system \<Rightarrow> bool" where
  "service_start x \<longleftrightarrow> x = (NewTaskService, [[NextExit]])"

end
