(* ===== verification/Threads.thy ===== *)
theory Threads
  imports Main
begin

text \<open>
  Concurrent threads as lists of the actions each has still to do. Sums over all pending actions
  count tokens that move between threads; \<open>pending_all\<close> states a property of all of them.
\<close>

section \<open>Sums\<close>

definition weight :: "('a \<Rightarrow> 'm::comm_monoid_add) \<Rightarrow> 'a list list \<Rightarrow> 'm" where
  "weight w ts = sum_list (map (\<lambda>th. sum_list (map w th)) ts)"

lemma weight_append [simp]: "weight w (ts @ us) = weight w ts + weight w us"
  by (simp add: weight_def)

lemma weight_simps [simp]: "weight w [] = 0" "weight w (th # ts) = sum_list (map w th) + weight w ts"
  by (simp_all add: weight_def)

lemma weight_split:
  assumes "i < length ts"
  shows "weight w ts = sum_list (map w (ts ! i)) + weight w (take i ts @ drop (Suc i) ts)"
  using id_take_nth_drop [OF assms] by (metis weight_append weight_simps(2) add.left_commute)

lemma weight_update:
  assumes "i < length ts" "ts ! i = a # as"
  shows "weight w (ts[i := bs @ as] @ new) + w a = weight w ts + sum_list (map w bs) + weight w new"
  using assms weight_split [OF assms(1), of w]
  by (simp add: upd_conv_take_nth_drop ac_simps)

lemma weight_head: "i < length ts \<Longrightarrow> ts ! i = a # as \<Longrightarrow> (w a :: nat) \<le> weight w ts"
  using weight_split [of i ts w] by simp

lemma weight_mono: "(\<And>a. (v a :: nat) \<le> w a) \<Longrightarrow> weight v ts \<le> weight w ts"
proof (induction ts)
  case (Cons th ts)
  have "sum_list (map v th) \<le> sum_list (map w th)"
    using Cons.prems by (induction th) (simp_all add: add_mono)
  with Cons show ?case by (simp add: add_mono)
qed simp

lemma weight_add: "weight (\<lambda>a. v a + w a) ts = weight v ts + (weight w ts :: nat)"
  by (induction ts) (simp_all add: sum_list_addf)

lemma sum_list_zero: "(\<And>b. b \<in> set bs \<Longrightarrow> w b = 0) \<Longrightarrow> sum_list (map w bs) = (0::nat)"
  by (induction bs) auto

section \<open>Properties of all pending actions\<close>

definition pending_all :: "('a \<Rightarrow> bool) \<Rightarrow> 'a list list \<Rightarrow> bool" where
  "pending_all P ts \<longleftrightarrow> (\<forall>th \<in> set ts. \<forall>a \<in> set th. P a)"

lemma pending_all_head: "pending_all P ts \<Longrightarrow> i < length ts \<Longrightarrow> ts ! i = a # as \<Longrightarrow> P a"
  unfolding pending_all_def by (metis list.set_intros(1) nth_mem)

lemma pending_all_step:
  assumes "pending_all P ts" "i < length ts" "ts ! i = a # as"
    and "\<And>x. P x \<Longrightarrow> Q x" "\<forall>b \<in> set bs. Q b" "pending_all Q new"
  shows "pending_all Q (ts[i := bs @ as] @ new)"
proof -
  have "\<forall>x \<in> set as. Q x"
    using assms(1-4) unfolding pending_all_def by (metis list.set_intros(2) nth_mem)
  then have "\<forall>x \<in> set (bs @ as). Q x" using assms(5) by auto
  moreover have "\<forall>th \<in> set ts. \<forall>x \<in> set th. Q x"
    using assms(1,4) by (auto simp: pending_all_def)
  ultimately show ?thesis
    using assms(6) set_update_subset_insert [of ts i "bs @ as"] unfolding pending_all_def by fastforce
qed

lemma pending_all_drop: "pending_all P ts \<Longrightarrow> i < length ts \<Longrightarrow> ts ! i = a # as \<Longrightarrow> pending_all P (ts[i := as])"
  unfolding pending_all_def by (metis list.set_intros(2) nth_mem set_update_subset_insert subset_iff insert_iff)

lemma pending_all_update:
  assumes "pending_all P (ts[i := as])" "i < length ts" "\<forall>b \<in> set bs. P b" "pending_all P new"
  shows "pending_all P (ts[i := bs @ as] @ new)"
proof -
  have "as \<in> set (ts[i := as])" using assms(2) by (simp add: set_update_memI)
  then have "\<forall>b \<in> set (bs @ as). P b" using assms(1,3) by (auto simp: pending_all_def)
  moreover have "th \<in> set (ts[i := as])" if "th \<in> set (ts[i := bs @ as])" "th \<noteq> bs @ as" for th
    using that assms(2) by (auto simp: in_set_conv_nth nth_list_update split: if_splits)
  ultimately show ?thesis using assms(1,4) unfolding pending_all_def by (metis Un_iff set_append)
qed

lemma weight_zero: "weight (w :: 'a \<Rightarrow> nat) ts = 0 \<longleftrightarrow> pending_all (\<lambda>a. w a = 0) ts"
  by (auto simp: weight_def pending_all_def)

text \<open>When the head of a thread carries the whole sum, no other pending action carries any of it.\<close>

lemma weight_only_head:
  assumes "i < length ts" "ts ! i = a # as" "weight (w :: 'a \<Rightarrow> nat) ts \<le> w a"
  shows "pending_all (\<lambda>b. w b = 0) (ts[i := as])"
  using weight_update [OF assms(1,2), of w "[]" "[]"] assms(3) weight_zero [of w "ts[i := as]"] by simp

lemma weight_cong:
  assumes "pending_all (\<lambda>a. v a = w a) ts"
  shows "weight v ts = weight w ts"
  using assms unfolding weight_def pending_all_def
  by (intro arg_cong [where f = sum_list] map_cong refl) (auto intro!: arg_cong [where f = sum_list] map_cong)

lemma weight_sum: "weight (\<lambda>a. \<Sum>n<(k::nat). w n a) ts = (\<Sum>n<k. weight (w n) ts :: nat)"
  by (induction k) (simp_all add: weight_add, simp add: weight_def sum_list_zero)

lemma weight_le_pending: "th \<in> set ts \<Longrightarrow> a \<in> set th \<Longrightarrow> (w a :: nat) \<le> weight w ts"
  using weight_zero by (auto simp: weight_def in_set_conv_decomp)

end
