(* ===== verification/ServiceInvariants.thy ===== *)
theory ServiceInvariants
  imports TaskService Threads "HOL-Library.Multiset"
begin

text \<open>
  Invariants of the task service that hold in every execution: every reference an action or a
  table holds is valid, every container keeps its own invariant under any interleaving of the
  handlers, and there is one container per shim.
\<close>

section \<open>References\<close>

definition pref_ok :: "container list \<Rightarrow> cref \<Rightarrow> pref \<Rightarrow> bool" where
  "pref_ok h c p \<longleftrightarrow> c < length h \<and>
     (case p of InitP \<Rightarrow> True | ExecP i \<Rightarrow> i < length (cExecs (h ! c)))"

fun action_ok :: "service \<Rightarrow> action \<Rightarrow> bool" where
  "action_ok s (PreStart c eid) \<longleftrightarrow> pref_ok (svHeap s) c InitP"
| "action_ok s (RunStart c eid k) \<longleftrightarrow> pref_ok (svHeap s) c InitP \<and> k < length (svExits s)"
| "action_ok s (StartFailed c) \<longleftrightarrow> pref_ok (svHeap s) c InitP"
| "action_ok s (SendStarted c eid p) \<longleftrightarrow> pref_ok (svHeap s) c p"
| "action_ok s (HandleStarted c po k owed) \<longleftrightarrow> k < length (svExits s) \<and> pref_ok (svHeap s) c InitP \<and>
     (case po of None \<Rightarrow> \<not> owed | Some p \<Rightarrow> pref_ok (svHeap s) c p \<and> (owed \<longrightarrow> p \<noteq> InitP))"
| "action_ok s (SetExit e c p) \<longleftrightarrow> pref_ok (svHeap s) c p"
| "action_ok s (SendExit e c p) \<longleftrightarrow> pref_ok (svHeap s) c p"
| "action_ok s (ExecExited c) \<longleftrightarrow> pref_ok (svHeap s) c InitP"
| "action_ok s (InitExit e c) \<longleftrightarrow> pref_ok (svHeap s) c InitP"
| "action_ok s (InitExitCheck e c) \<longleftrightarrow> pref_ok (svHeap s) c InitP"
| "action_ok s (AwaitExecs e c ch) \<longleftrightarrow> pref_ok (svHeap s) c InitP \<and> ch < length (svChans s)"
| "action_ok s (DropCounters c) \<longleftrightarrow> pref_ok (svHeap s) c InitP"
| "action_ok s (CreateNew r k) \<longleftrightarrow> k < length (svExits s)"
| "action_ok s (DeleteRun c cid eid) \<longleftrightarrow> pref_ok (svHeap s) c InitP"
| "action_ok s (DeleteEntry c cid) \<longleftrightarrow> pref_ok (svHeap s) c InitP"
| "action_ok s (ForgetInitExit c) \<longleftrightarrow> pref_ok (svHeap s) c InitP"
| "action_ok s (ExecReserve c r) \<longleftrightarrow> pref_ok (svHeap s) c InitP"
| "action_ok s (ExecRun c r) \<longleftrightarrow> pref_ok (svHeap s) c InitP"
| "action_ok s (OtherCall cid f evt) \<longleftrightarrow> container_call f"
| "action_ok s _ \<longleftrightarrow> True"

text \<open>The exec requests in flight on a container.\<close>

fun exec_in_flight :: "cref \<Rightarrow> action \<Rightarrow> exec_request multiset" where
  "exec_in_flight c (ExecRun c' r) = (if c' = c then {#r#} else {#})"
| "exec_in_flight c _ = {#}"

definition heap_ok :: "service \<Rightarrow> action list list \<Rightarrow> bool" where
  "heap_ok s ts \<longleftrightarrow> (\<forall>c < length (svHeap s). container_inv (svHeap s ! c) \<and>
     mset (cReserved (svHeap s ! c)) = image_mset xrExecID (weight (exec_in_flight c) ts))"

definition tables_ok :: "service \<Rightarrow> bool" where
  "tables_ok s \<longleftrightarrow> (\<forall>x \<in> set (svRunning s). pref_ok (svHeap s) (cpContainer (snd x)) (cpProcess (snd x))) \<and>
     (\<forall>x \<in> set (svContainers s). pref_ok (svHeap s) (snd x) InitP)"

definition service_inv :: "system \<Rightarrow> bool" where
  "service_inv x \<longleftrightarrow> pending_all (action_ok (fst x)) (snd x) \<and> tables_ok (fst x) \<and>
     heap_ok (fst x) (snd x)"

text \<open>A later state in which all references of an earlier one are still valid.\<close>

definition extends :: "service \<Rightarrow> service \<Rightarrow> bool" where
  "extends s s' \<longleftrightarrow> length (svHeap s) \<le> length (svHeap s') \<and>
     (\<forall>c < length (svHeap s). length (cExecs (svHeap s ! c)) \<le> length (cExecs (svHeap s' ! c))) \<and>
     length (svExits s) \<le> length (svExits s') \<and> length (svChans s) \<le> length (svChans s')"

lemma extends_pref: "extends s s' \<Longrightarrow> pref_ok (svHeap s) c p \<Longrightarrow> pref_ok (svHeap s') c p"
  by (auto simp: extends_def pref_ok_def split: pref.splits)

lemma extends_action: "extends s s' \<Longrightarrow> action_ok s a \<Longrightarrow> action_ok s' a"
  by (cases a) (auto simp: extends_pref split: option.splits, auto simp: extends_def)

lemma extends_tables:
  assumes "extends s s'" "tables_ok s" "svRunning s' = svRunning s" "svContainers s' = svContainers s"
  shows "tables_ok s'"
  using assms by (auto simp: tables_ok_def intro: extends_pref)

lemma extends_refl [simp]: "extends s s"
  by (simp add: extends_def)

section \<open>Calls into a container\<close>

text \<open>A call that keeps the container's invariant, its reservations and its exec objects.\<close>

definition container_keeps :: "container \<Rightarrow> container \<Rightarrow> bool" where
  "container_keeps c x \<longleftrightarrow> (container_inv c \<longrightarrow> container_inv x) \<and> cReserved x = cReserved c \<and>
     length (cExecs x) = length (cExecs c)"

lemma container_keeps_trans:
  "container_keeps a b \<Longrightarrow> container_keeps b c \<Longrightarrow> container_keeps a c"
  by (simp add: container_keeps_def)

lemma on_process_execs:
  "length (cExecs (snd (Process_Start E p c))) = length (cExecs c)"
  "length (cExecs (snd (Process_Delete E p c))) = length (cExecs c)"
  "length (cExecs (snd (Process_Kill E sig all p c))) = length (cExecs c)"
  "length (cExecs (snd (Process_Resize E w h p c))) = length (cExecs c)"
  "length (cExecs (snd (Process_SetExited E st p c))) = length (cExecs c)"
  "length (cExecs (snd (Process_CloseIO p c))) = length (cExecs c)"
  "cExecs (snd (on_init f c)) = cExecs c"
  by (simp_all add: Process_Start_def Process_Delete_def Process_Kill_def Process_Resize_def
      Process_SetExited_def Process_CloseIO_def on_process_frame on_init_def split: prod.split)

lemma Container_Start_keeps: "container_keeps c (snd (Container_Start E eid c))"
proof -
  have "length (cExecs (snd (Container_Start E eid c))) = length (cExecs c)"
    using on_process_execs(1) [of E _ c]
    by (auto simp: Container_Start_def split: res.split prod.split) (metis snd_conv)
  then show ?thesis
    by (simp add: container_keeps_def Container_Start_inv Container_Start_reserved)
qed

lemma Container_Delete_keeps: "container_keeps c (snd (Container_Delete E eid c))"
proof -
  have "length (cExecs (snd (Container_Delete E eid c))) = length (cExecs c)"
    by (simp add: Container_Delete_def snd_and_then on_process_execs Container_ProcessRemove_def
        split: res.split)
  then show ?thesis
    by (simp add: container_keeps_def Container_Delete_inv frame_simps)
qed

lemma exit_calls_keep:
  "container_keeps c (snd (and_then (Process_SetExited E st p c) (\<lambda>_. Process_CloseIO p)))"
  by (simp add: container_keeps_def snd_and_then Process_methods_inv frame_simps on_process_execs
      split: res.split)

lemma KillAll_keeps: "container_keeps c (snd (on_init (Init_KillAll E) c))"
  by (simp add: container_keeps_def on_init_inv process_calls frame_simps on_process_execs)

lemma container_call_keeps: "container_call f \<Longrightarrow> container_keeps c (snd (f c))"
  by (auto simp: container_call_def container_keeps_def Container_ResizePty_inv Container_init_ops_inv
      Container_Kill_inv Container_CloseIO_inv frame_simps)
    (simp_all add: Container_ResizePty_def Container_Pause_def Container_Resume_def Container_Kill_def
      Container_CloseIO_def Container_Checkpoint_def Container_Update_def with_process_def
      snd_and_then on_process_execs split: res.split option.split sum.split)

lemma set_container_simps [simp]:
  "svRunning (set_container c x s) = svRunning s" "svContainers (set_container c x s) = svContainers s"
  "svExits (set_container c x s) = svExits s" "svChans (set_container c x s) = svChans s"
  "length (svHeap (set_container c x s)) = length (svHeap s)"
  "svHeap (set_container c x s) = (svHeap s)[c := x]" "svPrimary (set_container c x s) = svPrimary s"
  "svRunningExecs (set_container c x s) = svRunningExecs s"
  "svExecCountSubscribers (set_container c x s) = svExecCountSubscribers s"
  "svContainerInitExit (set_container c x s) = svContainerInitExit s"
  "svEvents (set_container c x s) = svEvents s" "svMu (set_container c x s) = svMu s"
  "svExitSubscribers (set_container c x s) = svExitSubscribers s"
  by (simp_all add: set_container_def)

lemma service_send_simps [simp]:
  "svRunning (service_send c p v s) = svRunning s" "svContainers (service_send c p v s) = svContainers s"
  "svExits (service_send c p v s) = svExits s" "svChans (service_send c p v s) = svChans s"
  "svHeap (service_send c p v s) = svHeap s" "svPrimary (service_send c p v s) = svPrimary s"
  "svRunningExecs (service_send c p v s) = svRunningExecs s"
  "svExecCountSubscribers (service_send c p v s) = svExecCountSubscribers s"
  "svContainerInitExit (service_send c p v s) = svContainerInitExit s"
  "svEvents (service_send c p v s) = svEvents s @ [((c, p), v)]" "svMu (service_send c p v s) = svMu s"
  "svExitSubscribers (service_send c p v s) = svExitSubscribers s"
  by (simp_all add: service_send_def)

lemma extends_same_refs:
  "svHeap s' = svHeap s \<Longrightarrow> length (svExits s) \<le> length (svExits s') \<Longrightarrow>
     length (svChans s) \<le> length (svChans s') \<Longrightarrow> extends s s'"
  by (simp add: extends_def)

lemma extends_set_container:
  assumes "container_keeps (svHeap s ! c) x" shows "extends s (set_container c x s)"
proof -
  have "length (cExecs (svHeap s ! d)) \<le> length (cExecs ((svHeap s)[c := x] ! d))"
    if "d < length (svHeap s)" for d
    using that assms by (cases "d = c") (simp_all add: container_keeps_def)
  then show ?thesis by (simp add: extends_def)
qed

section \<open>Preservation\<close>

lemma in_flight_bounded:
  assumes "pending_all (action_ok s) ts" "length (svHeap s) \<le> c"
  shows "weight (exec_in_flight c) ts = {#}"
proof -
  have z: "exec_in_flight c a = {#}" if "action_ok s a" for a
    using that assms(2) by (cases a) (auto simp: pref_ok_def)
  have "sum_list (map (exec_in_flight c) th) = {#}" if "\<forall>a \<in> set th. action_ok s a" for th
    using that by (induction th) (auto simp: z)
  with assms(1) show ?thesis
    by (induction ts) (auto simp: pending_all_def)
qed

text \<open>An action that keeps reservations: every container after it is a kept one before it.\<close>

definition heap_keeps :: "service \<Rightarrow> service \<Rightarrow> bool" where
  "heap_keeps s s' \<longleftrightarrow> length (svHeap s') = length (svHeap s) \<and>
     (\<forall>c < length (svHeap s). container_keeps (svHeap s ! c) (svHeap s' ! c))"

lemma heap_keeps_refl: "svHeap s' = svHeap s \<Longrightarrow> heap_keeps s s'"
  by (simp add: heap_keeps_def container_keeps_def)

lemma heap_keeps_set:
  "container_keeps (svHeap s ! c) x \<Longrightarrow> svHeap s' = (svHeap s)[c := x] \<Longrightarrow> heap_keeps s s'"
proof -
  assume k: "container_keeps (svHeap s ! c) x" and h: "svHeap s' = (svHeap s)[c := x]"
  have "container_keeps (svHeap s ! d) ((svHeap s)[c := x] ! d)" if "d < length (svHeap s)" for d
    using that k by (cases "d = c") (simp_all add: container_keeps_def)
  with h show ?thesis by (simp add: heap_keeps_def)
qed

definition no_flight :: "action list \<Rightarrow> bool" where
  "no_flight bs \<longleftrightarrow> (\<forall>b \<in> set bs. \<forall>c. exec_in_flight c b = {#})"

lemma no_flight_sum: "no_flight bs \<Longrightarrow> sum_list (map (exec_in_flight c) bs) = {#}"
  by (induction bs) (simp_all add: no_flight_def)

lemma heap_ok_keeps:
  assumes "heap_ok s ts" "i < length ts" "ts ! i = a # as" "heap_keeps s s'"
    and "no_flight (a # bs)" "\<forall>th \<in> set new. no_flight th"
  shows "heap_ok s' (ts[i := bs @ as] @ new)"
proof -
  have "weight (exec_in_flight c) new = {#}" for c
    using assms(6) by (induction new) (simp_all add: no_flight_sum)
  then have z: "exec_in_flight c a = {#}" "sum_list (map (exec_in_flight c) bs) = {#}"
      "weight (exec_in_flight c) new = {#}" for c
    using assms(5) no_flight_sum [of bs c] by (simp_all add: no_flight_def)
  have "weight (exec_in_flight c) (ts[i := bs @ as] @ new) = weight (exec_in_flight c) ts" for c
    using weight_update [OF assms(2,3), of "exec_in_flight c" bs new] z by simp
  with assms(1,4) show ?thesis
    by (auto simp: heap_ok_def heap_keeps_def container_keeps_def)
qed

text \<open>What most actions satisfy, and what is enough for the invariant.\<close>

definition keeps_step :: "service \<Rightarrow> service \<Rightarrow> action list \<Rightarrow> action list list \<Rightarrow> bool" where
  "keeps_step s s' bs new \<longleftrightarrow> extends s s' \<and> heap_keeps s s' \<and> tables_ok s' \<and>
     no_flight bs \<and> (\<forall>th \<in> set new. no_flight th) \<and>
     (\<forall>b \<in> set bs. action_ok s' b) \<and> pending_all (action_ok s') new"

lemma service_inv_keeps:
  assumes "service_inv (s, ts)" "i < length ts" "ts ! i = a # as" "keeps_step s s' bs new"
    and "no_flight [a]"
  shows "service_inv (s', ts[i := bs @ as] @ new)"
proof -
  have "pending_all (action_ok s') (ts[i := bs @ as] @ new)"
    using assms(1-4)
    by (intro pending_all_step [where P = "action_ok s"])
      (auto simp: service_inv_def keeps_step_def intro: extends_action)
  moreover have "heap_ok s' (ts[i := bs @ as] @ new)"
    using assms by (intro heap_ok_keeps [where s = s]) (auto simp: service_inv_def keeps_step_def no_flight_def)
  ultimately show ?thesis using assms(4) by (simp add: service_inv_def keeps_step_def)
qed

lemma keeps_same:
  assumes "tables_ok s" "svHeap s' = svHeap s" "svRunning s' = svRunning s"
    and "svContainers s' = svContainers s"
    and "length (svExits s) \<le> length (svExits s')" "length (svChans s) \<le> length (svChans s')"
    and "no_flight bs" "\<forall>b \<in> set bs. action_ok s' b"
  shows "keeps_step s s' bs []"
  using assms extends_same_refs [of s' s] extends_tables [of s s']
  by (simp add: keeps_step_def heap_keeps_refl pending_all_def)

lemma keeps_container:
  assumes "tables_ok s" "container_keeps (svHeap s ! c) x" "svHeap s' = (svHeap s)[c := x]"
    and "svRunning s' = svRunning s" "svContainers s' = svContainers s"
    and "svExits s' = svExits s" "svChans s' = svChans s"
    and "no_flight bs" "\<forall>b \<in> set bs. action_ok s' b"
  shows "keeps_step s s' bs []"
proof -
  have "extends s s'"
    using extends_set_container [OF assms(2)] assms(3,6,7) by (simp add: extends_def)
  with assms show ?thesis
    using extends_tables [of s s'] heap_keeps_set [OF assms(2,3)]
    by (simp add: keeps_step_def pending_all_def)
qed

lemma set_heap_pref:
  "container_keeps (h ! c) x \<Longrightarrow> pref_ok (h[c := x]) d p = pref_ok h d p"
  by (cases p; cases "d = c") (simp_all add: pref_ok_def container_keeps_def cong: conj_cong)

lemma keeps_get:
  assumes "get_then cid k s = Next bs new s'" "tables_ok s"
    and "\<And>c. pref_ok (svHeap s) c InitP \<Longrightarrow> action_ok s (k c)" "\<And>c. no_flight [k c]"
  shows "keeps_step s s' bs new"
proof -
  have "pref_ok (svHeap s) c InitP" if "map_of (svContainers s) cid = Some c" for c
    using that assms(2) by (auto simp: tables_ok_def dest!: map_of_SomeD)
  then show ?thesis
    using assms
    by (auto simp: get_then_def getContainer_def no_flight_def intro!: keeps_same
        split: if_splits option.splits)
qed

lemma keeps_preStart:
  assumes "service_preStart c eid s = Next bs new s'" "tables_ok s" "pref_ok (svHeap s) c InitP"
  shows "keeps_step s s' bs new"
proof (cases "eid = []")
  case True
  let ?q = "containerPidOf InitP (svHeap s ! c)"
  have s': "s' = snd (preStart (Some c) s)" "new = []"
    "bs = [RunStart c eid (length (svExits s)), Cleanup (length (svExits s))]"
    using assms(1) True by (auto simp: service_preStart_def preStart_def Let_def)
  then have f: "svHeap s' = svHeap s" "svContainers s' = svContainers s" "svChans s' = svChans s"
    "length (svExits s') = Suc (length (svExits s))" "set (svRunning s') \<subseteq> set (svRunning s)"
    by (auto simp: preStart_def Let_def)
  then have "tables_ok s'" using assms(2) by (auto simp: tables_ok_def)
  with f s' assms(3) show ?thesis
    by (simp add: keeps_step_def extends_same_refs heap_keeps_refl no_flight_def pending_all_def
       )
next
  case False
  then show ?thesis
    using assms
    by (auto simp: service_preStart_def preStart_def Let_def no_flight_def pref_ok_def
        intro!: keeps_same split: if_splits)
qed

lemma Container_Start_process:
  assumes "Container_Start E eid c = ((Some p, r), x)" "container_inv c"
  shows "(eid = [] \<longleftrightarrow> p = InitP) \<and> (case p of InitP \<Rightarrow> True | ExecP i \<Rightarrow> i < length (cExecs c))"
  using assms
  by (auto simp: Container_Start_def Container_Process_def container_inv_def exec_entry_ok_def
      split: res.splits prod.splits if_splits option.splits dest!: map_of_SomeD)

lemma keeps_runStart:
  assumes "service_runStart E c eid k s = Next bs new s'" "tables_ok s"
    and "pref_ok (svHeap s) c InitP" "k < length (svExits s)" "container_inv (svHeap s ! c)"
  shows "keeps_step s s' bs new"
proof -
  obtain po r x where cs: "Container_Start E eid (svHeap s ! c) = ((po, r), x)"
    by (cases "Container_Start E eid (svHeap s ! c)") auto
  have keep: "container_keeps (svHeap s ! c) x"
    using Container_Start_keeps [of "svHeap s ! c" E eid] cs by simp
  have s': "s' = set_container c x s" "new = []" "no_flight bs"
    using assms(1) cs by (auto simp: service_runStart_def no_flight_def split: res.splits option.splits if_splits)
  have p: "pref_ok (svHeap s) c p" "eid \<noteq> [] \<longrightarrow> p \<noteq> InitP" if "po = Some p" for p
    using Container_Start_process [of E eid "svHeap s ! c" p r x] cs assms(3,5) that
    by (auto simp: pref_ok_def split: pref.splits)
  have pk: "pref_ok ((svHeap s)[c := x]) d p = pref_ok (svHeap s) d p" for d p
    by (rule set_heap_pref [OF keep])
  have "\<forall>b \<in> set bs. action_ok s' b"
    using assms(1,3,4) cs s'(1) p
    by (auto simp: service_runStart_def pk
        split: res.splits option.splits if_splits)
  with assms(2) keep s' show ?thesis by (auto intro!: keeps_container)
qed

lemma keeps_notify:
  assumes "exec_done_notify c s = Next bs new s'" "tables_ok s"
  shows "keeps_step s s' bs new"
  using assms
  by (auto simp: exec_done_notify_def Let_def no_flight_def intro!: keeps_same
      split: option.splits if_splits)

lemma keeps_handleStarted:
  assumes "handleStarted c po k s = Next bs new s'" "tables_ok s"
    and "pref_ok (svHeap s) c InitP" "\<And>p. po = Some p \<Longrightarrow> pref_ok (svHeap s) c p"
  shows "keeps_step s s' bs new"
proof -
  have f: "svHeap s' = svHeap s" "svContainers s' = svContainers s" "svChans s' = svChans s"
    "svExits s' = svExits s" "new = []" "no_flight bs"
    using assms(1)
    by (auto simp: handleStarted_def Let_def no_flight_def split: if_splits option.splits)
  have "set (svRunning s') \<subseteq> set (svRunning s) \<union>
      {(q, \<lparr>cpContainer = c, cpProcess = p\<rparr>) | q p. po = Some p}"
    using assms(1) by (auto simp: handleStarted_def Let_def split: if_splits option.splits)
  then have "tables_ok s'"
    using assms(2,4) f(1,2) by (fastforce simp: tables_ok_def)
  moreover have "\<forall>b \<in> set bs. action_ok s' b"
    using assms(1,4) f(1)
    by (auto simp: handleStarted_def Let_def split: if_splits option.splits)
  ultimately show ?thesis
    using f by (simp add: keeps_step_def extends_same_refs heap_keeps_refl pending_all_def)
qed

lemma keeps_setExit:
  assumes "handleProcessExit_set E e c p s = Next bs new s'" "tables_ok s" "pref_ok (svHeap s) c p"
  shows "keeps_step s s' bs new"
proof -
  obtain r x where cs: "and_then (Process_SetExited E (exStatus e) p (svHeap s ! c)) (\<lambda>_. Process_CloseIO p) = (r, x)"
    by (cases "and_then (Process_SetExited E (exStatus e) p (svHeap s ! c)) (\<lambda>_. Process_CloseIO p)")
  have keep: "container_keeps (svHeap s ! c) x"
    using exit_calls_keep [of "svHeap s ! c" E "exStatus e" p] cs by simp
  have s': "s' = set_container c x s" "new = []" "bs = [SendExit e c p]"
    using assms(1) cs by (auto simp: handleProcessExit_set_def split: res.splits)
  then show ?thesis
    using assms(2,3) set_heap_pref [OF keep, of c p]
    by (auto intro!: keeps_container [OF assms(2) keep] simp: no_flight_def)
qed

lemma keeps_processExits:
  assumes "processExits s = Next bs new s'" "tables_ok s"
  shows "keeps_step s s' bs new"
proof -
  obtain cid e rest where ec: "svEc s = (cid, e) # rest"
    using assms(1) by (auto simp: processExits_def split: list.splits)
  let ?q = "\<lparr>cpidPid = exPid e, cpidContainer = cid\<rparr>"
  have f: "svHeap s' = svHeap s" "svContainers s' = svContainers s" "svChans s' = svChans s"
    "length (svExits s') = length (svExits s)" "new = []" "set (svRunning s') \<subseteq> set (svRunning s)"
    "bs = concat (map (exit_actions e) (slice_of ?q (svRunning s))) @ [NextExit]"
    using assms(1) ec by (auto simp: processExits_def Let_def)
  have "action_ok s' b \<and> no_flight [b]" if b: "b \<in> set bs" for b
  proof (cases "b = NextExit")
    case False
    with b f(7) obtain cp where "cp \<in> set (slice_of ?q (svRunning s))" "b \<in> set (exit_actions e cp)"
      by auto
    with assms(2) f(1) show ?thesis
      by (auto simp: slice_of_def exit_actions_def tables_ok_def no_flight_def split: if_splits)
  qed (simp add: no_flight_def)
  then have "no_flight bs" "\<forall>b \<in> set bs. action_ok s' b" by (auto simp: no_flight_def)
  moreover have "tables_ok s'" using assms(2) f(1,2,6) by (auto simp: tables_ok_def)
  ultimately show ?thesis
    using f by (simp add: keeps_step_def extends_same_refs heap_keeps_refl pending_all_def)
qed

lemma keeps_initExit:
  assumes "handleInitExit_kill E e c s = Next bs new s'" "tables_ok s" "pref_ok (svHeap s) c InitP"
  shows "keeps_step s s' bs new"
proof (cases "ShouldKillAllOnExit E (cBundle (svHeap s ! c))")
  case True
  note keep = KillAll_keeps [of "svHeap s ! c" E]
  show ?thesis
    using assms(1,3) True set_heap_pref [OF keep, of c InitP]
    by (auto simp: handleInitExit_kill_def no_flight_def intro!: keeps_container [OF assms(2) keep])
next
  case False
  with assms show ?thesis
    by (auto simp: handleInitExit_kill_def no_flight_def intro!: keeps_same)
qed

lemma keeps_initCheck:
  assumes "handleInitExit_check e c s = Next bs new s'" "tables_ok s" "pref_ok (svHeap s) c InitP"
  shows "keeps_step s s' bs new"
proof (cases "svRunningExecs s c = 0")
  case True
  with assms show ?thesis
    by (auto simp: handleInitExit_check_def Let_def no_flight_def intro!: keeps_same)
next
  case False
  with assms have s': "svHeap s' = svHeap s" "svRunning s' = svRunning s" "svContainers s' = svContainers s"
    "svExits s' = svExits s" "length (svChans s') = Suc (length (svChans s))" "bs = []"
    "new = [[AwaitExecs e c (length (svChans s))]]"
    by (auto simp: handleInitExit_check_def Let_def split: if_splits)
  then show ?thesis
    using assms(2,3) extends_same_refs [of s' s] extends_tables [of s s']
    by (simp add: keeps_step_def heap_keeps_refl no_flight_def pending_all_def)
qed

lemma keeps_await:
  assumes "handleInitExit_await e c ch s = Next bs new s'" "tables_ok s"
    and "pref_ok (svHeap s) c InitP" "ch < length (svChans s)"
  shows "keeps_step s s' bs new"
  using assms
  by (auto simp: handleInitExit_await_def Let_def no_flight_def intro!: keeps_same split: list.splits if_splits)

lemma keeps_delete:
  assumes "service_Delete_run E c cid eid s = Next bs new s'" "tables_ok s" "pref_ok (svHeap s) c InitP"
  shows "keeps_step s s' bs new"
proof -
  obtain r x where cs: "Container_Delete E eid (svHeap s ! c) = (r, x)"
    by (cases "Container_Delete E eid (svHeap s ! c)")
  have keep: "container_keeps (svHeap s ! c) x"
    using Container_Delete_keeps [of "svHeap s ! c" E eid] cs by simp
  show ?thesis
    using assms(1,3) cs set_heap_pref [OF keep, of c InitP]
    by (auto simp: service_Delete_run_def no_flight_def intro!: keeps_container [OF assms(2) keep]
        split: res.splits)
qed

lemma keeps_deleteEntry:
  assumes "service_Delete_entry c cid s = Next bs new s'" "tables_ok s"
  shows "keeps_step s s' bs new"
proof -
  have f: "svHeap s' = svHeap s" "svRunning s' = svRunning s" "bs = []" "new = []"
    "svExits s' = svExits s" "svChans s' = svChans s" "svContainers s' = AList.delete cid (svContainers s)"
    using assms(1) by (auto simp: service_Delete_entry_def Let_def split: if_splits)
  then have "tables_ok s'" using assms(2) by (auto simp: tables_ok_def AList.delete_eq)
  with f show ?thesis
    by (simp add: keeps_step_def extends_same_refs heap_keeps_refl no_flight_def pending_all_def)
qed

lemma keeps_other:
  assumes "service_other cid f evt s = Next bs new s'" "tables_ok s" "container_call f"
  shows "keeps_step s s' bs new"
proof (cases "getContainer cid s")
  case (Ok c)
  obtain r x where fx: "f (svHeap s ! c) = (r, x)" by (cases "f (svHeap s ! c)") simp
  then have keep: "container_keeps (svHeap s ! c) x"
    using container_call_keeps [OF assms(3), of "svHeap s ! c"] by simp
  show ?thesis
    using assms(1) Ok fx
    by (auto simp: service_other_def container_op_def no_flight_def
        intro!: keeps_container [OF assms(2) keep] split: if_splits res.splits option.splits)
qed (use assms(1,2) in \<open>auto simp: service_other_def container_op_def no_flight_def
    intro!: keeps_same split: if_splits\<close>)

text \<open>Every action that neither reserves an exec id nor creates a container keeps the references.\<close>

fun plain_action :: "action \<Rightarrow> bool" where
  "plain_action (ExecReserve _ _) \<longleftrightarrow> False"
| "plain_action (ExecRun _ _) \<longleftrightarrow> False"
| "plain_action (CreateNew _ _) \<longleftrightarrow> False"
| "plain_action _ \<longleftrightarrow> True"

lemma keeps_plain:
  assumes "act E a s = Next bs new s'" "tables_ok s" "action_ok s a" "plain_action a"
    and "\<And>c. c < length (svHeap s) \<Longrightarrow> container_inv (svHeap s ! c)"
  shows "keeps_step s s' bs new"
proof (cases a)
  case (StartGet cid eid)
  with assms(1) have "get_then cid (\<lambda>c. PreStart c eid) s = Next bs new s'" by simp
  from keeps_get [OF this assms(2)] show ?thesis by (simp add: no_flight_def)
next
  case (DeleteGet cid eid)
  with assms(1) have "get_then cid (\<lambda>c. DeleteRun c cid eid) s = Next bs new s'" by simp
  from keeps_get [OF this assms(2)] show ?thesis by (simp add: no_flight_def)
next
  case (ExecGet cid r)
  with assms(1) have "get_then cid (\<lambda>c. ExecReserve c r) s = Next bs new s'" by simp
  from keeps_get [OF this assms(2)] show ?thesis by (simp add: no_flight_def)
next
  case (PreStart c eid)
  with assms show ?thesis using keeps_preStart by simp
next
  case (RunStart c eid k)
  with assms show ?thesis by (auto intro!: keeps_runStart [of E c eid k] simp: pref_ok_def)
next
  case (StartFailed c)
  with assms show ?thesis using keeps_notify by simp
next
  case (ExecExited c)
  with assms show ?thesis using keeps_notify by simp
next
  case (HandleStarted c po k owed)
  with assms show ?thesis by (auto intro!: keeps_handleStarted [of c po k])
next
  case (SetExit e c p)
  with assms show ?thesis using keeps_setExit by simp
next
  case NextExit
  with assms show ?thesis using keeps_processExits by simp
next
  case (InitExit e c)
  with assms show ?thesis using keeps_initExit by simp
next
  case (InitExitCheck e c)
  with assms show ?thesis using keeps_initCheck by simp
next
  case (AwaitExecs e c ch)
  with assms show ?thesis using keeps_await by simp
next
  case (DeleteRun c cid eid)
  with assms show ?thesis using keeps_delete by simp
next
  case (DeleteEntry c cid)
  with assms show ?thesis using keeps_deleteEntry by simp
next
  case (OtherCall cid f evt)
  with assms show ?thesis using keeps_other by simp
qed (use assms in \<open>auto intro!: keeps_same simp: no_flight_def service_sendStarted_def
    service_cleanup_def handleProcessExit_send_def handleInitExit_drop_def service_Create_lock_def
    preStart_def Let_def pref_ok_def split: if_splits\<close>)

text \<open>Actions that change the reservations of one container.\<close>

lemma service_inv_reserves:
  assumes inv: "service_inv (s, ts)" and i: "i < length ts" "ts ! i = a # as"
    and c: "c < length (svHeap s)" and h: "svHeap s' = (svHeap s)[c := x]"
    and same: "svRunning s' = svRunning s" "svContainers s' = svContainers s"
      "svExits s' = svExits s" "svChans s' = svChans s"
    and x: "container_inv x" "length (cExecs (svHeap s ! c)) \<le> length (cExecs x)"
    and m: "mset (cReserved x) + image_mset xrExecID (exec_in_flight c a) =
      mset (cReserved (svHeap s ! c)) + image_mset xrExecID (sum_list (map (exec_in_flight c) bs))"
    and o: "\<And>d. d \<noteq> c \<Longrightarrow> exec_in_flight d a = {#} \<and> sum_list (map (exec_in_flight d) bs) = {#}"
    and ok: "\<forall>b \<in> set bs. action_ok s' b"
  shows "service_inv (s', ts[i := bs @ as])"
proof -
  have ext: "extends s s'"
    using x(2) c same h by (auto simp: extends_def nth_list_update)
  have w: "weight (exec_in_flight d) (ts[i := bs @ as]) + exec_in_flight d a =
      weight (exec_in_flight d) ts + sum_list (map (exec_in_flight d) bs)" for d
    using weight_update [OF i, of "exec_in_flight d" bs "[]"] by simp
  have "container_inv (svHeap s' ! d) \<and>
      mset (cReserved (svHeap s' ! d)) = image_mset xrExecID (weight (exec_in_flight d) (ts[i := bs @ as]))"
    if d: "d < length (svHeap s')" for d
  proof (cases "d = c")
    case False
    then have "weight (exec_in_flight d) (ts[i := bs @ as]) = weight (exec_in_flight d) ts"
      using w [of d] o [of d] by simp
    with False d h inv show ?thesis by (simp add: service_inv_def heap_ok_def)
  next
    case True
    have "mset (cReserved (svHeap s ! c)) = image_mset xrExecID (weight (exec_in_flight c) ts)"
      using inv c by (simp add: service_inv_def heap_ok_def)
    with m have "mset (cReserved x) + image_mset xrExecID (exec_in_flight c a) =
        image_mset xrExecID (weight (exec_in_flight c) (ts[i := bs @ as]) + exec_in_flight c a)"
      unfolding w [of c] by simp
    then show ?thesis using True x(1) c h by simp
  qed
  then have "heap_ok s' (ts[i := bs @ as])" by (simp add: heap_ok_def)
  moreover have "tables_ok s'"
    using extends_tables [OF ext] inv same by (simp add: service_inv_def)
  moreover have "pending_all (action_ok s') (ts[i := bs @ as] @ [])"
    using inv i ok extends_action [OF ext]
    by (intro pending_all_step [where P = "action_ok s"]) (auto simp: service_inv_def pending_all_def)
  ultimately show ?thesis by (simp add: service_inv_def)
qed

lemma service_inv_head:
  assumes "service_inv (s, ts)" "i < length ts" "ts ! i = a # as"
  shows "action_ok s a" "tables_ok s" "\<And>c. c < length (svHeap s) \<Longrightarrow> container_inv (svHeap s ! c)"
  using assms pending_all_head [of "action_ok s" ts i a as]
  by (auto simp: service_inv_def heap_ok_def)

lemma service_inv_ExecReserve:
  assumes inv: "service_inv (s, ts)" and i: "i < length ts" "ts ! i = ExecReserve c r # as"
    and step: "service_Exec_reserve c r s = Next bs new s'"
  shows "service_inv (s', ts[i := bs @ as] @ new)"
proof -
  have c: "c < length (svHeap s)" and ci: "container_inv (svHeap s ! c)"
    using service_inv_head [OF inv i] by (auto simp: pref_ok_def)
  obtain b x where r: "Container_ReserveProcess (xrExecID r) (svHeap s ! c) = (b, x)"
    by (cases "Container_ReserveProcess (xrExecID r) (svHeap s ! c)")
  have xe: "cExecs x = cExecs (svHeap s ! c)"
    using r by (auto simp: Container_ReserveProcess_def split: if_splits)
  show ?thesis
  proof (cases b)
    case True
    then have e: "bs = [ExecRun c r]" "new = []" "s' = set_container c x s"
      using step r by (auto simp: service_Exec_reserve_def)
    show ?thesis
      using ReserveProcess_inv [OF ci, of "xrExecID r" x] r True c xe
      unfolding e append_Nil2
      by (intro service_inv_reserves [OF inv i c]) (auto simp: pref_ok_def)
  next
    case False
    then have e: "bs = []" "new = []" "s' = set_container c x s" "x = svHeap s ! c"
      using step r by (auto simp: service_Exec_reserve_def Container_ReserveProcess_def split: if_splits)
    show ?thesis
      using ci c unfolding e(1,2,3) append_Nil2
      by (intro service_inv_reserves [OF inv i c]) (auto simp: e(4))
  qed
qed

lemma in_flight_reserved:
  assumes inv: "service_inv (s, ts)" and i: "i < length ts" "ts ! i = ExecRun c r # as"
  shows "xrExecID r \<in> set (cReserved (svHeap s ! c))"
proof -
  have c: "c < length (svHeap s)" using service_inv_head [OF inv i] by (auto simp: pref_ok_def)
  have "weight (exec_in_flight c) ts = {#r#} + (sum_list (map (exec_in_flight c) as) +
      weight (exec_in_flight c) (take i ts @ drop (Suc i) ts))"
    using weight_split [OF i(1), of "exec_in_flight c"] i(2) by simp
  then have "r \<in># weight (exec_in_flight c) ts" by simp
  then have "xrExecID r \<in># mset (cReserved (svHeap s ! c))"
    using inv c by (simp add: service_inv_def heap_ok_def)
  then show ?thesis by simp
qed

lemma mset_removeAll_distinct:
  "distinct xs \<Longrightarrow> x \<in> set xs \<Longrightarrow> mset (removeAll x xs) + {#x#} = mset xs"
  by (simp add: distinct_remove1_removeAll [symmetric])

lemma service_inv_ExecRun:
  assumes inv: "service_inv (s, ts)" and i: "i < length ts" "ts ! i = ExecRun c r # as"
    and step: "service_Exec_run E c r s = Next bs new s'"
  shows "service_inv (s', ts[i := bs @ as] @ new)"
proof -
  have c: "c < length (svHeap s)" and ci: "container_inv (svHeap s ! c)"
    using service_inv_head [OF inv i] by (auto simp: pref_ok_def)
  note res = in_flight_reserved [OF inv i]
  have d: "distinct (cReserved (svHeap s ! c))" and new_id: "xrExecID r \<notin> fst ` set (cProcesses (svHeap s ! c))"
    using ci res by (auto simp: container_inv_def)
  obtain w y where w: "Container_Exec E r (svHeap s ! c) = (w, y)"
    by (cases "Container_Exec E r (svHeap s ! c)")
  show ?thesis
  proof (cases w)
    case (Ok eid)
    obtain e where e: "eId e = xrExecID r" "y = Container_ProcessAdd e (svHeap s ! c)"
      using Container_Exec_ok w Ok by blast
    have e': "bs = []" "new = []"
        "s' = service_send c (ExecP (length (cExecs y) - 1)) (TaskExecAdded (cID y) eid) (set_container c y s)"
      using step w Ok by (auto simp: service_Exec_run_def)
    have y: "container_inv y" using ProcessAdd_inv [OF ci, of e] new_id e by simp
    show ?thesis
      using y c mset_removeAll_distinct [OF d res] e unfolding e' append_Nil2
      by (intro service_inv_reserves [OF inv i c]) (auto simp: Container_ProcessAdd_def)
  next
    case (Fail g)
    then have y: "y = svHeap s ! c" using Container_Exec_failed w by blast
    have e': "bs = []" "new = []" "s' = set_container c (Container_CancelReservation (xrExecID r) y) s"
      using step w Fail by (auto simp: service_Exec_run_def)
    have "container_inv (Container_CancelReservation (xrExecID r) y)"
      using ci y by (auto simp: container_inv_def Container_CancelReservation_def distinct_removeAll)
    then show ?thesis
      using c mset_removeAll_distinct [OF d res] y unfolding e' append_Nil2
      by (intro service_inv_reserves [OF inv i c]) (auto simp: Container_CancelReservation_def)
  next
    case (Panic m)
    with step w show ?thesis by (simp add: service_Exec_run_def)
  qed
qed

text \<open>Creation: a fresh container has no requests in flight.\<close>

lemma service_inv_new_container:
  assumes inv: "service_inv (s, ts)" and i: "i < length ts" "ts ! i = a # as"
    and h: "svHeap s' = svHeap s @ [x]"
    and same: "svRunning s' = svRunning s" "svExits s' = svExits s" "svChans s' = svChans s"
    and cs: "\<forall>y \<in> set (svContainers s'). y \<in> set (svContainers s) \<or> snd y = length (svHeap s)"
    and x: "container_inv x" "cReserved x = []"
    and bs: "no_flight (a # bs)" "\<forall>b \<in> set bs. action_ok s' b"
  shows "service_inv (s', ts[i := bs @ as])"
proof -
  have ext: "extends s s'" using h same by (simp add: extends_def nth_append)
  have "pending_all (action_ok s') (ts[i := bs @ as] @ [])"
    using inv i bs(2) extends_action [OF ext]
    by (intro pending_all_step [where P = "action_ok s"]) (auto simp: service_inv_def pending_all_def)
  then have p: "pending_all (action_ok s') (ts[i := bs @ as])" by simp
  have w: "weight (exec_in_flight d) (ts[i := bs @ as]) = weight (exec_in_flight d) ts" for d
    using weight_update [OF i, of "exec_in_flight d" bs "[]"] bs(1) no_flight_sum [of bs d]
    by (simp add: no_flight_def)
  have "weight (exec_in_flight (length (svHeap s))) ts = {#}"
    using inv by (intro in_flight_bounded [where s = s]) (simp_all add: service_inv_def)
  with inv x w h have "heap_ok s' (ts[i := bs @ as])"
    by (auto simp: service_inv_def heap_ok_def nth_append less_Suc_eq)
  moreover have "tables_ok s'"
  proof -
    have "pref_ok (svHeap s') (cpContainer (snd y)) (cpProcess (snd y))" if "y \<in> set (svRunning s')" for y
      using that inv same extends_pref [OF ext] by (auto simp: service_inv_def tables_ok_def)
    moreover have "pref_ok (svHeap s') (snd y) InitP" if y: "y \<in> set (svContainers s')" for y
    proof -
      consider "y \<in> set (svContainers s)" | "snd y = length (svHeap s)" using cs y by blast
      then show ?thesis
      proof cases
        case 1
        then show ?thesis using inv extends_pref [OF ext] by (simp add: service_inv_def tables_ok_def)
      qed (simp add: h pref_ok_def)
    qed
    ultimately show ?thesis by (simp add: tables_ok_def)
  qed
  ultimately show ?thesis using p by (simp add: service_inv_def)
qed

lemma update_subset: "y \<in> set (AList.update k v al) \<Longrightarrow> y \<in> set al \<or> y = (k, v)"
  by (induction al) (auto split: if_splits)

lemma Create_new_cases:
  assumes "service_Create_new E r k s = Next bs new s'"
  obtains (fails) fs where "bs = []" "new = []" "s' = s\<lparr>svFiles := fs\<rparr>"
  | (second) x where "fst (NewContainer E r (svFiles s)) = Ok x" "svPrimary s \<noteq> []" "bs = []" "new = []"
      "s' = s\<lparr>svFiles := fst (snd (NewContainer E r (svFiles s))), svHeap := svHeap s @ [x]\<rparr>"
  | (first) x where "fst (NewContainer E r (svFiles s)) = Ok x" "svPrimary s = []" "new = []"
      "bs = [HandleStarted (length (svHeap s)) (Some InitP) k False]"
      "s' = service_send (length (svHeap s)) InitP (TaskCreate (crID r) (word_of_int (Container_Pid x)))
         (s\<lparr>svFiles := fst (snd (NewContainer E r (svFiles s))), svHeap := svHeap s @ [x],
            svPrimary := crID r,
            svContainers := AList.update (crID r) (length (svHeap s)) (svContainers s)\<rparr>)"
proof -
  obtain w fs fx where nc: "NewContainer E r (svFiles s) = (w, fs, fx)"
    by (cases "NewContainer E r (svFiles s)") auto
  show thesis
  proof (cases "serveGrpcFails E")
    case (Some e)
    with assms fails [of "svFiles s"] show thesis by (simp add: service_Create_new_def)
  next
    case None
    show thesis
    proof (cases "ociReadSpec E (filepath_Join [crBundle r, ''config.json''])")
      case (Inl e)
      with None assms fails [of "svFiles s"] show thesis by (simp add: service_Create_new_def)
    next
      case (Inr sp)
      show thesis
      proof (cases w)
        case (Fail g)
        with None Inr nc assms fails [of fs] show thesis by (simp add: service_Create_new_def)
      next
        case (Panic m)
        with None Inr nc assms show thesis by (simp add: service_Create_new_def)
      next
        case (Ok x)
        show thesis
        proof (cases "svPrimary s = []")
          case True
          with None Inr nc Ok assms first [of x] show thesis
            by (simp add: service_Create_new_def Let_def)
        next
          case False
          with None Inr nc Ok assms second [of x] show thesis
            by (simp add: service_Create_new_def Let_def)
        qed
      qed
    qed
  qed
qed

lemma NewContainer_reserved: "fst (NewContainer E r fs) = Ok x \<Longrightarrow> cReserved x = []"
  by (elim NewContainer_ok) simp

lemma service_inv_CreateNew:
  assumes inv: "service_inv (s, ts)" and i: "i < length ts" "ts ! i = CreateNew r k # as"
    and step: "service_Create_new E r k s = Next bs new s'"
  shows "service_inv (s', ts[i := bs @ as] @ new)"
  using step
proof (cases rule: Create_new_cases)
  case (fails fs)
  have "keeps_step s s' bs []"
    using service_inv_head(2) [OF inv i] fails by (intro keeps_same) (simp_all add: no_flight_def)
  with fails show ?thesis by (intro service_inv_keeps [OF inv i]) (simp_all add: no_flight_def)
next
  case (second x)
  then show ?thesis
    using service_inv_new_container [OF inv i, of s' x bs] NewContainer_inv [of E r "svFiles s" x]
      NewContainer_reserved [of E r "svFiles s" x]
    by (simp add: no_flight_def)
next
  case (first x)
  have "\<forall>y \<in> set (svContainers s'). y \<in> set (svContainers s) \<or> snd y = length (svHeap s)"
    using first(5) update_subset by fastforce
  then show ?thesis
    using service_inv_new_container [OF inv i, of s' x bs] NewContainer_inv [of E r "svFiles s" x]
      NewContainer_reserved [of E r "svFiles s" x] first service_inv_head(1) [OF inv i]
    by (simp add: no_flight_def pref_ok_def)
qed

lemma service_inv_act:
  assumes inv: "service_inv (s, ts)" and i: "i < length ts" "ts ! i = a # as"
    and step: "act E a s = Next bs new s'"
  shows "service_inv (s', ts[i := bs @ as] @ new)"
proof (cases "plain_action a")
  case True
  note head = service_inv_head [OF inv i]
  have "no_flight [a]" using True by (cases a) (simp_all add: no_flight_def)
  with keeps_plain [OF step head(2,1) True head(3)] show ?thesis
    by (intro service_inv_keeps [OF inv i])
next
  case False
  then consider c r where "a = ExecReserve c r" | c r where "a = ExecRun c r" | r k where "a = CreateNew r k"
    by (cases a) auto
  then show ?thesis
  proof cases
    case 1
    with step i show ?thesis by (intro service_inv_ExecReserve [OF inv]) simp_all
  next
    case 2
    with step i show ?thesis by (intro service_inv_ExecRun [OF inv]) simp_all
  next
    case 3
    with step i show ?thesis by (intro service_inv_CreateNew [OF inv]) simp_all
  qed
qed

lemma request_no_flight: "is_request a \<Longrightarrow> no_flight [a] \<and> action_ok s a"
  by (cases a) (simp_all add: no_flight_def)

lemma service_inv_step: "service_step x y \<Longrightarrow> service_inv x \<Longrightarrow> service_inv y"
proof (induction rule: service_step.induct)
  case (acts i ts a as E s bs new s')
  then show ?case using service_inv_act by blast
next
  case (request a s ts)
  then show ?case
    using request_no_flight [of a s]
    by (auto simp: service_inv_def pending_all_def heap_ok_def no_flight_def)
next
  case (reports s ts cid e)
  have "extends s (s\<lparr>svEc := svEc s @ [(cid, e)]\<rparr>)" by (simp add: extends_def)
  with reports extends_action [OF this] show ?case
    by (auto simp: service_inv_def heap_ok_def tables_ok_def pending_all_def)
qed

interpretation service_life: inductive_invariant service_start service_step service_inv
proof
  show "service_start x \<Longrightarrow> service_inv x" for x
    by (simp add: service_start_def service_inv_def NewTaskService_def pending_all_def tables_ok_def
        heap_ok_def)
qed (rule service_inv_step)

section \<open>One container per shim\<close>

lemma container_op_tables:
  "svPrimary (snd (container_op cid f evt s)) = svPrimary s \<and>
   svContainers (snd (container_op cid f evt s)) = svContainers s"
  by (simp add: container_op_def split: res.split prod.split option.split)

lemma service_other_tables:
  "service_other cid f evt s = Next bs new s' \<Longrightarrow> svPrimary s' = svPrimary s \<and> svContainers s' = svContainers s"
  using container_op_tables [of cid f evt s]
  by (cases "container_op cid f evt s"; cases "fst (container_op cid f evt s)")
    (auto simp: service_other_def split: if_splits)

lemma act_tables:
  assumes "act E a s = Next bs new s'" "\<And>r k. a \<noteq> CreateNew r k"
  shows "svPrimary s' = svPrimary s \<and> set (svContainers s') \<subseteq> set (svContainers s)"
proof (cases a)
  case (OtherCall cid f evt)
  with assms(1) show ?thesis using service_other_tables by simp
next
  case (DeleteEntry c cid)
  with assms(1) show ?thesis
    by (auto simp: service_Delete_entry_def Let_def AList.delete_eq split: if_splits)
next
  case (CreateNew r k)
  with assms(2) show ?thesis by blast
next
  case (RunStart c eid k)
  with assms(1) show ?thesis
    by (auto simp: service_runStart_def split: prod.splits res.splits option.splits)
next
  case (SetExit e c p)
  with assms(1) show ?thesis
    by (auto simp: handleProcessExit_set_def split: prod.splits res.splits)
next
  case (DeleteRun c cid eid)
  with assms(1) show ?thesis
    by (auto simp: service_Delete_run_def split: prod.splits res.splits)
next
  case (ExecReserve c r)
  with assms(1) show ?thesis
    by (auto simp: service_Exec_reserve_def split: prod.splits bool.splits)
next
  case (ExecRun c r)
  with assms(1) show ?thesis
    by (auto simp: service_Exec_run_def split: prod.splits res.splits)
qed (use assms(1) in \<open>auto simp: get_then_def service_preStart_def preStart_def exec_done_notify_def
    service_sendStarted_def handleStarted_def service_cleanup_def handleProcessExit_send_def
    processExits_def handleInitExit_kill_def handleInitExit_check_def handleInitExit_await_def
    handleInitExit_drop_def service_Create_lock_def Let_def
    split: if_splits option.splits list.splits res.splits\<close>)

definition primary_inv :: "system \<Rightarrow> bool" where
  "primary_inv x \<longleftrightarrow> (\<forall>y \<in> set (svContainers (fst x)). fst y = svPrimary (fst x) \<or> fst y = [])"

lemma primary_step:
  assumes "service_step x y" "primary_inv x"
  shows "primary_inv y \<and> (svPrimary (fst x) \<noteq> [] \<longrightarrow>
    svPrimary (fst y) = svPrimary (fst x) \<and> set (svContainers (fst y)) \<subseteq> set (svContainers (fst x)))"
  using assms
proof (induction rule: service_step.induct)
  case (acts i ts a as E s bs new s')
  show ?case
  proof (cases "\<exists>r k. a = CreateNew r k")
    case False
    with act_tables [OF acts.hyps(3)] acts.prems show ?thesis by (auto simp: primary_inv_def)
  next
    case True
    then obtain r k where "service_Create_new E r k s = Next bs new s'" using acts.hyps(3) by auto
    then show ?thesis
      using acts.prems by (cases rule: Create_new_cases) (auto simp: primary_inv_def dest!: update_subset)
  qed
qed (simp_all add: primary_inv_def)

interpretation service_primary: inductive_invariant service_start service_step primary_inv
  by unfold_locales
    (simp_all add: service_start_def primary_step, simp add: primary_inv_def NewTaskService_def)

section \<open>An execution\<close>

lemma service_started: "reachable service_start service_step (NewTaskService, [[NextExit]])"
  by (rule reachable.at_start) (simp add: service_start_def)

lemma service_acts:
  assumes "reachable service_start service_step (s, ts)" "i < length ts" "ts ! i = a # as"
    and "act E a s = Next bs new s'"
  shows "reachable service_start service_step (s', ts[i := bs @ as] @ new)"
  using assms by (blast intro: reachable.by_step service_step.acts)

text \<open>A run that creates the terminal container of the earlier examples.\<close>

definition after_lock :: service where
  "after_lock = snd (preStart None (NewTaskService\<lparr>svMu := True\<rparr>))"

definition after_create :: service where
  "after_create = (case act env_ok (CreateNew tty_create_request 0) after_lock of Next bs new s \<Rightarrow> s)"

lemma create_act:
  "act env_ok (CreateNew tty_create_request 0) after_lock =
     Next [HandleStarted 0 (Some InitP) 0 False] [] after_create \<and>
   svHeap after_create = [tty_container] \<and> svPrimary after_create = ''c1'' \<and>
   svContainers after_create = [(''c1'', 0)] \<and> svRunning after_create = [] \<and>
   svExits after_create = [\<lambda>_. None] \<and> svRunningExecs after_create = (\<lambda>_. 0)"
proof -
  obtain fs fx where n: "NewContainer env_ok tty_create_request (\<lambda>_. None) = (Ok tty_container, fs, fx)"
    using tty_container_new by (metis prod.collapse)
  have e: "serveGrpcFails env_ok = None" "ociReadSpec env_ok b = Inr \<lparr>linuxNamespaces = Some [(''pid'', [])]\<rparr>" for b
    by (simp_all add: env_ok_def)
  have r: "crID tty_create_request = ''c1''" by (simp add: tty_create_request_def)
  show ?thesis
    by (simp add: after_create_def service_Create_new_def after_lock_def preStart_def NewTaskService_def
        Let_def n e r service_send_def)
qed

lemma reachable_after_create:
  "reachable service_start service_step
     (after_create, [[NextExit], [HandleStarted 0 (Some InitP) 0 False, Cleanup 0, Unlock]])"
proof -
  have "reachable service_start service_step (NewTaskService, [[NextExit], [CreateLock tty_create_request]])"
    using reachable.by_step [OF service_started service_step.request [of "CreateLock tty_create_request"]] by simp
  from service_acts [OF this, of 1] have "reachable service_start service_step
      (after_lock, [[NextExit], [CreateNew tty_create_request 0, Cleanup 0, Unlock]])"
    by (simp add: service_Create_lock_def preStart_def after_lock_def NewTaskService_def Let_def)
  from service_acts [OF this, of 1 "CreateNew tty_create_request 0" "[Cleanup 0, Unlock]" env_ok] create_act
  show ?thesis by simp
qed

section \<open>Properties\<close>

text \<open>
  C3: In every reachable state of the task service, whatever the interleaving of the handlers and
  of the exit goroutines: every reference held by a pending action or a table is valid, every
  container ever created satisfies its invariant (unique exec ids, init process in a reachable
  state), and the ids reserved in it are exactly those of its exec requests in flight.
\<close>

theorem service_reachable_wf:
  assumes "reachable service_start service_step (s, ts)"
  shows "(\<forall>th \<in> set ts. \<forall>a \<in> set th. action_ok s a) \<and>
    (\<forall>x \<in> set (svRunning s). pref_ok (svHeap s) (cpContainer (snd x)) (cpProcess (snd x))) \<and>
    (\<forall>c < length (svHeap s). container_inv (svHeap s ! c) \<and>
       mset (cReserved (svHeap s ! c)) = image_mset xrExecID (weight (exec_in_flight c) ts))"
  using service_life.reachable_inv [OF assms]
  by (simp add: service_inv_def pending_all_def tables_ok_def heap_ok_def)

theorem service_reachable_wf_witness:
  "pref_ok (svHeap after_create) 0 InitP \<and> container_inv (svHeap after_create ! 0) \<and>
   cReserved (svHeap after_create ! 0) = []"
  using service_reachable_wf [OF reachable_after_create] by (simp add: create_act)

text \<open>
  C33: A shim serves one container for its whole life: from the first container that is registered
  on, the primary container never changes and no container is ever added to the table, under any sequence
  of requests; in particular a container that has been deleted is never replaced.
\<close>

theorem one_container:
  assumes "reachable service_start service_step x" "svPrimary (fst x) \<noteq> []"
    and "reachable (\<lambda>y. y = x) service_step y"
  shows "svPrimary (fst y) = svPrimary (fst x) \<and> set (svContainers (fst y)) \<subseteq> set (svContainers (fst x)) \<and>
    fst ` set (svContainers (fst y)) \<subseteq> {svPrimary (fst x), []}"
proof -
  have "primary_inv y \<and> svPrimary (fst y) = svPrimary (fst x) \<and>
      set (svContainers (fst y)) \<subseteq> set (svContainers (fst x))"
    using assms(3)
  proof (induction rule: reachable.induct)
    case (at_start y)
    then show ?case using service_primary.reachable_inv [OF assms(1)] by simp
  next
    case (by_step y z)
    then show ?case using primary_step [of y z] assms(2) by auto
  qed
  then show ?thesis by (auto simp: primary_inv_def)
qed

theorem one_container_witness:
  "svPrimary (after_create\<lparr>svEc := svEc after_create @ [(''c1'', \<lparr>exPid = 42, exStatus = 0\<rparr>)]\<rparr>) = ''c1''"
proof -
  let ?x = "(after_create, [[NextExit], [HandleStarted 0 (Some InitP) 0 False, Cleanup 0, Unlock]])"
  let ?y = "(after_create\<lparr>svEc := svEc after_create @ [(''c1'', \<lparr>exPid = 42, exStatus = 0\<rparr>)]\<rparr>, snd ?x)"
  have "reachable (\<lambda>y. y = ?x) service_step ?x" by (rule reachable.at_start) simp
  then have "reachable (\<lambda>y. y = ?x) service_step ?y"
    by (rule reachable.by_step) (simp add: service_step.reports)
  from one_container [OF reachable_after_create _ this] show ?thesis by (simp add: create_act)
qed

text \<open>
  No exit is lost. One round of \<open>processExits\<close> hands the exit to every process registered
  under its pid and takes these entries out of the table; and a process whose start is still in
  progress, so that it is not registered yet, gets the exit from its subscription when
  \<open>handleStarted\<close> runs.
\<close>

lemma exits_reach_processes:
  assumes "svEc s = (cid, e) # rest"
  defines "q \<equiv> \<lparr>cpidPid = exPid e, cpidContainer = cid\<rparr>"
  shows "\<exists>bs s1. processExits s = Next (bs @ [NextExit]) [] s1 \<and>
    (\<forall>cp \<in> set (slice_of q (svRunning s)). set (exit_actions e cp) \<subseteq> set bs) \<and>
    slice_of q (svRunning s1) = [] \<and>
    (\<forall>k \<in> set (svExitSubscribers s). \<forall>c p. k < length (svExits s) \<longrightarrow>
       containerPidOf p (svHeap s1 ! c) = q \<longrightarrow>
       (\<exists>ys s2. handleStarted c (Some p) k s1 = Next ys [] s2 \<and> SetExit e c p \<in> set ys))"
  using assms(1)
  by (auto simp: processExits_def Let_def slice_of_def q_def handleStarted_def containerPidOf_def nth_enumerate_eq)


end
