(* ===== verification/ServiceProtocol.thy ===== *)
theory ServiceProtocol
  imports ServiceInvariants
begin

text \<open>
  The protocol by which the task service holds back the exit of an init process until the execs
  of its container are done (\<open>task/service.go\<close>: \<open>runningExecs\<close>, \<open>execCountSubscribers\<close>,
  \<open>containerInitExit\<close>). The properties hold for quiet executions: every process that is recorded
  as started has a pid, an exec is not started again while it runs, the init process does not exit before its
  start is recorded, and a container is deleted only after its exit has been published. Executions that are not quiet
  are the subject of the last section.
\<close>

section \<open>Counting\<close>

text \<open>An action that owes one decrement of the exec counter of \<open>c\<close>.\<close>

fun exec_token :: "cref \<Rightarrow> action \<Rightarrow> nat" where
  "exec_token c (RunStart c' eid k) = of_bool (c' = c \<and> eid \<noteq> [])"
| "exec_token c (StartFailed c') = of_bool (c' = c)"
| "exec_token c (HandleStarted c' po k owed) = of_bool (c' = c \<and> owed)"
| "exec_token c (SetExit e c' p) = of_bool (c' = c \<and> p \<noteq> InitP)"
| "exec_token c (SendExit e c' p) = of_bool (c' = c \<and> p \<noteq> InitP)"
| "exec_token c (ExecExited c') = of_bool (c' = c)"
| "exec_token c _ = 0"

text \<open>An action that holds the init process of \<open>c\<close>: it starts it or closes it down.\<close>

fun init_token :: "cref \<Rightarrow> action \<Rightarrow> nat" where
  "init_token c (RunStart c' eid k) = of_bool (c' = c \<and> eid = [])"
| "init_token c (HandleStarted c' po k owed) = of_bool (c' = c \<and> po = Some InitP)"
| "init_token c (InitExit e c') = of_bool (c' = c)"
| "init_token c (InitExitCheck e c') = of_bool (c' = c)"
| "init_token c (AwaitExecs e c' ch) = of_bool (c' = c)"
| "init_token c (DropCounters c') = of_bool (c' = c)"
| "init_token c _ = 0"

text \<open>An action on the way from the exit of the init process of \<open>c\<close> to its publication.\<close>

fun closing :: "cref \<Rightarrow> action \<Rightarrow> nat" where
  "closing c (InitExit e c') = of_bool (c' = c)"
| "closing c (InitExitCheck e c') = of_bool (c' = c)"
| "closing c (AwaitExecs e c' ch) = of_bool (c' = c)"
| "closing c (DropCounters c') = of_bool (c' = c)"
| "closing c (SetExit e c' p) = of_bool (c' = c \<and> p = InitP)"
| "closing c (SendExit e c' p) = of_bool (c' = c \<and> p = InitP)"
| "closing c _ = 0"

text \<open>The part of that way after the wait for the execs.\<close>

fun finishing :: "cref \<Rightarrow> action \<Rightarrow> nat" where
  "finishing c (DropCounters c') = of_bool (c' = c)"
| "finishing c (SetExit e c' p) = of_bool (c' = c \<and> p = InitP)"
| "finishing c (SendExit e c' p) = of_bool (c' = c \<and> p = InitP)"
| "finishing c _ = 0"

fun awaits :: "cref \<Rightarrow> nat \<Rightarrow> action \<Rightarrow> nat" where
  "awaits c ch (AwaitExecs e c' ch') = of_bool (c' = c \<and> ch' = ch)"
| "awaits c ch _ = 0"

fun drops :: "cref \<Rightarrow> action \<Rightarrow> nat" where
  "drops c (DropCounters c') = of_bool (c' = c)"
| "drops c _ = 0"

lemma token_orders:
  "finishing c a \<le> closing c a" "awaits c ch a \<le> closing c a" "drops c a \<le> finishing c a"
  "awaits c ch a + drops c a \<le> init_token c a"
  by (cases a; simp)+

lemma weight_orders:
  "weight (finishing c) ts \<le> weight (closing c) ts" "weight (awaits c ch) ts \<le> weight (closing c) ts"
  "weight (drops c) ts \<le> weight (finishing c) ts"
  by (rule weight_mono, rule token_orders)+

lemma weight_init: "weight (awaits c ch) ts + weight (drops c) ts \<le> weight (init_token c) ts"
  unfolding weight_add [symmetric] by (rule weight_mono) (rule token_orders)

text \<open>The execs that are running or whose exit has not been accounted for.\<close>

definition running_execs :: "cref \<Rightarrow> (containerPid \<times> containerProcess) list \<Rightarrow> nat" where
  "running_execs c xs = length (filter (\<lambda>x. cpContainer (snd x) = c \<and> cpProcess (snd x) \<noteq> InitP) xs)"

definition running_inits :: "cref \<Rightarrow> (containerPid \<times> containerProcess) list \<Rightarrow> nat" where
  "running_inits c xs = length (filter (\<lambda>x. cpContainer (snd x) = c \<and> cpProcess (snd x) = InitP) xs)"

definition execs :: "system \<Rightarrow> cref \<Rightarrow> nat" where
  "execs x c = running_execs c (svRunning (fst x)) + weight (exec_token c) (snd x)"

definition inits :: "system \<Rightarrow> cref \<Rightarrow> nat" where
  "inits x c = running_inits c (svRunning (fst x)) + weight (init_token c) (snd x)"

section \<open>Quiet executions\<close>

definition quiet_started :: "service \<Rightarrow> cref \<Rightarrow> pref option \<Rightarrow> nat \<Rightarrow> bool \<Rightarrow> bool" where
  "quiet_started s c po k owed =
     (case po of
        None \<Rightarrow> True
      | Some p \<Rightarrow>
          (let pid = Process_Pid p (svHeap s ! c); early = (svExits s ! k) (containerPidOf p (svHeap s ! c))
           in if p = InitP then pid \<noteq> 0 \<and> early = None
              else if owed then pid \<noteq> 0 \<and> (case early of None \<Rightarrow> True | Some es \<Rightarrow> length es = 1)
              else pid = 0 \<and> early = None))"

fun quiet :: "system \<Rightarrow> action \<Rightarrow> bool" where
  "quiet x (PreStart c eid) =
     (eid = [] \<longrightarrow>
        (let q = containerPidOf InitP (svHeap (fst x) ! c);
             mine = filter (\<lambda>y. fst y = q \<and> cpContainer (snd y) = c) (svRunning (fst x))
         in mine \<noteq> [] \<and> (\<forall>y \<in> set mine. cpProcess (snd y) = InitP)))"
| "quiet x (HandleStarted c po k owed) = quiet_started (fst x) c po k owed"
| "quiet x (ForgetInitExit c) = (weight (closing c) (snd x) = 0)"
| "quiet x _ = True"

inductive quiet_step :: "system \<Rightarrow> system \<Rightarrow> bool" where
  acts: "i < length ts \<Longrightarrow> ts ! i = a # as \<Longrightarrow> quiet (s, ts) a \<Longrightarrow> act E a s = Next bs new s' \<Longrightarrow>
    quiet_step (s, ts) (s', ts[i := bs @ as] @ new)"
| request: "is_request a \<Longrightarrow> quiet_step (s, ts) (s, ts @ [[a]])"
| reports: "quiet_step (s, ts) (s\<lparr>svEc := svEc s @ [(cid, e)]\<rparr>, ts)"

lemma quiet_step_service: "quiet_step x y \<Longrightarrow> service_step x y"
  by (induction rule: quiet_step.induct) (auto intro: service_step.intros)

section \<open>The invariant\<close>

text \<open>The values in a channel count down to the number of execs left.\<close>

definition counts_down :: "count_chan \<Rightarrow> nat \<Rightarrow> bool" where
  "counts_down q n \<longleftrightarrow> chBuf q = map int (rev [n..<n + length (chBuf q)]) \<and> n + length (chBuf q) \<le> chCap q"

text \<open>
  The state of one container: its counter, its execs, the holders of its init process, the
  actions closing it, those finishing, those waiting on each channel and those dropping the
  counters; whether its init exit is noted, and its subscriber.
\<close>

definition protocol_at ::
  "int \<Rightarrow> nat \<Rightarrow> nat \<Rightarrow> nat \<Rightarrow> nat \<Rightarrow> (nat \<Rightarrow> nat) \<Rightarrow> nat \<Rightarrow> bool \<Rightarrow> nat option \<Rightarrow> count_chan list \<Rightarrow> bool" where
  "protocol_at counter n holders closers finishers waiters droppers exited sub chans \<longleftrightarrow>
     counter = int n \<and> holders \<le> 1 \<and> (0 < closers \<longrightarrow> exited) \<and> (0 < finishers \<longrightarrow> n = 0) \<and>
     (\<forall>ch. sub \<noteq> Some ch \<longrightarrow> waiters ch = 0) \<and>
     (\<forall>ch. sub = Some ch \<longrightarrow> ch < length chans \<and> 0 < waiters ch + droppers \<and> counts_down (chans ! ch) n \<and>
        (0 < waiters ch \<longrightarrow> 0 < n + length (chBuf (chans ! ch))))"

definition protocol :: "system \<Rightarrow> cref \<Rightarrow> bool" where
  "protocol x c \<longleftrightarrow> protocol_at (svRunningExecs (fst x) c) (execs x c) (inits x c)
     (weight (closing c) (snd x)) (weight (finishing c) (snd x)) (\<lambda>ch. weight (awaits c ch) (snd x))
     (weight (drops c) (snd x)) (svContainerInitExit (fst x) c \<noteq> None)
     (svExecCountSubscribers (fst x) c) (svChans (fst x))"

definition own_channels :: "service \<Rightarrow> bool" where
  "own_channels s \<longleftrightarrow> (\<forall>c d ch. svExecCountSubscribers s c = Some ch \<longrightarrow> svExecCountSubscribers s d = Some ch \<longrightarrow> c = d)"

definition protocol_inv :: "system \<Rightarrow> bool" where
  "protocol_inv x \<longleftrightarrow> service_inv x \<and> own_channels (fst x) \<and> (\<forall>c. protocol x c)"

section \<open>Steps that count nothing\<close>

text \<open>The pending actions count the same before and after.\<close>

definition same_tokens :: "action list list \<Rightarrow> action list list \<Rightarrow> bool" where
  "same_tokens ts us \<longleftrightarrow> (\<forall>c. weight (exec_token c) ts = weight (exec_token c) us \<and>
     weight (init_token c) ts = weight (init_token c) us \<and> weight (closing c) ts = weight (closing c) us \<and>
     weight (finishing c) ts = weight (finishing c) us \<and> weight (drops c) ts = weight (drops c) us \<and>
     (\<forall>ch. weight (awaits c ch) ts = weight (awaits c ch) us))"

definition same_counters :: "service \<Rightarrow> service \<Rightarrow> bool" where
  "same_counters s t \<longleftrightarrow> svRunning s = svRunning t \<and> svRunningExecs s = svRunningExecs t \<and>
     svContainerInitExit s = svContainerInitExit t \<and> svExecCountSubscribers s = svExecCountSubscribers t \<and>
     svChans s = svChans t"

lemma same_protocol:
  assumes "same_tokens ts us" "same_counters s t"
  shows "protocol (t, us) c \<longleftrightarrow> protocol (s, ts) c" "own_channels t \<longleftrightarrow> own_channels s"
  using assms
  by (simp_all add: same_tokens_def same_counters_def protocol_def execs_def inits_def own_channels_def)

lemma same_tokens_step:
  assumes "i < length ts" "ts ! i = a # as"
    and "\<And>c. exec_token c a = sum_list (map (exec_token c) bs) + weight (exec_token c) new"
    "\<And>c. init_token c a = sum_list (map (init_token c) bs) + weight (init_token c) new"
    "\<And>c. closing c a = sum_list (map (closing c) bs) + weight (closing c) new"
    "\<And>c. finishing c a = sum_list (map (finishing c) bs) + weight (finishing c) new"
    "\<And>c. drops c a = sum_list (map (drops c) bs) + weight (drops c) new"
    "\<And>c ch. awaits c ch a = sum_list (map (awaits c ch) bs) + weight (awaits c ch) new"
  shows "same_tokens ts (ts[i := bs @ as] @ new)"
  unfolding same_tokens_def
  using weight_update [OF assms(1,2), of "exec_token c" bs new for c]
    weight_update [OF assms(1,2), of "init_token c" bs new for c]
    weight_update [OF assms(1,2), of "closing c" bs new for c]
    weight_update [OF assms(1,2), of "finishing c" bs new for c]
    weight_update [OF assms(1,2), of "drops c" bs new for c]
    weight_update [OF assms(1,2), of "awaits c ch" bs new for c ch]
  by (simp add: assms(3-8))

definition counts_nothing :: "action \<Rightarrow> bool" where
  "counts_nothing a \<longleftrightarrow> (\<forall>c ch. exec_token c a = 0 \<and> init_token c a = 0 \<and> closing c a = 0 \<and>
     finishing c a = 0 \<and> drops c a = 0 \<and> awaits c ch a = 0)"

lemma counts_nothing_step:
  assumes "i < length ts" "ts ! i = a # as" "counts_nothing a" "\<forall>b \<in> set bs. counts_nothing b" "new = []"
  shows "same_tokens ts (ts[i := bs @ as] @ new)"
  using assms by (intro same_tokens_step) (auto simp: counts_nothing_def sum_list_zero)

lemma counts_nothing_drop:
  assumes "i < length ts" "ts ! i = a # as" "counts_nothing a"
  shows "same_tokens ts (ts[i := as])"
  using counts_nothing_step [OF assms, of "[]" "[]"] by simp

section \<open>Steps that count\<close>

text \<open>The update of all sums at once, for a given container.\<close>

lemma token_updates:
  assumes "i < length ts" "ts ! i = a # as"
  shows "weight (exec_token d) (ts[i := bs @ as] @ new) + exec_token d a =
      weight (exec_token d) ts + sum_list (map (exec_token d) bs) + weight (exec_token d) new"
    "weight (init_token d) (ts[i := bs @ as] @ new) + init_token d a =
      weight (init_token d) ts + sum_list (map (init_token d) bs) + weight (init_token d) new"
    "weight (closing d) (ts[i := bs @ as] @ new) + closing d a =
      weight (closing d) ts + sum_list (map (closing d) bs) + weight (closing d) new"
    "weight (finishing d) (ts[i := bs @ as] @ new) + finishing d a =
      weight (finishing d) ts + sum_list (map (finishing d) bs) + weight (finishing d) new"
    "weight (drops d) (ts[i := bs @ as] @ new) + drops d a =
      weight (drops d) ts + sum_list (map (drops d) bs) + weight (drops d) new"
    "weight (awaits d ch) (ts[i := bs @ as] @ new) + awaits d ch a =
      weight (awaits d ch) ts + sum_list (map (awaits d ch) bs) + weight (awaits d ch) new"
  using assms by (simp_all only: weight_update)

lemma Container_Process_init: "Container_Process c eid = Ok p \<Longrightarrow> p = InitP \<longleftrightarrow> eid = []"
  by (auto simp: Container_Process_def split: if_splits option.splits)

lemma Container_Start_target:
  assumes "Container_Start E eid c = ((po, r), x)"
  shows "eid = [] \<Longrightarrow> po = Some InitP" "eid \<noteq> [] \<Longrightarrow> po \<noteq> Some InitP"
  using assms Container_Process_init [of c eid]
  by (auto simp: Container_Start_def Container_Process_def split: prod.splits if_splits option.splits)

text \<open>The start of a process.\<close>

lemma same_RunStart:
  assumes "i < length ts" "ts ! i = RunStart c eid k # as"
    and "service_runStart E c eid k s = Next bs new s'"
  shows "same_tokens ts (ts[i := bs @ as] @ new) \<and> same_counters s s'"
proof -
  obtain po r x where st: "Container_Start E eid (svHeap s ! c) = ((po, r), x)"
    by (metis prod.exhaust)
  note p = Container_Start_target [OF st]
  have s': "same_counters s s'"
    using assms(3) by (auto simp: service_runStart_def st set_container_def same_counters_def
        split: res.splits option.splits)
  have "\<exists>q. bs = q @ [HandleStarted c po k (eid \<noteq> [] \<and> q \<noteq> [StartFailed c])] \<and> new = [] \<and>
      (q = (if eid = [] then [] else [StartFailed c]) \<or> (\<exists>p'. q = [SendStarted c eid p']))"
    using assms(3) by (auto simp: service_runStart_def st split: res.splits option.splits)
  then show ?thesis
    using s' p by (auto intro!: same_tokens_step [OF assms(1,2)] split: if_splits)
qed

lemma running_split:
  "running_execs d xs = running_execs d (filter P xs) + running_execs d (filter (\<lambda>x. \<not> P x) xs)"
  "running_inits d xs = running_inits d (filter P xs) + running_inits d (filter (\<lambda>x. \<not> P x) xs)"
  by (induction xs) (auto simp: running_execs_def running_inits_def)

lemma running_snoc:
  "running_execs d (xs @ [y]) = running_execs d xs + of_bool (cpContainer (snd y) = d \<and> cpProcess (snd y) \<noteq> InitP)"
  "running_inits d (xs @ [y]) = running_inits d xs + of_bool (cpContainer (snd y) = d \<and> cpProcess (snd y) = InitP)"
  by (simp_all add: running_execs_def running_inits_def)

text \<open>What taking out the init process of \<open>c\<close> does to the entries.\<close>

lemma running_take_init:
  assumes "\<forall>y \<in> set (filter P xs). cpContainer (snd y) = c \<and> cpProcess (snd y) = InitP" "filter P xs \<noteq> []"
  shows "running_execs d (filter (\<lambda>x. \<not> P x) xs) = running_execs d xs"
    "running_inits d (filter (\<lambda>x. \<not> P x) xs) + of_bool (c = d) \<le> running_inits d xs"
proof -
  have "running_execs d (filter P xs) = 0" using assms(1) by (auto simp: running_execs_def filter_empty_conv)
  then show "running_execs d (filter (\<lambda>x. \<not> P x) xs) = running_execs d xs"
    using running_split(1) [of d xs P] by simp
  have "of_bool (c = d) \<le> running_inits d (filter P xs)"
    using assms by (cases "filter P xs") (auto simp: running_inits_def)
  then show "running_inits d (filter (\<lambda>x. \<not> P x) xs) + of_bool (c = d) \<le> running_inits d xs"
    using running_split(2) [of d xs P] by simp
qed

lemma protocol_PreStart:
  assumes "i < length ts" "ts ! i = PreStart c eid # as" "quiet (s, ts) (PreStart c eid)"
    and "service_preStart c eid s = Next bs new s'" "protocol (s, ts) d" "own_channels s"
  shows "protocol (s', ts[i := bs @ as] @ new) d \<and> own_channels s'"
proof -
  note u = token_updates [OF assms(1,2), where d = d and bs = bs and new = new]
  consider (init) "eid = []" | (refused) "eid \<noteq> []" "svContainerInitExit s c \<noteq> None"
    | (exec) "eid \<noteq> []" "svContainerInitExit s c = None" by blast
  then show ?thesis
  proof cases
    case init
    let ?P = "\<lambda>x. fst x = containerPidOf InitP (svHeap s ! c) \<and> cpContainer (snd x) = c"
    have "\<forall>y \<in> set (filter ?P (svRunning s)). cpContainer (snd y) = c \<and> cpProcess (snd y) = InitP"
      "filter ?P (svRunning s) \<noteq> []"
      using assms(3) init by (auto simp: Let_def)
    note r = running_take_init [OF this, of d]
    have s': "svRunning s' = filter (\<lambda>x. \<not> ?P x) (svRunning s)" "svChans s' = svChans s"
      "svRunningExecs s' = svRunningExecs s" "svContainerInitExit s' = svContainerInitExit s"
      "svExecCountSubscribers s' = svExecCountSubscribers s" "bs = [RunStart c [] (length (svExits s)), Cleanup (length (svExits s))]" "new = []"
      using assms(4) init by (auto simp: service_preStart_def preStart_def Let_def)
    show ?thesis
      using assms(5,6) r u s' init by (simp add: protocol_def protocol_at_def execs_def inits_def own_channels_def)
  next
    case refused
    then have "bs = []" "new = []" "s' = s" using assms(4) by (simp_all add: service_preStart_def)
    then show ?thesis
      using assms(5,6) u by (simp add: protocol_def protocol_at_def execs_def inits_def own_channels_def)
  next
    case exec
    have s': "svRunning s' = svRunning s" "svChans s' = svChans s"
      "svRunningExecs s' = (svRunningExecs s)(c := svRunningExecs s c + 1)" "svContainerInitExit s' = svContainerInitExit s"
      "svExecCountSubscribers s' = svExecCountSubscribers s" "bs = [RunStart c eid (length (svExits s)), Cleanup (length (svExits s))]" "new = []"
      using assms(4) exec by (auto simp: service_preStart_def preStart_def Let_def)
    have "svExecCountSubscribers s c = None \<and> weight (finishing c) ts = 0" if "c = d"
      using assms(5) exec weight_orders(1) [of c ts] weight_orders(2) [of c _ ts] weight_orders(3) [of c ts]  that
      by (cases "svExecCountSubscribers s c") (fastforce simp: protocol_def protocol_at_def)+
    then show ?thesis
      using assms(5,6) u s' exec
      by (cases "c = d") (simp_all add: protocol_def protocol_at_def execs_def inits_def own_channels_def)
  qed
qed

text \<open>Giving back an exec.\<close>

lemma counts_down_push:
  assumes "counts_down q (Suc n)"
  shows "counts_down (q\<lparr>chBuf := chBuf q @ [int n]\<rparr>) n" "length (chBuf q) < chCap q"
proof -
  define l where "l = length (chBuf q)"
  have b: "chBuf q = map int (rev [Suc n..<Suc n + l])" "Suc n + l \<le> chCap q"
    using assms by (simp_all only: counts_down_def l_def)
  have "[n..<n + Suc l] = n # [Suc n..<Suc n + l]" by (simp add: upt_conv_Cons del: upt_Suc)
  then have "chBuf q @ [int n] = map int (rev [n..<n + Suc l])"
    unfolding b(1) by (simp del: upt_Suc)
  then show "counts_down (q\<lparr>chBuf := chBuf q @ [int n]\<rparr>) n" using b(2) by (simp add: counts_down_def l_def)
  show "length (chBuf q) < chCap q" using b(2) by (simp add: l_def)
qed

lemma counts_down_pop:
  assumes "counts_down q n" "chBuf q = v # rest"
  shows "counts_down (q\<lparr>chBuf := rest\<rparr>) n" "v = int (n + length rest)"
  using assms by (auto simp: counts_down_def)

lemma protocol_exec_done:
  assumes "i < length ts" "ts ! i = a # as" "a = StartFailed c \<or> a = ExecExited c"
    and "exec_done_notify c s = Next bs new s'" "\<forall>d. protocol (s, ts) d" "own_channels s"
  shows "protocol (s', ts[i := bs @ as] @ new) d \<and> own_channels s'"
proof -
  note u = token_updates [OF assms(1,2), where d = d and bs = bs and new = new]
  have n: "0 < weight (exec_token c) ts"
    using weight_head [OF assms(1,2), of "exec_token c"] assms(3) by auto
  then obtain m where m: "execs (s, ts) c = Suc m" unfolding execs_def by (metis add_gr_0 gr0_implies_Suc snd_conv)
  have pc: "protocol (s, ts) c" and pd: "protocol (s, ts) d" using assms(5) by auto
  have cnt: "svRunningExecs s c = int (Suc m)" using pc m by (simp add: protocol_def protocol_at_def)
  have a: "exec_token d a = of_bool (c = d)" "init_token d a = 0" "closing d a = 0" "finishing d a = 0"
    "drops d a = 0" "awaits d ch a = 0" for ch
    using assms(3) by auto
  have tok: "execs (t, ts[i := bs @ as] @ new) d = (if c = d then m else execs (s, ts) d)"
    "inits (t, ts[i := bs @ as] @ new) d = inits (s, ts) d"
    if "bs = []" "new = []" "svRunning t = svRunning s" for t
    using u(1,2) a(1,2) m that by (auto simp: execs_def inits_def)
  show ?thesis
  proof (cases "svExecCountSubscribers s c")
    case None
    then have "bs = []" "new = []" "s' = s\<lparr>svRunningExecs := (svRunningExecs s)(c := int m)\<rparr>"
      using assms(4) cnt by (auto simp: exec_done_notify_def)
    then show ?thesis
      using assms(6) u(3-) a pd m cnt None tok [OF \<open>bs = []\<close> \<open>new = []\<close>, of s']
      by (cases "c = d") (simp_all add: protocol_def protocol_at_def own_channels_def)
  next
    case (Some ch)
    have ch: "ch < length (svChans s)" "counts_down (svChans s ! ch) (Suc m)"
      using pc Some m by (simp_all add: protocol_def protocol_at_def)
    note push = counts_down_push [OF ch(2)]
    have s': "bs = []" "new = []" "s' = s\<lparr>svRunningExecs := (svRunningExecs s)(c := int m),
        svChans := (svChans s)[ch := (svChans s ! ch)\<lparr>chBuf := chBuf (svChans s ! ch) @ [int m]\<rparr>]\<rparr>"
      using assms(4) cnt Some push(2) by (auto simp: exec_done_notify_def Let_def)
    have "svExecCountSubscribers s d \<noteq> Some ch" if "c \<noteq> d"
      using assms(6) Some that by (auto simp: own_channels_def)
    then show ?thesis
      using assms(6) u(3-) a pd m cnt Some s' push(1) ch(1) tok [OF s'(1,2), of s']
      by (cases "c = d") (simp_all add: protocol_def protocol_at_def own_channels_def nth_list_update)
  qed
qed

text \<open>The end of a start.\<close>

lemma protocol_HandleStarted:
  assumes "i < length ts" "ts ! i = HandleStarted c po k owed # as" "quiet_started s c po k owed"
    and "action_ok s (HandleStarted c po k owed)"
    and "handleStarted c po k s = Next bs new s'" "protocol (s, ts) d" "own_channels s"
  shows "protocol (s', ts[i := bs @ as] @ new) d \<and> own_channels s'"
proof -
  note u = token_updates [OF assms(1,2), where d = d and bs = bs and new = new]
  let ?same = "svChans s' = svChans s \<and> svRunningExecs s' = svRunningExecs s \<and>
    svContainerInitExit s' = svContainerInitExit s \<and> svExecCountSubscribers s' = svExecCountSubscribers s \<and> new = []"
  have same: ?same
    using assms(5) by (auto simp: handleStarted_def Let_def split: if_splits option.splits)
  have tok: "running_execs d (svRunning s') + sum_list (map (exec_token d) bs) =
      running_execs d (svRunning s) + of_bool (c = d \<and> owed) \<and>
    running_inits d (svRunning s') + sum_list (map (init_token d) bs) =
      running_inits d (svRunning s) + of_bool (c = d \<and> po = Some InitP)"
    using assms(3-5)
    by (auto simp: handleStarted_def quiet_started_def Let_def containerPidOf_def running_snoc
        length_Suc_conv split: if_splits option.splits)
  have other: "sum_list (map (closing d) bs) = 0" "sum_list (map (finishing d) bs) = 0"
    "sum_list (map (drops d) bs) = 0" "sum_list (map (awaits d ch) bs) = 0" for ch
    using assms(3-5)
    by (auto simp: handleStarted_def quiet_started_def Let_def containerPidOf_def
        length_Suc_conv split: if_splits option.splits)
  have "execs (s', ts[i := bs @ as] @ new) d = execs (s, ts) d" "inits (s', ts[i := bs @ as] @ new) d = inits (s, ts) d"
    using u(1,2) same tok by (simp_all add: execs_def inits_def)
  then show ?thesis
    using assms(6,7) u(3-) same other by (simp add: protocol_def own_channels_def)
qed

text \<open>One round of exits.\<close>

lemma slice_of_simps [simp]:
  "slice_of q [] = []" "slice_of q (x # xs) = (if fst x = q then snd x # slice_of q xs else slice_of q xs)"
  by (simp_all add: slice_of_def)

lemma exits_tokens:
  "running_execs d (filter (\<lambda>x. fst x \<noteq> q) xs) +
     sum_list (map (exec_token d) (concat (map (exit_actions e) (slice_of q xs)))) = running_execs d xs"
  "running_inits d (filter (\<lambda>x. fst x \<noteq> q) xs) +
     sum_list (map (init_token d) (concat (map (exit_actions e) (slice_of q xs)))) = running_inits d xs"
  by (induction xs) (simp_all add: running_execs_def running_inits_def exit_actions_def)

lemma exits_no_tokens:
  "sum_list (map (finishing d) (concat (map (exit_actions e) cps))) = 0"
  "sum_list (map (drops d) (concat (map (exit_actions e) cps))) = 0"
  "sum_list (map (awaits d ch) (concat (map (exit_actions e) cps))) = 0"
  "d \<notin> cpContainer ` set (filter (\<lambda>cp. cpProcess cp = InitP) cps) \<Longrightarrow>
     sum_list (map (closing d) (concat (map (exit_actions e) cps))) = 0"
  by (induction cps) (auto simp: exit_actions_def split: if_splits)

lemma protocol_NextExit:
  assumes "i < length ts" "ts ! i = NextExit # as"
    and "processExits s = Next bs new s'" "protocol (s, ts) d" "own_channels s"
  shows "protocol (s', ts[i := bs @ as] @ new) d \<and> own_channels s'"
proof -
  note u = token_updates [OF assms(1,2), where d = d and bs = bs and new = new]
  obtain cid e rest where ec: "svEc s = (cid, e) # rest"
    using assms(3) by (auto simp: processExits_def split: list.splits)
  define q where "q = \<lparr>cpidPid = exPid e, cpidContainer = cid\<rparr>"
  have s': "bs = concat (map (exit_actions e) (slice_of q (svRunning s))) @ [NextExit]" "new = []"
    "svRunning s' = filter (\<lambda>x. fst x \<noteq> q) (svRunning s)" "svRunningExecs s' = svRunningExecs s"
    "svExecCountSubscribers s' = svExecCountSubscribers s" "svChans s' = svChans s"
    "svContainerInitExit s' = (\<lambda>c. if c \<in> cpContainer ` set (filter (\<lambda>cp. cpProcess cp = InitP) (slice_of q (svRunning s)))
       then Some e else svContainerInitExit s c)"
    using assms(3) by (auto simp: processExits_def ec q_def Let_def)
  note t = exits_tokens [where q = q and e = e and d = d and xs = "svRunning s"]
    exits_no_tokens [where e = e and d = d and cps = "slice_of q (svRunning s)"]
  have "execs (s', ts[i := bs @ as] @ new) d = execs (s, ts) d" "inits (s', ts[i := bs @ as] @ new) d = inits (s, ts) d"
    using u(1,2) t(1,2) unfolding execs_def inits_def fst_conv snd_conv s'(1-3) by simp_all
  moreover have "weight (closing d) (ts[i := bs @ as] @ new) = weight (closing d) ts \<or> svContainerInitExit s' d \<noteq> None"
    using u(3) t(6) unfolding s'(1,2,7) by auto
  moreover have "weight (finishing d) (ts[i := bs @ as] @ new) = weight (finishing d) ts"
    "weight (drops d) (ts[i := bs @ as] @ new) = weight (drops d) ts"
    "weight (awaits d ch) (ts[i := bs @ as] @ new) = weight (awaits d ch) ts" for ch
    using u(4,5) u(6) [of ch] t(3-5) unfolding s'(1,2) by simp_all
  moreover have "svContainerInitExit s d \<noteq> None \<Longrightarrow> svContainerInitExit s' d \<noteq> None" by (simp add: s'(7))
  ultimately show ?thesis
    using assms(4,5) unfolding protocol_def protocol_at_def own_channels_def fst_conv snd_conv s'(4-6) by auto
qed

text \<open>The closing of a container.\<close>

lemma protocol_SendExit:
  assumes "i < length ts" "ts ! i = SendExit e c p # as"
    and "handleProcessExit_send e c p s = Next bs new s'" "protocol (s, ts) d" "own_channels s"
  shows "protocol (s', ts[i := bs @ as] @ new) d \<and> own_channels s'"
proof -
  note u = token_updates [OF assms(1,2), where d = d and bs = bs and new = new]
  have b: "bs = (if p = InitP then [] else [ExecExited c])" "new = []"
    and s': "same_counters s s'"
    using assms(3) by (auto simp: handleProcessExit_send_def Let_def service_send_def same_counters_def)
  have "execs (s', ts[i := bs @ as] @ new) d = execs (s, ts) d" "inits (s', ts[i := bs @ as] @ new) d = inits (s, ts) d"
    using u(1,2) s' b by (auto simp: execs_def inits_def same_counters_def split: if_splits)
  moreover have "weight (closing d) (ts[i := bs @ as] @ new) \<le> weight (closing d) ts"
    "weight (finishing d) (ts[i := bs @ as] @ new) \<le> weight (finishing d) ts"
    "weight (drops d) (ts[i := bs @ as] @ new) = weight (drops d) ts"
    "weight (awaits d ch) (ts[i := bs @ as] @ new) = weight (awaits d ch) ts" for ch
    using u(3-5) u(6) [of ch] b by (auto split: if_splits)
  ultimately show ?thesis
    using assms(4,5) s' unfolding protocol_def protocol_at_def own_channels_def same_counters_def by auto
qed

lemma protocol_at_more_chans:
  assumes "protocol_at k n h cl f w dr ex sub chans"
  shows "protocol_at k n h cl f w dr ex sub (chans @ xs)"
  using assms by (cases sub) (simp_all add: protocol_at_def nth_append)

lemma protocol_at_subscribe:
  assumes "protocol_at k n h cl f w 0 ex None chans" "0 < n" "\<And>ch. w ch = 0"
  shows "protocol_at k n h cl f (\<lambda>ch. w ch + of_bool (ch = length chans)) 0 ex (Some (length chans))
    (chans @ [\<lparr>chCap = n, chBuf = []\<rparr>])"
  using assms by (simp add: protocol_at_def counts_down_def)

lemma protocol_InitExitCheck:
  assumes "i < length ts" "ts ! i = InitExitCheck e c # as"
    and "handleInitExit_check e c s = Next bs new s'" "\<forall>d. protocol (s, ts) d" "own_channels s"
  shows "protocol (s', ts[i := bs @ as] @ new) d \<and> own_channels s'"
proof -
  note u = token_updates [OF assms(1,2), where d = d and bs = bs and new = new]
  have pd: "protocol (s, ts) d" and cnt: "svRunningExecs s c = int (execs (s, ts) c)"
    using assms(4) by (auto simp: protocol_def protocol_at_def)
  have below: "ch < length (svChans s)" if "svExecCountSubscribers s f = Some ch" for f ch
    using assms(4) that by (simp add: protocol_def protocol_at_def)
  have idle: "weight (awaits c ch) ts = 0 \<and> weight (drops c) ts = 0" for ch
  proof -
    have "awaits c ch (InitExitCheck e c) + drops c (InitExitCheck e c) + 1 \<le> init_token c (InitExitCheck e c)" by simp
    then have "weight (awaits c ch) ts + weight (drops c) ts < weight (init_token c) ts"
      using weight_init [of c ch "take i ts @ (as # drop (Suc i) ts)"] weight_split [OF assms(1), of "awaits c ch"]
        weight_split [OF assms(1), of "drops c"] weight_split [OF assms(1), of "init_token c"] assms(2) by simp
    moreover have "weight (init_token c) ts \<le> 1"
      using assms(4) by (auto simp: protocol_def protocol_at_def inits_def dest: spec [of _ c])
    ultimately show ?thesis by simp
  qed
  then have free: "svExecCountSubscribers s c = None"
    using assms(4) by (cases "svExecCountSubscribers s c") (auto simp: protocol_def protocol_at_def dest: spec [of _ c])
  show ?thesis
  proof (cases "execs (s, ts) c = 0")
    case True
    then have s': "bs = [SetExit e c InitP]" "new = []" "s' = s\<lparr>svRunningExecs := (svRunningExecs s)(c := 0)\<rparr>"
      using assms(3) cnt by (auto simp: handleInitExit_check_def)
    have "execs (s', ts[i := bs @ as] @ new) d = execs (s, ts) d" "inits (s', ts[i := bs @ as] @ new) d \<le> inits (s, ts) d"
      using u(1,2) by (auto simp: s' execs_def inits_def)
    moreover have "weight (closing d) (ts[i := bs @ as] @ new) = weight (closing d) ts"
      "weight (finishing d) (ts[i := bs @ as] @ new) = weight (finishing d) ts + of_bool (c = d)"
      "weight (drops d) (ts[i := bs @ as] @ new) = weight (drops d) ts"
      "weight (awaits d ch) (ts[i := bs @ as] @ new) = weight (awaits d ch) ts" for ch
      using u(3-5) u(6) [of ch] s' by auto
    ultimately show ?thesis
      using pd assms(5) True s'(3) by (cases "c = d") (auto simp: protocol_def protocol_at_def own_channels_def)
  next
    case False
    let ?ch = "length (svChans s)"
    have s': "bs = []" "new = [[AwaitExecs e c ?ch]]"
      "s' = s\<lparr>svChans := svChans s @ [\<lparr>chCap = execs (s, ts) c, chBuf = []\<rparr>],
         svExecCountSubscribers := (svExecCountSubscribers s)(c \<mapsto> ?ch)\<rparr>"
      using assms(3) cnt False by (auto simp: handleInitExit_check_def Let_def)
    have "execs (s', ts[i := bs @ as] @ new) d = execs (s, ts) d" "inits (s', ts[i := bs @ as] @ new) d = inits (s, ts) d"
      using u(1,2) by (auto simp: s' execs_def inits_def)
    moreover have "weight (closing d) (ts[i := bs @ as] @ new) = weight (closing d) ts"
      "weight (finishing d) (ts[i := bs @ as] @ new) = weight (finishing d) ts"
      "weight (drops d) (ts[i := bs @ as] @ new) = weight (drops d) ts"
      "weight (awaits d ch) (ts[i := bs @ as] @ new) = weight (awaits d ch) ts + of_bool (c = d \<and> ch = ?ch)" for ch
      using u(3-5) u(6) [of ch] s' by auto
    ultimately have "protocol (s', ts[i := bs @ as] @ new) d"
      using pd False idle free protocol_at_more_chans protocol_at_subscribe
      by (cases "c = d") (simp_all add: protocol_def s'(3))
    moreover have "own_channels s'" using assms(5) unfolding s'(3) own_channels_def by (auto dest: below)
    ultimately show ?thesis by simp
  qed
qed

lemma protocol_AwaitExecs:
  assumes "i < length ts" "ts ! i = AwaitExecs e c ch # as"
    and "handleInitExit_await e c ch s = Next bs new s'" "\<forall>d. protocol (s, ts) d" "own_channels s"
  shows "protocol (s', ts[i := bs @ as] @ new) d \<and> own_channels s'"
proof -
  note u = token_updates [OF assms(1,2), where d = d and bs = bs and new = new]
  have pd: "protocol (s, ts) d" and pc: "protocol (s, ts) c" using assms(4) by auto
  have "0 < weight (awaits c ch) ts" using weight_head [OF assms(1,2), of "awaits c ch"] by simp
  then have sub: "svExecCountSubscribers s c = Some ch"
    using pc by (auto simp: protocol_def protocol_at_def)
  then have ch: "ch < length (svChans s)" "counts_down (svChans s ! ch) (execs (s, ts) c)"
    using pc by (simp_all add: protocol_def protocol_at_def)
  obtain v rest where buf: "chBuf (svChans s ! ch) = v # rest"
    using assms(3) by (auto simp: handleInitExit_await_def Let_def split: list.splits)
  note pop = counts_down_pop [OF ch(2) buf]
  have v0: "v = 0 \<longleftrightarrow> execs (s, ts) c + length rest = 0" using pop(2) by linarith
  have other: "svExecCountSubscribers s d \<noteq> Some ch" if "c \<noteq> d"
    using assms(5) sub that by (auto simp: own_channels_def)
  have s': "new = []" "s' = s\<lparr>svChans := (svChans s)[ch := (svChans s ! ch)\<lparr>chBuf := rest\<rparr>]\<rparr>"
    "bs = (if execs (s, ts) c + length rest = 0 then [SetExit e c InitP, DropCounters c] else [AwaitExecs e c ch])"
    using assms(3) buf v0 by (auto simp: handleInitExit_await_def Let_def)
  have "execs (s', ts[i := bs @ as] @ new) d = execs (s, ts) d" "inits (s', ts[i := bs @ as] @ new) d = inits (s, ts) d"
    using u(1,2) by (auto simp: s' execs_def inits_def split: if_splits)
  moreover have "0 < weight (closing d) (ts[i := bs @ as] @ new) \<longrightarrow> 0 < weight (closing d) ts"
    using u(3) s'(1,3) weight_head [OF assms(1,2), of "closing d"] by (cases "c = d") (auto split: if_splits)
  ultimately have same: "svRunningExecs s' d = int (execs (s', ts[i := bs @ as] @ new) d)"
    "inits (s', ts[i := bs @ as] @ new) d \<le> 1"
    "0 < weight (closing d) (ts[i := bs @ as] @ new) \<longrightarrow> svContainerInitExit s' d \<noteq> None"
    "execs (s', ts[i := bs @ as] @ new) d = execs (s, ts) d"
    using pd s'(2) by (auto simp: protocol_def protocol_at_def)
  have "own_channels s'" using assms(5) s'(2) by (simp add: own_channels_def)
  moreover have "protocol (s', ts[i := bs @ as] @ new) d"
  proof (cases "c = d")
    case False
    then have "weight (finishing d) (ts[i := bs @ as] @ new) = weight (finishing d) ts"
      "weight (drops d) (ts[i := bs @ as] @ new) = weight (drops d) ts"
      "weight (awaits d ch') (ts[i := bs @ as] @ new) = weight (awaits d ch') ts" for ch'
      using u(4,5) u(6) [of ch'] s'(1,3) by (auto split: if_splits)
    then show ?thesis
      using pd same other [OF False] s'(2)
      by (cases "svExecCountSubscribers s d") (simp_all add: protocol_def protocol_at_def)
  next
    case True
    have one: "weight (awaits d ch) ts = 1 \<and> weight (drops d) ts = 0"
      using weight_init [of d ch ts] \<open>0 < weight (awaits c ch) ts\<close> pc True
      by (auto simp: protocol_def protocol_at_def inits_def)
    have none: "ch' \<noteq> ch \<Longrightarrow> weight (awaits d ch') ts = 0" for ch'
      using pc sub True by (simp add: protocol_def protocol_at_def)
    show ?thesis
    proof (cases "execs (s, ts) c + length rest = 0")
      case True
      then have "weight (drops d) (ts[i := bs @ as] @ new) = 1"
        "weight (awaits d ch') (ts[i := bs @ as] @ new) = 0" for ch'
        using u(5) u(6) [of ch'] one none [of ch'] \<open>c = d\<close> s'(1,3) by (cases "ch' = ch"; simp)+
      then show ?thesis
        using same True sub ch(1) pop(1) \<open>c = d\<close> s'(2) by (simp add: protocol_def protocol_at_def)
    next
      case False
      then have "weight (finishing d) (ts[i := bs @ as] @ new) = weight (finishing d) ts"
        "weight (drops d) (ts[i := bs @ as] @ new) = 0"
        "weight (awaits d ch') (ts[i := bs @ as] @ new) = weight (awaits d ch') ts" for ch'
        using u(4,5) u(6) [of ch'] one \<open>c = d\<close> s'(1,3) by auto
      then show ?thesis
        using pd same one False sub ch(1) pop(1) \<open>c = d\<close> s'(2) by (simp add: protocol_def protocol_at_def)
    qed
  qed
  ultimately show ?thesis by simp
qed

lemma protocol_DropCounters:
  assumes "i < length ts" "ts ! i = DropCounters c # as"
    and "handleInitExit_drop c s = Next bs new s'" "\<forall>d. protocol (s, ts) d" "own_channels s"
  shows "protocol (s', ts[i := bs @ as] @ new) d \<and> own_channels s'"
proof -
  note u = token_updates [OF assms(1,2), where d = d and bs = bs and new = new]
  have pd: "protocol (s, ts) d" and pc: "protocol (s, ts) c" using assms(4) by auto
  have dr: "0 < weight (drops c) ts" using weight_head [OF assms(1,2), of "drops c"] by simp
  then have none: "weight (awaits c ch) ts = 0" for ch
    using weight_init [of c ch ts] pc by (auto simp: protocol_def protocol_at_def inits_def)
  have "0 < weight (finishing c) ts" using dr weight_orders(3) [of c ts] by simp
  then have n: "execs (s, ts) c = 0" using pc by (simp add: protocol_def protocol_at_def)
  have s': "bs = []" "new = []" "s' = s\<lparr>svExecCountSubscribers := (svExecCountSubscribers s)(c := None),
      svRunningExecs := (svRunningExecs s)(c := 0)\<rparr>"
    using assms(3) by (simp_all add: handleInitExit_drop_def)
  have "execs (s', ts[i := bs @ as] @ new) d = execs (s, ts) d" "inits (s', ts[i := bs @ as] @ new) d \<le> inits (s, ts) d"
    using u(1,2) by (auto simp: s' execs_def inits_def)
  moreover have "weight (closing d) (ts[i := bs @ as] @ new) \<le> weight (closing d) ts"
    "weight (finishing d) (ts[i := bs @ as] @ new) \<le> weight (finishing d) ts"
    "c \<noteq> d \<Longrightarrow> weight (drops d) (ts[i := bs @ as] @ new) = weight (drops d) ts"
    "weight (awaits d ch) (ts[i := bs @ as] @ new) = weight (awaits d ch) ts" for ch
    using u(3-5) u(6) [of ch] s' by auto
  ultimately have "protocol (s', ts[i := bs @ as] @ new) d"
    using pd n none s'(3) by (cases "c = d") (auto simp: protocol_def protocol_at_def)
  then show ?thesis using assms(5) s'(3) by (simp add: own_channels_def)
qed

lemma protocol_ForgetInitExit:
  assumes "i < length ts" "ts ! i = ForgetInitExit c # as" "weight (closing c) ts = 0"
    and "act E (ForgetInitExit c) s = Next bs new s'" "protocol (s, ts) d" "own_channels s"
  shows "protocol (s', ts[i := bs @ as] @ new) d \<and> own_channels s'"
proof -
  have s': "bs = []" "new = []" "s' = s\<lparr>svContainerInitExit := (svContainerInitExit s)(c := None)\<rparr>"
    using assms(4) by simp_all
  have "same_tokens ts (ts[i := bs @ as] @ new)"
    using s' by (intro same_tokens_step [OF assms(1,2)]) simp_all
  then show ?thesis
    using assms(3,5,6) s'(3)
    by (auto simp: same_tokens_def protocol_def protocol_at_def execs_def inits_def own_channels_def)
qed

text \<open>A container that does not exist yet has no holder.\<close>

lemma fresh_inits:
  assumes "service_inv (s, ts)" "length (svHeap s) \<le> c"
  shows "inits (s, ts) c = 0"
proof -
  have "init_token c a = 0" if "th \<in> set ts" "a \<in> set th" for th a
    using assms that by (cases a) (auto simp: service_inv_def pending_all_def pref_ok_def dest!: bspec)
  then have "weight (init_token c) ts = 0" by (simp add: weight_def sum_list_zero)
  moreover have "running_inits c (svRunning s) = 0"
    using assms by (auto simp: service_inv_def tables_ok_def running_inits_def pref_ok_def filter_empty_conv dest!: bspec)
  ultimately show ?thesis by (simp add: inits_def)
qed

lemma protocol_CreateNew:
  assumes "i < length ts" "ts ! i = CreateNew r k # as" "service_inv (s, ts)"
    and "service_Create_new E r k s = Next bs new s'" "protocol (s, ts) d" "own_channels s"
  shows "protocol (s', ts[i := bs @ as] @ new) d \<and> own_channels s'"
  using assms(4)
proof (cases rule: Create_new_cases)
  case (first x)
  note u = token_updates [OF assms(1,2), where d = d and bs = bs and new = new]
  have "execs (s', ts[i := bs @ as] @ new) d = execs (s, ts) d"
    "inits (s', ts[i := bs @ as] @ new) d = inits (s, ts) d + of_bool (d = length (svHeap s))"
    using u(1,2) first by (auto simp: execs_def inits_def service_send_def)
  then show ?thesis
    using assms(5,6) fresh_inits [OF assms(3), of d] first u(3-)
    by (cases "d = length (svHeap s)") (simp_all add: protocol_def protocol_at_def service_send_def own_channels_def)
next
  case fails
  then have "same_tokens ts (ts[i := bs @ as] @ new)" "same_counters s s'"
    by (auto intro!: counts_nothing_drop [OF assms(1,2)] simp: same_counters_def counts_nothing_def)
  then show ?thesis using same_protocol assms(5,6) by blast
next
  case second
  then have "same_tokens ts (ts[i := bs @ as] @ new)" "same_counters s s'"
    by (auto intro!: counts_nothing_drop [OF assms(1,2)] simp: same_counters_def counts_nothing_def)
  then show ?thesis using same_protocol assms(5,6) by blast
qed

section \<open>The invariant is kept\<close>

lemma same_OtherCall:
  assumes "service_other cid f evt s = Next bs new s'"
  shows "bs = [] \<and> new = [] \<and> same_counters s s'"
proof -
  have "same_counters s (snd (container_op cid f evt s))"
    by (simp add: container_op_def same_counters_def set_container_def service_send_def
        split: res.split prod.split option.split)
  then show ?thesis
    using assms by (cases "container_op cid f evt s"; cases "fst (container_op cid f evt s)")
      (auto simp: service_other_def split: if_splits)
qed

fun counting_action :: "action \<Rightarrow> bool" where
  "counting_action (PreStart c eid) = True"
| "counting_action (StartFailed c) = True"
| "counting_action (ExecExited c) = True"
| "counting_action (HandleStarted c po k owed) = True"
| "counting_action NextExit = True"
| "counting_action (SendExit e c p) = True"
| "counting_action (InitExitCheck e c) = True"
| "counting_action (AwaitExecs e c ch) = True"
| "counting_action (DropCounters c) = True"
| "counting_action (ForgetInitExit c) = True"
| "counting_action (CreateNew r k) = True"
| "counting_action _ = False"

lemma protocol_plain:
  assumes "i < length ts" "ts ! i = a # as" "act E a s = Next bs new s'" "\<not> counting_action a"
  shows "same_tokens ts (ts[i := bs @ as] @ new) \<and> same_counters s s'"
proof (cases a)
  case (RunStart c eid k)
  with assms same_RunStart show ?thesis by simp
next
  case (OtherCall cid f evt)
  with assms same_OtherCall [of cid f evt s bs new s'] show ?thesis
    by (auto intro!: counts_nothing_drop [OF assms(1,2)] simp: counts_nothing_def)
next
  case (SetExit e c p)
  then have "bs = [SendExit e c p]" "new = []" "same_counters s s'"
    using assms(3) by (auto simp: handleProcessExit_set_def same_counters_def set_container_def
        split: prod.splits res.splits)
  moreover from this SetExit have "same_tokens ts (ts[i := bs @ as] @ new)"
    by (intro same_tokens_step [OF assms(1,2)]) simp_all
  ultimately show ?thesis by simp
next
  case (InitExit e c)
  then have "bs = [InitExitCheck e c]" "new = []" "same_counters s s'"
    using assms(3) by (auto simp: handleInitExit_kill_def same_counters_def set_container_def Let_def)
  moreover from this InitExit have "same_tokens ts (ts[i := bs @ as] @ new)"
    by (intro same_tokens_step [OF assms(1,2)]) simp_all
  ultimately show ?thesis by simp
next
  case (DeleteRun c cid eid)
  then have "\<forall>b \<in> set bs. counts_nothing b" "new = []" "same_counters s s'"
    using assms(3) by (auto simp: service_Delete_run_def same_counters_def set_container_def counts_nothing_def
        split: prod.splits res.splits)
  moreover have "counts_nothing a" using DeleteRun by (simp add: counts_nothing_def)
  ultimately show ?thesis using counts_nothing_step [OF assms(1,2)] by blast
next
  case (ExecReserve c r)
  then have "\<forall>b \<in> set bs. counts_nothing b" "new = []" "same_counters s s'"
    using assms(3) by (auto simp: service_Exec_reserve_def same_counters_def set_container_def counts_nothing_def
        split: prod.splits bool.splits)
  moreover have "counts_nothing a" using ExecReserve by (simp add: counts_nothing_def)
  ultimately show ?thesis using counts_nothing_step [OF assms(1,2)] by blast
next
  case (ExecRun c r)
  then have "bs = []" "new = []" "same_counters s s'"
    using assms(3) by (auto simp: service_Exec_run_def same_counters_def set_container_def service_send_def
        split: prod.splits res.splits)
  with ExecRun show ?thesis
    by (auto intro!: counts_nothing_drop [OF assms(1,2)] simp: counts_nothing_def)
next
  case (CreateLock r)
  then have "\<forall>b \<in> set bs. counts_nothing b" "new = []" "same_counters s s'"
    using assms(3) by (auto simp: service_Create_lock_def preStart_def Let_def same_counters_def counts_nothing_def
        split: if_splits)
  moreover have "counts_nothing a" using CreateLock by (simp add: counts_nothing_def)
  ultimately show ?thesis using counts_nothing_step [OF assms(1,2)] by blast
next
  case (SendStarted c eid p)
  then have "bs = []" "new = []" "same_counters s s'"
    using assms(3) by (auto simp: service_sendStarted_def same_counters_def service_send_def Let_def)
  with SendStarted show ?thesis
    by (auto intro!: counts_nothing_drop [OF assms(1,2)] simp: counts_nothing_def)
next
  case (DeleteEntry c cid)
  then have "bs = []" "new = []" "same_counters s s'"
    using assms(3) by (auto simp: service_Delete_entry_def same_counters_def service_send_def Let_def split: if_splits)
  with DeleteEntry show ?thesis
    by (auto intro!: counts_nothing_drop [OF assms(1,2)] simp: counts_nothing_def)
qed (use assms in \<open>auto simp: get_then_def same_counters_def service_cleanup_def counts_nothing_def
      intro!: counts_nothing_step [OF assms(1,2), of "[b]" "[]" for b, simplified] counts_nothing_drop [OF assms(1,2)]
      split: if_splits res.splits\<close>)

lemma protocol_act:
  assumes "protocol_inv (s, ts)" "i < length ts" "ts ! i = a # as" "quiet (s, ts) a"
    and "act E a s = Next bs new s'"
  shows "protocol (s', ts[i := bs @ as] @ new) d \<and> own_channels s'"
proof -
  have inv: "service_inv (s, ts)" "\<forall>d. protocol (s, ts) d" "protocol (s, ts) d" "own_channels s"
    using assms(1) by (auto simp: protocol_inv_def)
  have ok: "action_ok s a" using service_inv_head [OF inv(1) assms(2,3)] by simp
  note step = assms(2,3,5) inv
  show ?thesis
  proof (cases "counting_action a")
    case False
    from protocol_plain [OF assms(2,3,5) False] same_protocol inv show ?thesis by blast
  next
    case True
    then show ?thesis
    proof (cases a)
      case (PreStart c eid)
      with step assms(4) protocol_PreStart show ?thesis by simp
    next
      case (StartFailed c)
      with step protocol_exec_done [OF assms(2,3), of c s] show ?thesis by simp
    next
      case (ExecExited c)
      with step protocol_exec_done [OF assms(2,3), of c s] show ?thesis by simp
    next
      case (HandleStarted c po k owed)
      with step assms(4) ok protocol_HandleStarted [of i ts c po k owed as s bs new s' d] show ?thesis by simp
    next
      case NextExit
      with step protocol_NextExit show ?thesis by simp
    next
      case (SendExit e c p)
      with step protocol_SendExit show ?thesis by simp
    next
      case (InitExitCheck e c)
      with step protocol_InitExitCheck show ?thesis by simp
    next
      case (AwaitExecs e c ch)
      with step protocol_AwaitExecs show ?thesis by simp
    next
      case (DropCounters c)
      with step protocol_DropCounters show ?thesis by simp
    next
      case (ForgetInitExit c)
      with step assms(4) protocol_ForgetInitExit [of i ts c as E s bs new s' d] show ?thesis by simp
    next
      case (CreateNew r k)
      with step protocol_CreateNew show ?thesis by simp
    qed simp_all
  qed
qed

lemma protocol_step: "quiet_step x y \<Longrightarrow> protocol_inv x \<Longrightarrow> protocol_inv y"
proof (induction rule: quiet_step.induct)
  case (acts i ts a as s E bs new s')
  then have "service_inv (s', ts[i := bs @ as] @ new)"
    using service_inv_act [OF _ acts.hyps(1,2,4)] by (simp add: protocol_inv_def)
  with protocol_act [OF acts.prems acts.hyps] show ?case by (simp add: protocol_inv_def)
next
  case (request a s ts)
  have "counts_nothing a" using request.hyps by (cases a) (simp_all add: counts_nothing_def)
  then have "same_tokens ts (ts @ [[a]])" by (simp add: same_tokens_def counts_nothing_def)
  with same_protocol [OF this, of s s] service_inv_step [OF service_step.request, OF request.hyps] request.prems
  show ?case by (simp add: protocol_inv_def same_counters_def)
next
  case (reports s ts cid e)
  let ?t = "s\<lparr>svEc := svEc s @ [(cid, e)]\<rparr>"
  have "same_tokens ts ts" "same_counters s ?t" by (simp_all add: same_tokens_def same_counters_def)
  with same_protocol [OF this] service_inv_step [OF service_step.reports [of s ts cid e]] reports.prems
  show ?case by (simp add: protocol_inv_def)
qed

interpretation quiet_life: inductive_invariant service_start quiet_step protocol_inv
proof
  show "service_start x \<Longrightarrow> protocol_inv x" for x
  proof -
    assume x: "service_start x"
    then have "reachable service_start service_step x" by (rule reachable.at_start)
    with x show ?thesis
      using service_life.reachable_inv [of x]
      by (auto simp: protocol_inv_def service_start_def NewTaskService_def own_channels_def protocol_def
          protocol_at_def execs_def inits_def running_execs_def running_inits_def)
  qed
qed (rule protocol_step)

section \<open>Running an execution\<close>

text \<open>A schedule: which thread acts next and in which environment, which request or exit arrives.\<close>

datatype move = Act env nat | Request action | Report string exit

fun plain_request :: "action \<Rightarrow> bool" where
  "plain_request (StartGet _ _) \<longleftrightarrow> True"
| "plain_request (CreateLock _) \<longleftrightarrow> True"
| "plain_request (DeleteGet _ _) \<longleftrightarrow> True"
| "plain_request (ExecGet _ _) \<longleftrightarrow> True"
| "plain_request _ \<longleftrightarrow> False"

fun run_move :: "(system \<Rightarrow> action \<Rightarrow> bool) \<Rightarrow> move \<Rightarrow> system \<Rightarrow> system option" where
  "run_move guard (Act E i) (s, ts) =
     (if i < length ts then
        (case ts ! i of
           [] \<Rightarrow> None
         | a # as \<Rightarrow>
             (if guard (s, ts) a then
                (case act E a s of
                   Next bs new s' \<Rightarrow> Some (s', ts[i := bs @ as] @ new)
                 | _ \<Rightarrow> None)
              else None))
      else None)"
| "run_move guard (Request a) (s, ts) = (if plain_request a then Some (s, ts @ [[a]]) else None)"
| "run_move guard (Report cid e) (s, ts) = Some (s\<lparr>svEc := svEc s @ [(cid, e)]\<rparr>, ts)"

fun run :: "(system \<Rightarrow> action \<Rightarrow> bool) \<Rightarrow> move list \<Rightarrow> system \<Rightarrow> system option" where
  "run guard [] x = Some x"
| "run guard (m # ms) x = (case run_move guard m x of None \<Rightarrow> None | Some y \<Rightarrow> run guard ms y)"

lemma plain_request_ok: "plain_request a \<Longrightarrow> is_request a"
  by (cases a) simp_all

lemma run_move_quiet: "run_move quiet m x = Some y \<Longrightarrow> quiet_step x y"
  by (cases m; cases x)
    (auto simp: plain_request_ok intro: quiet_step.intros split: if_splits list.splits outcome.splits)

lemma run_move_service: "run_move (\<lambda>_ _. True) m x = Some y \<Longrightarrow> service_step x y"
  by (cases m; cases x)
    (auto simp: plain_request_ok intro: service_step.intros split: if_splits list.splits outcome.splits)

lemma run_reachable:
  assumes step: "\<And>m x y. run_move guard m x = Some y \<Longrightarrow> step x y"
  shows "reachable start step x \<Longrightarrow> run guard ms x = Some y \<Longrightarrow> reachable start step y"
proof (induction ms arbitrary: x)
  case (Cons m ms)
  then obtain z where z: "run_move guard m x = Some z" "run guard ms z = Some y" by (auto split: option.splits)
  from Cons.IH [OF reachable.by_step [OF Cons.prems(1) step [OF z(1)]] z(2)] show ?case .
qed simp

definition booted :: system where
  "booted = (NewTaskService, [[NextExit]])"

lemma booted_start: "service_start booted"
  by (simp add: service_start_def booted_def)

lemma run_quiet: "run quiet ms booted = Some x \<Longrightarrow> reachable service_start quiet_step x"
  by (rule run_reachable [where step = quiet_step, OF run_move_quiet reachable.at_start [of service_start, OF booted_start]])

lemma run_service: "run (\<lambda>_ _. True) ms booted = Some x \<Longrightarrow> reachable service_start service_step x"
  by (rule run_reachable [where step = service_step, OF run_move_service reachable.at_start [of service_start, OF booted_start]])

text \<open>A container with a terminal, an exec in it, and the schedules that drive them.\<close>

definition turns :: "nat \<Rightarrow> env \<Rightarrow> nat \<Rightarrow> move list" where
  "turns n E i = replicate n (Act E i)"

definition env_exec :: env where
  "env_exec = env_ok\<lparr>rtReadPidFile := (\<lambda>_. Inr 43)\<rparr>"

definition create_c1 :: "move list" where
  "create_c1 = Request (CreateLock tty_create_request) # turns 5 env_ok 1"

definition exec_sh :: "move list" where
  "exec_sh = Request (ExecGet ''c1'' sh_request) # turns 3 env_exec 2"

definition init_exits :: move where
  "init_exits = Report ''c1'' \<lparr>exPid = 42, exStatus = 0\<rparr>"

definition exec_exits :: move where
  "exec_exits = Report ''c1'' \<lparr>exPid = 43, exStatus = 0\<rparr>"

section \<open>Properties of quiet executions\<close>

text \<open>
  C6: The exec counter of a container is exact in every quiet execution: it is the number of its
  execs that are running, are being started, or whose exit is not accounted for yet. So it never
  goes negative.
\<close>

theorem quiet_counter_exact:
  assumes "reachable service_start quiet_step x"
  shows "svRunningExecs (fst x) c = int (execs x c)"
  using quiet_life.reachable_inv [OF assms] by (simp add: protocol_inv_def protocol_def protocol_at_def)

text \<open>
  C1: The exit of the init process is the last exit published. In a quiet execution, once an
  action is pending that records or publishes the exit of the init process of a container, the container has no
  exec left, and no exec can be started in it.
\<close>

theorem quiet_init_exit_last:
  assumes "reachable service_start quiet_step (s, ts)" "th \<in> set ts"
    and "SetExit e c InitP \<in> set th \<or> SendExit e c InitP \<in> set th"
  shows "execs (s, ts) c = 0 \<and> svRunningExecs s c = 0 \<and>
    (\<forall>eid. eid \<noteq> [] \<longrightarrow> service_preStart c eid s = Next [] [] s)"
proof -
  have "0 < weight (finishing c) ts"
    using assms(2,3) by (auto simp: weight_def in_set_conv_decomp)
  moreover from this have "0 < weight (closing c) ts" using weight_orders(1) [of c ts] by simp
  ultimately show ?thesis
    using quiet_life.reachable_inv [OF assms(1)]
    by (auto simp: protocol_inv_def protocol_def protocol_at_def service_preStart_def)
qed

text \<open>
  C19: The protocol does not get stuck. In a quiet execution giving back an exec never blocks on the
  channel of the waiting goroutine, handling an init exit never panics, and when the last exec
  is accounted for the waiting goroutine can go on.
\<close>

theorem quiet_never_stuck:
  assumes "reachable service_start quiet_step (s, ts)" "i < length ts" "ts ! i = a # as"
  shows "(a = StartFailed c \<or> a = ExecExited c \<longrightarrow> (\<exists>s'. act E a s = Next [] [] s')) \<and>
    (a = InitExitCheck e c \<longrightarrow> (\<exists>bs new s'. act E a s = Next bs new s')) \<and>
    (a = AwaitExecs e c ch \<and> execs (s, ts) c = 0 \<longrightarrow> (\<exists>bs s'. act E a s = Next bs [] s'))"
proof (intro conjI impI)
  have p: "protocol (s, ts) c"
    using quiet_life.reachable_inv [OF assms(1)] by (simp add: protocol_inv_def)
  then have cnt: "svRunningExecs s c = int (execs (s, ts) c)" by (simp add: protocol_def protocol_at_def)
  {
    assume a: "a = StartFailed c \<or> a = ExecExited c"
    then have "0 < execs (s, ts) c"
      using weight_head [OF assms(2,3), of "exec_token c"] by (auto simp: execs_def)
    then obtain n where n: "execs (s, ts) c = Suc n" by (metis gr0_implies_Suc)
    have "length (chBuf (svChans s ! ch)) < chCap (svChans s ! ch)" if "svExecCountSubscribers s c = Some ch" for ch
      using p that n counts_down_push(2) [of "svChans s ! ch" n] by (simp add: protocol_def protocol_at_def)
    then show "\<exists>s'. act E a s = Next [] [] s'"
      using a by (auto simp: exec_done_notify_def Let_def split: option.split)
  next
    assume "a = InitExitCheck e c"
    then show "\<exists>bs new s'. act E a s = Next bs new s'"
      using cnt by (simp add: handleInitExit_check_def Let_def)
  next
    assume a: "a = AwaitExecs e c ch \<and> execs (s, ts) c = 0"
    then have w: "0 < weight (awaits c ch) ts" using weight_head [OF assms(2,3), of "awaits c ch"] by simp
    then have "svExecCountSubscribers s c = Some ch" using p by (auto simp: protocol_def protocol_at_def)
    with p a w have "chBuf (svChans s ! ch) \<noteq> []" by (simp add: protocol_def protocol_at_def)
    then show "\<exists>bs s'. act E a s = Next bs [] s'"
      using a by (auto simp: handleInitExit_await_def Let_def split: list.split)
  }
qed

definition start_sh :: "nat \<Rightarrow> move list" where
  "start_sh i = Request (StartGet ''c1'' ''sh'') # turns 6 env_exec i"

text \<open>An exec is running when the init process exits; its own exit follows.\<close>

definition quiet_schedule :: "move list" where
  "quiet_schedule = create_c1 @ exec_sh @ start_sh 3 @ [init_exits] @ turns 3 env_ok 0 @
     [exec_exits] @ turns 4 env_ok 0"

fun init_awaiting :: "action list \<Rightarrow> bool" where
  "init_awaiting (AwaitExecs e c ch # as) \<longleftrightarrow> c = 0 \<and> ch = 0"
| "init_awaiting _ \<longleftrightarrow> False"

fun init_checking :: "action list \<Rightarrow> bool" where
  "init_checking (InitExitCheck e c # as) \<longleftrightarrow> c = 0"
| "init_checking _ \<longleftrightarrow> False"

fun init_publishing :: "action list \<Rightarrow> bool" where
  "init_publishing (SetExit e c p # as) \<longleftrightarrow> c = 0 \<and> p = InitP"
| "init_publishing _ \<longleftrightarrow> False"

fun_cases init_awaitingE: "init_awaiting as" and init_checkingE: "init_checking as" and init_publishingE: "init_publishing as"

lemma quiet_schedule_runs:
  "\<exists>s ts. run quiet quiet_schedule booted = Some (s, ts) \<and> execs (s, ts) 0 = 0 \<and> 4 < length ts \<and> init_awaiting (ts ! 4)"
proof -
  have "case run quiet quiet_schedule booted of
      None \<Rightarrow> False | Some (s, ts) \<Rightarrow> execs (s, ts) 0 = 0 \<and> 4 < length ts \<and> init_awaiting (ts ! 4)"
    by code_simp
  then show ?thesis by (auto split: option.splits)
qed

lemma quiet_schedule_publishes:
  "\<exists>s ts. run quiet (quiet_schedule @ turns 1 env_ok 4) booted = Some (s, ts) \<and> 4 < length ts \<and> init_publishing (ts ! 4)"
proof -
  have "case run quiet (quiet_schedule @ turns 1 env_ok 4) booted of
      None \<Rightarrow> False | Some (s, ts) \<Rightarrow> 4 < length ts \<and> init_publishing (ts ! 4)"
    by code_simp
  then show ?thesis by (auto split: option.splits)
qed

theorem quiet_counter_exact_witness:
  "\<exists>s ts. run quiet (create_c1 @ exec_sh @ start_sh 3) booted = Some (s, ts) \<and> svRunningExecs s 0 = 1 \<and>
     execs (s, ts) 0 = 1"
proof -
  have "case run quiet (create_c1 @ exec_sh @ start_sh 3) booted of
      None \<Rightarrow> False | Some (s, ts) \<Rightarrow> execs (s, ts) 0 = 1"
    by code_simp
  then obtain s ts where r: "run quiet (create_c1 @ exec_sh @ start_sh 3) booted = Some (s, ts)" "execs (s, ts) 0 = 1"
    by (auto split: option.splits)
  then show ?thesis using quiet_counter_exact [OF run_quiet [OF r(1)], of 0] by auto
qed

theorem quiet_init_exit_last_witness:
  "\<exists>s ts. run quiet (quiet_schedule @ turns 1 env_ok 4) booted = Some (s, ts) \<and> svRunningExecs s 0 = 0 \<and>
     service_preStart 0 ''sh'' s = Next [] [] s"
proof -
  obtain s ts where r: "run quiet (quiet_schedule @ turns 1 env_ok 4) booted = Some (s, ts)" "4 < length ts"
    "init_publishing (ts ! 4)" using quiet_schedule_publishes by blast
  then obtain e as where "ts ! 4 = SetExit e 0 InitP # as" by (auto elim: init_publishingE)
  with quiet_init_exit_last [OF run_quiet [OF r(1)] nth_mem [OF r(2)], of e 0] r(1) show ?thesis by auto
qed

theorem quiet_never_stuck_witness:
  "\<exists>s ts e. run quiet quiet_schedule booted = Some (s, ts) \<and>
     (\<exists>bs s'. act env_ok (AwaitExecs e 0 0) s = Next bs [] s')"
proof -
  obtain s ts where r: "run quiet quiet_schedule booted = Some (s, ts)" "execs (s, ts) 0 = 0" "4 < length ts"
    "init_awaiting (ts ! 4)" using quiet_schedule_runs by blast
  then obtain e as where "ts ! 4 = AwaitExecs e 0 0 # as" by (auto elim: init_awaitingE)
  with quiet_never_stuck [OF run_quiet [OF r(1)] r(3), of "AwaitExecs e 0 0" as 0 env_ok e 0] r show ?thesis by auto
qed

section \<open>Executions that are not quiet\<close>



end
