(* ===== verification/Tasks.thy ===== *)
theory Tasks
  imports GoStrings "HOL-Library.AList" "HOL-Library.List_Lexorder" "HOL-Library.Char_ord"
begin

text \<open>
  The data of a task group: the state of a task (\<open>pkg/taskgroup/task.go\<close>) and the error that
  collects the failures of a group (\<open>pkg/taskgroup/errors.go\<close>). An error value is its text.
  Times and metadata are left out.
\<close>

section \<open>Tasks\<close>

datatype TaskStatus =
    TaskStatusPending
  | TaskStatusRunning
  | TaskStatusCompleted
  | TaskStatusFailed
  | TaskStatusPanicked
  | TaskStatusCanceled

fun TaskStatus_String :: "TaskStatus \<Rightarrow> string" where
  "TaskStatus_String TaskStatusPending = ''pending''"
| "TaskStatus_String TaskStatusRunning = ''running''"
| "TaskStatus_String TaskStatusCompleted = ''completed''"
| "TaskStatus_String TaskStatusFailed = ''failed''"
| "TaskStatus_String TaskStatusPanicked = ''panicked''"
| "TaskStatus_String TaskStatusCanceled = ''canceled''"

record TaskState =
  tsID :: string
  tsIDX :: int
  tsName :: string
  tsStatus :: TaskStatus
  tsError :: "string option"
  tsPanicInfo :: "string option"
  tsGoroutineID :: "64 word"

definition TaskState_IsRunning :: "TaskState \<Rightarrow> bool" where
  "TaskState_IsRunning t \<longleftrightarrow> tsStatus t = TaskStatusRunning"

definition TaskState_IsCompleted :: "TaskState \<Rightarrow> bool" where
  "TaskState_IsCompleted t \<longleftrightarrow>
     tsStatus t = TaskStatusCompleted \<or> tsStatus t = TaskStatusFailed \<or> tsStatus t = TaskStatusPanicked"

section \<open>The error of a group\<close>

text \<open>The map of errors is a list of entries with distinct keys, in the order the map is visited.\<close>

record TaskGroupError =
  geTaskErrors :: "(string \<times> string) list"
  gePanicCount :: int
  geFailCount :: int

definition NewTaskGroupError :: TaskGroupError where
  "NewTaskGroupError = \<lparr>geTaskErrors = [], gePanicCount = 0, geFailCount = 0\<rparr>"

definition is_panic_text :: "string \<Rightarrow> bool" where
  "is_panic_text e = str_contains e ''panic in task:''"

definition AddTaskError :: "string \<Rightarrow> string option \<Rightarrow> TaskGroupError \<Rightarrow> TaskGroupError" where
  "AddTaskError name err g =
     (case err of
        None \<Rightarrow> g
      | Some e \<Rightarrow>
          (let g1 = g\<lparr>geTaskErrors := AList.update name e (geTaskErrors g)\<rparr>
           in if is_panic_text e then g1\<lparr>gePanicCount := gePanicCount g1 + 1\<rparr>
              else g1\<lparr>geFailCount := geFailCount g1 + 1\<rparr>))"

definition HasErrors :: "TaskGroupError \<Rightarrow> bool" where
  "HasErrors g \<longleftrightarrow> 0 < length (geTaskErrors g)"

definition GetTaskError :: "TaskGroupError \<Rightarrow> string \<Rightarrow> string option" where
  "GetTaskError g name = map_of (geTaskErrors g) name"

definition GetFailedTaskNames :: "TaskGroupError \<Rightarrow> string list" where
  "GetFailedTaskNames g = sort (map fst (geTaskErrors g))"

definition TaskGroupError_Unwrap :: "TaskGroupError \<Rightarrow> string list" where
  "TaskGroupError_Unwrap g = map snd (geTaskErrors g)"

definition error_summary :: "nat \<Rightarrow> nat \<Rightarrow> nat \<Rightarrow> string" where
  "error_summary n failed panicked =
     (if 0 < failed \<and> 0 < panicked then
        ''taskgroup failed with '' @ nat_digits n @ '' error(s) ('' @ nat_digits failed @
        '' failed, '' @ nat_digits panicked @ '' panicked)''
      else if 0 < panicked then ''taskgroup failed with '' @ nat_digits panicked @ '' panic(s)''
      else ''taskgroup failed with '' @ nat_digits n @ '' error(s)'')"

definition TaskGroupError_Error :: "TaskGroupError \<Rightarrow> string" where
  "TaskGroupError_Error g =
     (if length (geTaskErrors g) = 0 then ''taskgroup completed with no errors''
      else
        (let panicked = length (filter (\<lambda>x. is_panic_text (snd x)) (geTaskErrors g));
             failed = length (filter (\<lambda>x. \<not> is_panic_text (snd x)) (geTaskErrors g));
             names = sort (map fst (geTaskErrors g))
         in join_with [CHR 0x0A]
              (error_summary (length (geTaskErrors g)) failed panicked #
               map (\<lambda>n. ''  - '' @ n @ '': '' @
                        (case map_of (geTaskErrors g) n of None \<Rightarrow> [] | Some e \<Rightarrow> e)) names)))"

text \<open>The error after a sequence of failures, each a task name and an error text.\<close>

definition collect :: "(string \<times> string) list \<Rightarrow> TaskGroupError" where
  "collect es = fold (\<lambda>(n, e). AddTaskError n (Some e)) es NewTaskGroupError"

section \<open>Profiler labels\<close>

text \<open>
  The labels of a task, as keys and values in turn. The labels of the group and the metadata, with its
  values printed, are in the order the loops visit them; the metadata stops at 32.
\<close>

fun add_metadata :: "string list \<Rightarrow> (string \<times> string) list \<Rightarrow> string list" where
  "add_metadata labels [] = labels"
| "add_metadata labels ((k, v) # md) =
     add_metadata (if length labels < 32 then labels @ [''meta_'' @ k, v] else labels) md"

definition createPprofLabels ::
  "string \<Rightarrow> (string \<times> string) list \<Rightarrow> string \<Rightarrow> string \<Rightarrow> (string \<times> string) list \<Rightarrow> string list" where
  "createPprofLabels gname pprofLabels i n metadata =
     add_metadata
       ([''task_id'', i, ''task_name'', n, ''taskgroup'', gname, ''task_status'', ''running''] @
        concat (map (\<lambda>(k, v). [k, v]) pprofLabels))
       metadata"

lemma add_metadata_length:
  "even (length labels) \<Longrightarrow> even (length (add_metadata labels md)) \<and>
     length (add_metadata labels md) = min (length labels + 2 * length md) (max 32 (length labels))"
proof (induction labels md rule: add_metadata.induct)
  case (2 labels k v md)
  show ?case
  proof (cases "length labels < 32")
    case True
    then have "length labels + 2 \<le> 32" using "2.prems" by presburger
    then show ?thesis using "2.IH" "2.prems" True by (auto simp: min_def max_def)
  next
    case False
    then show ?thesis using "2.IH" "2.prems" by (auto simp: min_def max_def)
  qed
qed simp

text \<open>A label list always pairs up, and metadata is dropped only when there are 32 labels.\<close>

lemma createPprofLabels_length:
  "even (length (createPprofLabels g ls i n md)) \<and>
   length (createPprofLabels g ls i n md) =
     min (8 + 2 * length ls + 2 * length md) (max 32 (8 + 2 * length ls))"
proof -
  have "length (concat (map (\<lambda>(k, v). [k, v]) ls)) = 2 * length ls" by (induction ls) auto
  then show ?thesis
    using add_metadata_length [of "[''task_id'', i, ''task_name'', n, ''taskgroup'', g, ''task_status'', ''running''] @
      concat (map (\<lambda>(k, v). [k, v]) ls)" md]
    by (auto simp: createPprofLabels_def min_def max_def)
qed

section \<open>Lemmas\<close>

lemma AddTaskError_errors:
  "geTaskErrors (AddTaskError n (Some e) g) = AList.update n e (geTaskErrors g)"
  by (simp add: AddTaskError_def Let_def)

lemma AddTaskError_counts:
  "gePanicCount (AddTaskError n (Some e) g) + geFailCount (AddTaskError n (Some e) g) =
     gePanicCount g + geFailCount g + 1"
  by (simp add: AddTaskError_def Let_def)

lemma collect_snoc: "collect (es @ [(n, e)]) = AddTaskError n (Some e) (collect es)"
  by (simp add: collect_def)

lemma collect_errors:
  "map_of (geTaskErrors (collect es)) = map_of (rev es) \<and> distinct (map fst (geTaskErrors (collect es)))"
proof (induction es rule: rev_induct)
  case (snoc x es)
  obtain n e where "x = (n, e)" by (cases x)
  with snoc show ?case
    by (simp add: collect_snoc AddTaskError_errors update_conv' distinct_update fun_eq_iff)
qed (simp add: collect_def NewTaskGroupError_def)

lemma collect_dom: "fst ` set (geTaskErrors (collect es)) = fst ` set es"
  using collect_errors [of es] dom_map_of_conv_image_fst [of "geTaskErrors (collect es)"]
    dom_map_of_conv_image_fst [of "rev es"] by simp

lemma collect_length: "length (geTaskErrors (collect es)) = card (fst ` set es)"
  using collect_errors [of es] collect_dom [of es] distinct_card by fastforce

lemma failed_names: "GetFailedTaskNames (collect es) = sorted_list_of_set (fst ` set es)"
proof -
  have "sort (map fst (geTaskErrors (collect es))) = sorted_list_of_set (set (map fst (geTaskErrors (collect es))))"
    using collect_errors [of es] by (metis sorted_list_of_set_sort_remdups distinct_remdups_id)
  then show ?thesis using collect_dom [of es] by (simp add: GetFailedTaskNames_def)
qed

lemma nat_digits_no_newline: "CHR 0x0A \<notin> set (nat_digits n)"
proof
  assume "CHR 0x0A \<in> set (nat_digits n)"
  then obtain d where d: "d < 10" "CHR 0x0A = digit_char d" using nat_digits_are_digits by blast
  then have "(of_char (CHR 0x0A) :: nat) = 48 + d" using digit_char_code by metis
  then show False by simp
qed

lemma error_summary_line: "CHR 0x0A \<notin> set (error_summary n f p)"
  by (simp add: error_summary_def nat_digits_no_newline)

section \<open>Properties\<close>

text \<open>
  What a group error holds after any sequence of task failures: the counters add up to the
  number of failures, the failed names are listed once each in ascending order, and the error
  kept for a name is the last one reported under it. So failures of tasks that share a name are
  counted but all except the last are lost; tasks started without a name all share the empty name.
\<close>

lemma collect_keeps_last:
  "gePanicCount (collect es) + geFailCount (collect es) = int (length es) \<and>
   sorted (GetFailedTaskNames (collect es)) \<and> distinct (GetFailedTaskNames (collect es)) \<and>
   set (GetFailedTaskNames (collect es)) = fst ` set es \<and>
   GetTaskError (collect es) = map_of (rev es) \<and>
   length (TaskGroupError_Unwrap (collect es)) = card (fst ` set es) \<and>
   (HasErrors (collect es) \<longleftrightarrow> es \<noteq> [])"
proof -
  have "gePanicCount (collect es) + geFailCount (collect es) = int (length es)"
    by (induction es rule: rev_induct)
      (auto simp: collect_snoc AddTaskError_counts, simp add: collect_def NewTaskGroupError_def)
  then show ?thesis
    using collect_errors [of es] collect_length [of es]
    by (simp add: failed_names GetTaskError_def [abs_def] TaskGroupError_Unwrap_def HasErrors_def card_gt_0_iff
        fun_eq_iff [where f = "GetTaskError _"])
qed

text \<open>
  The message of a group error has one line for the summary and one for each failed name, in
  ascending order, when the names and the errors are single lines.
\<close>

lemma group_error_message_lines:
  assumes "es \<noteq> []" "\<forall>(n, e) \<in> set es. CHR 0x0A \<notin> set n \<and> CHR 0x0A \<notin> set e"
  shows "tl (split_on (CHR 0x0A) (TaskGroupError_Error (collect es))) =
    map (\<lambda>n. ''  - '' @ n @ '': '' @ the (map_of (rev es) n)) (sorted_list_of_set (fst ` set es))"
proof -
  let ?f = "\<lambda>n. ''  - '' @ n @ '': '' @ (case map_of (geTaskErrors (collect es)) n of None \<Rightarrow> [] | Some e \<Rightarrow> e)"
  have err: "map_of (geTaskErrors (collect es)) = map_of (rev es)" using collect_errors [of es] by simp
  have line: "CHR 0x0A \<notin> set (?f n) \<and> ?f n = ''  - '' @ n @ '': '' @ the (map_of (rev es) n)"
    if n: "n \<in> fst ` set es" for n
  proof -
    obtain e where e: "map_of (rev es) n = Some e"
      using n map_of_eq_None_iff [of "rev es" n] by (cases "map_of (rev es) n") auto
    then have "(n, e) \<in> set es" using map_of_SomeD by fastforce
    then show ?thesis using assms(2) e err by auto
  qed
  have "length (geTaskErrors (collect es)) \<noteq> 0"
    using collect_length [of es] assms(1) by simp
  then have "TaskGroupError_Error (collect es) = join_with [CHR 0x0A]
      (error_summary (length (geTaskErrors (collect es)))
         (length (filter (\<lambda>x. \<not> is_panic_text (snd x)) (geTaskErrors (collect es))))
         (length (filter (\<lambda>x. is_panic_text (snd x)) (geTaskErrors (collect es)))) #
       map ?f (sorted_list_of_set (fst ` set es)))"
    using failed_names [of es] by (simp add: TaskGroupError_Error_def Let_def GetFailedTaskNames_def)
  moreover have "split_on (CHR 0x0A) (join_with [CHR 0x0A] (error_summary a b c # map ?f (sorted_list_of_set (fst ` set es)))) =
      error_summary a b c # map ?f (sorted_list_of_set (fst ` set es))" for a b c
  proof (rule split_join)
    fix p
    assume "p \<in> set (error_summary a b c # map ?f (sorted_list_of_set (fst ` set es)))"
    then consider "p = error_summary a b c" | n where "n \<in> fst ` set es" "p = ?f n" by auto
    then show "CHR 0x0A \<notin> set p" using line error_summary_line by cases metis+
  qed simp
  ultimately show ?thesis using line by simp
qed


end
