(* ===== verification/GoroutineDump.thy ===== *)
theory GoroutineDump
  imports Tasks
begin

text \<open>
  How a task group reads goroutine dumps (\<open>pkg/taskgroup/taskgroup.go\<close>): the id of the current
  goroutine from the head of its stack trace, and the blocked tasks from a profile of all goroutines. The
  texts come from the Go runtime and are arguments.
\<close>

section \<open>The id of a goroutine\<close>

fun goroutine_digits :: "64 word \<Rightarrow> string \<Rightarrow> 64 word" where
  "goroutine_digits acc [] = acc"
| "goroutine_digits acc (c # cs) =
     goroutine_digits
       (case digit_val c of Some d \<Rightarrow> acc * 10 + of_nat d | None \<Rightarrow> acc) cs"

text \<open>The trace is written into a buffer of 64 bytes; what does not fit is cut off.\<close>

definition getGoroutineID :: "string \<Rightarrow> 64 word" where
  "getGoroutineID stack =
     (let buf = drop 10 (take 64 stack)
      in case str_index (CHR '' '') buf of
           None \<Rightarrow> 0
         | Some i \<Rightarrow> goroutine_digits 0 (take i buf))"

section \<open>Profiles\<close>

record BlockLocation =
  blFunction :: string
  blFile :: string
  blLine :: int

record BlockedTaskInfo =
  btTaskID :: string
  btTaskName :: string
  btGoroutineID :: "64 word"
  btBlockReason :: string
  btBlockedAt :: BlockLocation

definition blockingStates :: "string list" where
  "blockingStates =
     [''chan receive'', ''chan send'', ''select'', ''IO wait'', ''sync.Mutex'', ''sync.RWMutex'',
      ''sync.WaitGroup'', ''sync.Cond'', ''semacquire'', ''sleep'', ''timer goroutine'',
      ''chan receive (nil chan)'', ''chan send (nil chan)'']"

definition isBlockingState :: "string \<Rightarrow> bool" where
  "isBlockingState st = (\<exists>b \<in> set blockingStates. str_contains st b)"

definition parseGoroutineHeader :: "string \<Rightarrow> 64 word \<times> string \<times> bool" where
  "parseGoroutineHeader line =
     (let parts = split_on (CHR '' '') line
      in if length parts < 3 then (0, [], False)
         else
           (let gid = (case ParseUint64 (parts ! 1) of Some n \<Rightarrow> of_nat n | None \<Rightarrow> 0);
                reasonPart = join_with '' '' (drop 2 parts)
            in case str_index (CHR ''['') reasonPart of
                 None \<Rightarrow> (gid, [], False)
               | Some st \<Rightarrow>
                   (case str_index (CHR '']'') (drop st reasonPart) of
                      None \<Rightarrow> (gid, [], False)
                    | Some en \<Rightarrow>
                        (let reason = take (en - 1) (drop (st + 1) reasonPart)
                         in (gid, reason, isBlockingState reason)))))"

definition parseFileLocation :: "string \<Rightarrow> string \<Rightarrow> BlockLocation" where
  "parseFileLocation funcLine fileLine =
     (let function = hd (split_on (CHR ''('') funcLine);
          unknown = \<lparr>blFunction = function, blFile = ''unknown'', blLine = 0\<rparr>
      in case str_last_index (CHR '':'') fileLine of
           None \<Rightarrow> unknown
         | Some i \<Rightarrow>
             (let lineStr = drop (i + 1) fileLine;
                  lineStr = (case str_index (CHR '' '') lineStr of None \<Rightarrow> lineStr | Some j \<Rightarrow> take j lineStr)
              in case Atoi lineStr of
                   Some line \<Rightarrow> \<lparr>blFunction = function, blFile = take i fileLine, blLine = line\<rparr>
                 | None \<Rightarrow> unknown))"

text \<open>The loop of \<open>parseBlockingLocation\<close> over the lines from the start index on, at most \<open>n\<close> of them.\<close>

fun scan_location :: "nat \<Rightarrow> string list \<Rightarrow> BlockLocation" where
  "scan_location (Suc n) (l # ls) =
     (let line = TrimSpace l
      in if line = [] \<or> prefix ''runtime.'' line then scan_location n ls
         else if str_contains line ''('' \<and> ls \<noteq> [] \<and> str_contains (TrimSpace (hd ls)) '':''
         then parseFileLocation line (TrimSpace (hd ls))
         else scan_location n ls)"
| "scan_location n ls = \<lparr>blFunction = ''unknown'', blFile = ''unknown'', blLine = 0\<rparr>"

definition parseBlockingLocation :: "string list \<Rightarrow> nat \<Rightarrow> BlockLocation" where
  "parseBlockingLocation lines start = scan_location 10 (drop start lines)"

text \<open>The map from goroutine ids to tasks; a later task replaces an earlier one.\<close>

definition goroutineToTask :: "TaskState list \<Rightarrow> 64 word \<Rightarrow> TaskState option" where
  "goroutineToTask running =
     map_of (rev (map (\<lambda>t. (tsGoroutineID t, t)) (filter (\<lambda>t. tsGoroutineID t \<noteq> 0) running)))"

fun scan_profile :: "(64 word \<Rightarrow> TaskState option) \<Rightarrow> string list \<Rightarrow> nat \<Rightarrow> nat \<Rightarrow> BlockedTaskInfo list" where
  "scan_profile tasks lines i 0 = []"
| "scan_profile tasks lines i (Suc n) =
     (let line = TrimSpace (lines ! i);
          found =
            (if prefix ''goroutine '' line \<and> str_contains line ''['' then
               (case parseGoroutineHeader line of
                  (gid, reason, blocked) \<Rightarrow>
                    if \<not> blocked \<or> gid = 0 then []
                    else (case tasks gid of
                            None \<Rightarrow> []
                          | Some t \<Rightarrow>
                              [\<lparr>btTaskID = tsID t, btTaskName = tsName t, btGoroutineID = gid,
                                btBlockReason = reason,
                                btBlockedAt = parseBlockingLocation lines (i + 1)\<rparr>]))
             else [])
      in found @ scan_profile tasks lines (i + 1) n)"

definition parseBlockedGoroutines :: "string \<Rightarrow> TaskState list \<Rightarrow> BlockedTaskInfo list" where
  "parseBlockedGoroutines profile running =
     (let lines = split_on (CHR 0x0A) profile
      in scan_profile (goroutineToTask running) lines 0 (length lines))"

definition detectBlockedTasks :: "bool \<Rightarrow> string option \<Rightarrow> TaskState list \<Rightarrow> BlockedTaskInfo list" where
  "detectBlockedTasks enablePprof profile running =
     (if \<not> enablePprof \<or> running = [] then []
      else case profile of None \<Rightarrow> [] | Some p \<Rightarrow> parseBlockedGoroutines p running)"

section \<open>Lemmas\<close>

lemma goroutine_digits_parse:
  "parse_digits n s = Some m \<Longrightarrow> goroutine_digits (of_nat n) s = of_nat m"
proof (induction s arbitrary: n)
  case (Cons c cs)
  then obtain d where "digit_val c = Some d" "parse_digits (n * 10 + d) cs = Some m"
    by (auto split: option.splits)
  with Cons.IH [of "n * 10 + d"] show ?case by simp
qed simp

lemma nat_digits_char: "c \<in> set (nat_digits n) \<Longrightarrow> 48 \<le> (of_char c :: nat) \<and> (of_char c :: nat) \<le> 57"
  using nat_digits_are_digits [of c n] digit_char_code by fastforce

lemma nat_digits_no_char:
  assumes "(of_char c :: nat) < 48 \<or> 57 < (of_char c :: nat)"
  shows "c \<notin> set (nat_digits n)"
  using nat_digits_char [of c n] assms by auto

lemma nat_digits_length: "n < 10 ^ k \<Longrightarrow> 0 < k \<Longrightarrow> length (nat_digits n) \<le> k"
proof (induction k arbitrary: n)
  case (Suc k)
  show ?case
  proof (cases "n < 10")
    case True
    then show ?thesis by (simp add: nat_digits.simps [of n])
  next
    case False
    then have "0 < k" "n div 10 < 10 ^ k" using Suc.prems by (auto intro: ccontr)
    with Suc.IH [of "n div 10"] False show ?thesis by (simp add: nat_digits.simps [of n])
  qed
qed simp

lemma goroutine_buffer:
  assumes "length d \<le> 20"
  shows "drop 10 (take 64 (''goroutine '' @ d @ c # rest)) = d @ c # take (53 - length d) rest"
proof -
  have "drop 10 (take 64 (p @ x)) = take 54 x" if "length p = 10" for p x :: string
    using that by (simp add: drop_take)
  from this [of "''goroutine ''"] have "drop 10 (take 64 (''goroutine '' @ d @ c # rest)) = take 54 (d @ c # rest)"
    by simp
  also have "\<dots> = d @ take (54 - length d) (c # rest)" using assms by (simp only: take_append) simp
  also have "take (54 - length d) (c # rest) = c # take (53 - length d) rest"
    using assms by (simp add: take_Cons')
  finally show ?thesis .
qed

lemma header_parses:
  assumes "n < 2 ^ 64" "CHR ''['' \<notin> set reason" "CHR '']'' \<notin> set reason"
  shows "parseGoroutineHeader (''goroutine '' @ nat_digits n @ '' ['' @ reason @ '']:'') =
    (of_nat n, reason, isBlockingState reason)"
proof -
  let ?r = "''['' @ reason @ '']:''"
  have sp: "CHR '' '' \<notin> set (nat_digits n)" by (rule nat_digits_no_char) simp
  have "split_on (CHR '' '') (''goroutine '' @ nat_digits n @ '' '' @ ?r) =
      ''goroutine'' # nat_digits n # split_on (CHR '' '') ?r"
    using split_on_append_sep [of "CHR '' ''" "''goroutine''" "nat_digits n @ CHR '' '' # ?r"]
      split_on_append_sep [OF sp, of ?r] by simp
  moreover have "0 < length (split_on (CHR '' '') ?r)"
    by (simp only: length_greater_0_conv split_on_nonempty not_False_eq_True)
  moreover have "str_index (CHR ''['') ?r = Some 0" by simp
  moreover have "str_index (CHR '']'') ?r = Some (Suc (length reason))"
    using str_index_first [of "CHR '']''" "''['' @ reason" "'':''"] assms(3) by simp
  ultimately show ?thesis
    using join_split [of "CHR '' ''" ?r] ParseUint64_nat_digits [OF assms(1)]
    by (simp add: parseGoroutineHeader_def Let_def)
qed

section \<open>Properties\<close>

text \<open>
  The goroutine id that a task records is the one the runtime prints: from a trace that starts
  with \<open>goroutine n [\<close> the number is read back, for every 64-bit id, although the trace is cut after
  64 bytes.
\<close>

lemma getGoroutineID_reads_back:
  assumes "n < 2 ^ 64"
  shows "getGoroutineID (''goroutine '' @ nat_digits n @ '' '' @ rest) = of_nat n"
proof -
  have "length (nat_digits n) \<le> 20" using assms by (intro nat_digits_length) simp_all
  then have "drop 10 (take 64 (''goroutine '' @ nat_digits n @ '' '' @ rest)) =
      nat_digits n @ CHR '' '' # take (53 - length (nat_digits n)) rest"
    using goroutine_buffer [of "nat_digits n" "CHR '' ''" rest] by (simp only: append_Cons append_Nil)
  moreover have "CHR '' '' \<notin> set (nat_digits n)" by (rule nat_digits_no_char) simp
  ultimately show ?thesis
    using goroutine_digits_parse [OF parse_nat_digits, of n] by (simp add: getGoroutineID_def str_index_first)
qed

lemma nat_digits_max: "nat_digits 18446744073709551615 = ''18446744073709551615''"
  by (simp add: nat_digits.simps digit_char_simps)


section \<open>A printed profile\<close>

text \<open>A goroutine of a profile: its top frame outside the runtime, and the lines that follow.\<close>

record goroutine =
  gId :: nat
  gState :: string
  gFunc :: string
  gArgs :: string
  gFile :: string
  gLine :: nat
  gRest :: "string list"

definition print_goroutine :: "goroutine \<Rightarrow> string list" where
  "print_goroutine g =
     [''goroutine '' @ nat_digits (gId g) @ '' ['' @ gState g @ '']:'',
      gFunc g @ ''('' @ gArgs g @ '')'',
      CHR 0x09 # gFile g @ '':'' @ nat_digits (gLine g) @ '' +0x1d''] @ gRest g @ [[]]"

definition print_profile :: "goroutine list \<Rightarrow> string" where
  "print_profile gs = join_with [CHR 0x0A] (concat (map print_goroutine gs))"

definition goroutine_ok :: "goroutine \<Rightarrow> bool" where
  "goroutine_ok g \<longleftrightarrow> 0 < gId g \<and> gId g < 2 ^ 64 \<and> gLine g < 2 ^ 63 \<and>
     CHR ''['' \<notin> set (gState g) \<and> CHR '']'' \<notin> set (gState g) \<and>
     gFunc g \<noteq> [] \<and> \<not> is_space (hd (gFunc g)) \<and> CHR ''('' \<notin> set (gFunc g) \<and>
     \<not> prefix ''runtime.'' (gFunc g) \<and> \<not> prefix ''goroutine '' (gFunc g) \<and>
     gFile g \<noteq> [] \<and> \<not> is_space (hd (gFile g)) \<and> \<not> prefix ''goroutine '' (gFile g) \<and>
     (\<forall>l \<in> set (gRest g). \<not> prefix ''goroutine '' (TrimSpace l)) \<and>
     CHR 0x0A \<notin> set (gState g) \<union> set (gFunc g) \<union> set (gArgs g) \<union> set (gFile g) \<union> \<Union> (set ` set (gRest g))"

definition expected_report :: "TaskState list \<Rightarrow> goroutine \<Rightarrow> BlockedTaskInfo list" where
  "expected_report running g =
     (if isBlockingState (gState g) then
        (case goroutineToTask running (of_nat (gId g)) of
           None \<Rightarrow> []
         | Some t \<Rightarrow> [\<lparr>btTaskID = tsID t, btTaskName = tsName t, btGoroutineID = of_nat (gId g),
                       btBlockReason = gState g,
                       btBlockedAt = \<lparr>blFunction = gFunc g, blFile = gFile g, blLine = int (gLine g)\<rparr>\<rparr>])
      else [])"

text \<open>The scan as a recursion on the lines that are left.\<close>

definition report_line :: "(64 word \<Rightarrow> TaskState option) \<Rightarrow> string \<Rightarrow> string list \<Rightarrow> BlockedTaskInfo list" where
  "report_line tasks l ls =
     (if prefix ''goroutine '' (TrimSpace l) \<and> str_contains (TrimSpace l) ''['' then
        (case parseGoroutineHeader (TrimSpace l) of
           (gid, reason, blocked) \<Rightarrow>
             if \<not> blocked \<or> gid = 0 then []
             else (case tasks gid of
                     None \<Rightarrow> []
                   | Some t \<Rightarrow> [\<lparr>btTaskID = tsID t, btTaskName = tsName t, btGoroutineID = gid,
                                 btBlockReason = reason, btBlockedAt = scan_location 10 ls\<rparr>]))
      else [])"

fun scan_suffix :: "(64 word \<Rightarrow> TaskState option) \<Rightarrow> string list \<Rightarrow> BlockedTaskInfo list" where
  "scan_suffix tasks [] = []"
| "scan_suffix tasks (l # ls) = report_line tasks l ls @ scan_suffix tasks ls"

lemma scan_profile_suffix:
  "i + n = length lines \<Longrightarrow> scan_profile tasks lines i n = scan_suffix tasks (drop i lines)"
proof (induction n arbitrary: i)
  case (Suc n)
  then have "drop i lines = lines ! i # drop (Suc i) lines" by (simp add: Cons_nth_drop_Suc)
  with Suc show ?case
    by (simp add: report_line_def parseBlockingLocation_def Let_def split: prod.split option.split)
qed simp

lemma scan_suffix_plain:
  "\<forall>l \<in> set ls. \<not> prefix ''goroutine '' (TrimSpace l) \<Longrightarrow> scan_suffix tasks (ls @ rest) = scan_suffix tasks rest"
  by (induction ls) (simp_all add: report_line_def)

lemma parseFileLocation_printed:
  assumes "CHR ''('' \<notin> set f" "n < 2 ^ 63"
  shows "parseFileLocation (f @ ''('' @ args) (file @ '':'' @ nat_digits n @ '' +0x1d'') =
    \<lparr>blFunction = f, blFile = file, blLine = int n\<rparr>"
proof -
  have c: "CHR '':'' \<notin> set (nat_digits n)" "CHR '' '' \<notin> set (nat_digits n)"
    by (rule nat_digits_no_char, simp)+
  have "str_last_index (CHR '':'') (file @ CHR '':'' # nat_digits n @ '' +0x1d'') = Some (length file)"
    using c by (intro str_last_index_last) simp
  moreover have "str_index (CHR '' '') (nat_digits n @ CHR '' '' # ''+0x1d'') = Some (length (nat_digits n))"
    using c by (intro str_index_first)
  moreover have "hd (split_on (CHR ''('') (f @ CHR ''('' # args)) = f"
    using assms(1) by (simp add: split_on_append_sep)
  ultimately show ?thesis
    using Atoi_nat_digits [OF assms(2)] by (simp add: parseFileLocation_def Let_def)
qed

lemma prefix_stop: "c \<notin> set p \<Longrightarrow> prefix p (f @ c # r) \<longleftrightarrow> prefix p f"
proof (induction f arbitrary: p)
  case Nil
  then show ?case by (cases p) auto
next
  case (Cons x f)
  then show ?case by (cases p) auto
qed

lemma header_trim: "TrimSpace (''goroutine '' @ d @ '' ['' @ st @ '']:'') = ''goroutine '' @ d @ '' ['' @ st @ '']:''"
  by (rule TrimSpace_id) (simp_all add: is_space_def)

lemma file_line_trim:
  assumes "goroutine_ok g"
  shows "TrimSpace (CHR 0x09 # gFile g @ '':'' @ nat_digits (gLine g) @ '' +0x1d'') =
    gFile g @ '':'' @ nat_digits (gLine g) @ '' +0x1d''"
proof -
  have "TrimSpace ([CHR 0x09] @ gFile g @ '':'' @ nat_digits (gLine g) @ '' +0x1d'') =
      TrimSpace (gFile g @ '':'' @ nat_digits (gLine g) @ '' +0x1d'')"
    by (rule TrimSpace_front) (simp add: is_space_def)
  also have "\<dots> = gFile g @ '':'' @ nat_digits (gLine g) @ '' +0x1d''"
    using assms by (intro TrimSpace_id) (simp_all add: goroutine_ok_def is_space_def)
  finally show ?thesis by simp
qed

lemma scan_printed:
  assumes "goroutine_ok g"
  shows "scan_location 10 ([gFunc g @ ''('' @ gArgs g @ '')'',
      CHR 0x09 # gFile g @ '':'' @ nat_digits (gLine g) @ '' +0x1d''] @ rest) =
    \<lparr>blFunction = gFunc g, blFile = gFile g, blLine = int (gLine g)\<rparr>"
proof -
  have f: "TrimSpace (gFunc g @ ''('' @ gArgs g @ '')'') = gFunc g @ ''('' @ gArgs g @ '')''"
    using assms by (intro TrimSpace_id) (simp_all add: goroutine_ok_def is_space_def)
  note l = file_line_trim [OF assms]
  have "\<not> prefix ''runtime.'' (gFunc g @ CHR ''('' # gArgs g @ '')'')"
    using assms by (subst prefix_stop) (simp_all add: goroutine_ok_def)
  moreover have "str_contains (gFunc g @ ''('' @ gArgs g @ '')'') ''(''"
    "str_contains (gFile g @ '':'' @ nat_digits (gLine g) @ '' +0x1d'') '':''"
    by (rule str_contains_infix)+
  moreover have "parseFileLocation (gFunc g @ ''('' @ gArgs g @ '')'') (gFile g @ '':'' @ nat_digits (gLine g) @ '' +0x1d'') =
      \<lparr>blFunction = gFunc g, blFile = gFile g, blLine = int (gLine g)\<rparr>"
    using assms by (intro parseFileLocation_printed) (simp_all add: goroutine_ok_def)
  ultimately show ?thesis
    using f l scan_location.simps(1) [of 9 "gFunc g @ ''('' @ gArgs g @ '')''"] by (simp add: Let_def)
qed

lemma report_header:
  assumes "goroutine_ok g"
  shows "report_line (goroutineToTask running) (''goroutine '' @ nat_digits (gId g) @ '' ['' @ gState g @ '']:'')
      ([gFunc g @ ''('' @ gArgs g @ '')'',
        CHR 0x09 # gFile g @ '':'' @ nat_digits (gLine g) @ '' +0x1d''] @ rest) = expected_report running g"
proof -
  let ?h = "''goroutine '' @ nat_digits (gId g) @ '' ['' @ gState g @ '']:''"
  have "str_contains ?h ''[''"
    using str_contains_infix [of "''goroutine '' @ nat_digits (gId g) @ '' ''" "''[''" "gState g @ '']:''"] by simp
  moreover have "prefix ''goroutine '' ?h" by simp
  moreover have "parseGoroutineHeader ?h = (of_nat (gId g), gState g, isBlockingState (gState g))"
    using assms by (intro header_parses) (simp_all add: goroutine_ok_def)
  moreover have "(of_nat (gId g) :: 64 word) \<noteq> 0"
    using assms by (auto simp: goroutine_ok_def word_of_nat_eq_0_iff dest: nat_dvd_not_less)
  ultimately show ?thesis
    using scan_printed [OF assms, of rest] header_trim [of "nat_digits (gId g)" "gState g"]
    unfolding report_line_def expected_report_def by (simp split: option.split)
qed

lemma scan_suffix_printed:
  assumes "goroutine_ok g"
  shows "scan_suffix (goroutineToTask running) (print_goroutine g @ rest) =
    expected_report running g @ scan_suffix (goroutineToTask running) rest"
proof -
  let ?f = "gFunc g @ ''('' @ gArgs g @ '')''" and ?l = "CHR 0x09 # gFile g @ '':'' @ nat_digits (gLine g) @ '' +0x1d''"
  have "TrimSpace ?f = ?f"
    using assms by (intro TrimSpace_id) (simp_all add: goroutine_ok_def is_space_def)
  moreover have "\<not> prefix ''goroutine '' (gFunc g @ CHR ''('' # gArgs g @ '')'')"
    using assms by (subst prefix_stop) (simp_all add: goroutine_ok_def)
  moreover note file_line_trim [OF assms]
  moreover have "\<not> prefix ''goroutine '' (gFile g @ CHR '':'' # nat_digits (gLine g) @ '' +0x1d'')"
    using assms by (subst prefix_stop) (simp_all add: goroutine_ok_def)
  ultimately have "\<forall>l \<in> set ([?f, ?l] @ gRest g @ [[]]). \<not> prefix ''goroutine '' (TrimSpace l)"
    using assms by (auto simp: goroutine_ok_def)
  then show ?thesis
    using scan_suffix_plain [of "[?f, ?l] @ gRest g @ [[]]" "goroutineToTask running" rest]
      report_header [OF assms, of running "gRest g @ [] # rest"]
    by (simp add: print_goroutine_def)
qed


definition sample_goroutine :: goroutine where
  "sample_goroutine = \<lparr>gId = 7, gState = ''select'', gFunc = ''main.work'', gArgs = ''0x1'',
     gFile = ''/src/main.go'', gLine = 42, gRest = [''created by main.main in goroutine 1'']\<rparr>"


end
