(* ===== verification/TaskGroup.thy ===== *)
theory TaskGroup
  imports GoroutineDump SyncMap Threads
begin

text \<open>
  The task group (\<open>pkg/taskgroup/taskgroup.go\<close>): tasks run in goroutines of their own, a semaphore
  limits how many run at once, \<open>Wait\<close> and \<open>Close\<close> end the group and run the cleanup functions.
  Every method is a sequence of actions, cut where it takes a lock, waits or starts a goroutine,
  and goroutines interleave at actions. The mutex is held over several actions only by \<open>Wait\<close>. What a task or
  cleanup function does is an argument: the error it returns or the value it panics with.
  Logging, pprof labels, the status ticker and times are left out.
\<close>

section \<open>State\<close>

datatype task_result = Returns "string option" | Panics string

record CleanupEntry =
  ceName :: string
  ceFunc :: task_result

record TaskGroupOpts =
  ogName :: string
  ogMaxConcurrent :: int
  ogKeepTaskHistory :: bool

text \<open>The state of a \<open>sync.Once\<close>.\<close>

datatype once = Fresh | Doing | Done

text \<open>What \<open>Wait\<close> returns: the group error, or the first error, if any.\<close>

datatype wait_result = GroupFailed TaskGroupError | FirstError "string option"

text \<open>
  The tasks are objects: \<open>tgHeap\<close> holds them, the maps hold positions in it. \<open>tgHeld\<close> is the number of
  slots of the semaphore that are taken, \<open>tgCtxErr\<close> the error of the context once it is done, and \<open>tgDone\<close> tells
  which of the channels \<open>done\<close> of the calls of \<open>Wait\<close> are closed. \<open>tgCleaned\<close> and
  \<open>tgWaits\<close> record the cleanup functions called and the results of the calls of \<open>Wait\<close>.
\<close>

record task_group =
  tgMu :: bool
  tgCtxErr :: "string option"
  tgWg :: nat
  tgOpts :: TaskGroupOpts
  tgErr :: "string option"
  tgErrOnce :: once
  tgGroupError :: TaskGroupError
  tgStarted :: bool
  tgFinished :: bool
  tgTaskCounter :: nat
  tgSemaphore :: "nat option"
  tgHeld :: nat
  tgTasks :: "(string, nat) syncmap"
  tgTaskHistory :: "(string, nat) syncmap"
  tgHeap :: "TaskState list"
  tgCleanupFuncs :: "CleanupEntry list"
  tgCleanupOnce :: once
  tgCancelReason :: string
  tgManualCancelOnce :: once
  tgDone :: "bool list"
  tgCleaned :: "string list"
  tgWaits :: "wait_result list"

definition NewTaskGroup :: "TaskGroupOpts \<Rightarrow> task_group" where
  "NewTaskGroup opts =
     \<lparr>tgMu = False, tgCtxErr = None, tgWg = 0, tgOpts = opts, tgErr = None, tgErrOnce = Fresh,
      tgGroupError = NewTaskGroupError, tgStarted = False, tgFinished = False, tgTaskCounter = 0,
      tgSemaphore = (if 0 < ogMaxConcurrent opts then Some (nat (ogMaxConcurrent opts)) else None),
      tgHeld = 0, tgTasks = syncmap_NewMap, tgTaskHistory = syncmap_NewMap, tgHeap = [],
      tgCleanupFuncs = [], tgCleanupOnce = Fresh, tgCancelReason = [], tgManualCancelOnce = Fresh,
      tgDone = [], tgCleaned = [], tgWaits = []\<rparr>"

text \<open>\<open>tg.cancel()\<close>: a context that is done stays as it is.\<close>

definition tg_cancel :: "task_group \<Rightarrow> task_group" where
  "tg_cancel g = g\<lparr>tgCtxErr := Some (case tgCtxErr g of None \<Rightarrow> ''context canceled'' | Some e \<Rightarrow> e)\<rparr>"

section \<open>Queries\<close>

definition TaskGroup_GetTask :: "task_group \<Rightarrow> string \<Rightarrow> TaskState option" where
  "TaskGroup_GetTask g i = map_option (\<lambda>r. tgHeap g ! r) (syncmap_Load (tgTasks g) i)"

definition GetAllTasks :: "task_group \<Rightarrow> TaskState list" where
  "GetAllTasks g = syncmap_Range (\<lambda>acc _ r. (acc @ [tgHeap g ! r], True)) [] (tgTasks g)"

definition GetTasksByStatus :: "task_group \<Rightarrow> TaskStatus \<Rightarrow> TaskState list" where
  "GetTasksByStatus g st =
     syncmap_Range (\<lambda>acc _ r. (if tsStatus (tgHeap g ! r) = st then acc @ [tgHeap g ! r] else acc, True)) [] (tgTasks g)"

definition GetTasksByName :: "task_group \<Rightarrow> string \<Rightarrow> TaskState list" where
  "GetTasksByName g n =
     syncmap_Range (\<lambda>acc _ r. (if tsName (tgHeap g ! r) = n then acc @ [tgHeap g ! r] else acc, True)) [] (tgTasks g)"

definition GetRunningTasks :: "task_group \<Rightarrow> TaskState list" where
  "GetRunningTasks g = GetTasksByStatus g TaskStatusRunning"

definition GetTaskCount :: "task_group \<Rightarrow> int" where
  "GetTaskCount g = syncmap_Len (tgTasks g)"

definition GetRunningTaskCount :: "task_group \<Rightarrow> nat" where
  "GetRunningTaskCount g = length (GetRunningTasks g)"

definition GetTaskHistory :: "task_group \<Rightarrow> TaskState list" where
  "GetTaskHistory g = syncmap_Range (\<lambda>acc _ r. (acc @ [tgHeap g ! r], True)) [] (tgTaskHistory g)"

definition TaskGroup_Status :: "task_group \<Rightarrow> bool \<times> bool \<times> nat \<times> string option" where
  "TaskGroup_Status g = (tgStarted g, tgFinished g, tgTaskCounter g, tgErr g)"

definition GetCleanupNames :: "task_group \<Rightarrow> string list" where
  "GetCleanupNames g = map ceName (tgCleanupFuncs g)"

definition GetCleanupCount :: "task_group \<Rightarrow> nat" where
  "GetCleanupCount g = length (tgCleanupFuncs g)"

definition GetCancellationInfo :: "task_group \<Rightarrow> string" where
  "GetCancellationInfo g = tgCancelReason g"

definition IsCancelled :: "task_group \<Rightarrow> bool" where
  "IsCancelled g \<longleftrightarrow> tgCtxErr g \<noteq> None"

section \<open>Actions\<close>

datatype caller = ByWait | ByClose

datatype tg_action =
    GoStart string task_result bool
  | GoRegister string task_result bool
  | GoAcquire string string task_result bool
  | TaskCancel string
  | SetFundamental string
  | TaskBegin string string task_result
  | TaskBody string string task_result
  | TaskEnd string string "string option" "string option"
  | TaskAddError string string
  | TaskSetError string
  | TaskRelease
  | TaskDone
  | WaitStart
  | WaitGroupWait nat
  | WaitSelect nat
  | WaitLock
  | WaitReturn
  | CloseCheck
  | CancelReason string
  | CleanupEnter caller
  | CleanupCopy caller
  | CleanupLoop "CleanupEntry list" caller
  | RegisterCleanup string task_result
  | RegisterCloser string task_result
  | SetLimit int

datatype tg_outcome = TNext "tg_action list" "tg_action list list" task_group | TBlocked

text \<open>
  What an action finds outside: the stack trace of its goroutine, and which case a \<open>select\<close> takes
  when its channel and the context are both ready.
\<close>

record tg_env =
  teStack :: string
  teDone :: bool

definition with_mu :: "task_group \<Rightarrow> tg_outcome \<Rightarrow> tg_outcome" where
  "with_mu g k = (if tgMu g then TBlocked else k)"

definition tg_Start :: "task_group \<Rightarrow> task_group" where
  "tg_Start g = (if tgStarted g then g else g\<lparr>tgStarted := True\<rparr>)"

definition updateTaskStatus :: "tg_env \<Rightarrow> string \<Rightarrow> TaskStatus \<Rightarrow> task_group \<Rightarrow> task_group" where
  "updateTaskStatus E i st g =
     (case syncmap_Load (tgTasks g) i of
        None \<Rightarrow> g
      | Some r \<Rightarrow>
          (let t = (tgHeap g ! r)\<lparr>tsStatus := st\<rparr>;
               t = (if st = TaskStatusRunning then t\<lparr>tsGoroutineID := getGoroutineID (teStack E)\<rparr> else t)
           in g\<lparr>tgHeap := (tgHeap g)[r := t]\<rparr>))"

definition setFundamentalError :: "string \<Rightarrow> task_group \<Rightarrow> tg_outcome" where
  "setFundamentalError e g =
     (if tgErrOnce g = Done then TNext [] [] g
      else with_mu g (TNext [] [] (tg_cancel (g\<lparr>tgErr := Some e, tgErrOnce := Done\<rparr>))))"

definition setTaskFailureError :: "string \<Rightarrow> task_group \<Rightarrow> tg_outcome" where
  "setTaskFailureError e g =
     (if tgErrOnce g = Done then TNext [] [] g
      else with_mu g (TNext [] [] (g\<lparr>tgErr := Some e, tgErrOnce := Done\<rparr>)))"

definition addTaskError :: "string \<Rightarrow> string \<Rightarrow> task_group \<Rightarrow> tg_outcome" where
  "addTaskError n e g =
     with_mu g (TNext [] [] (g\<lparr>tgGroupError := AddTaskError n (Some e) (tgGroupError g)\<rparr>))"

subsection \<open>Running a task\<close>

definition task_id :: "task_group \<Rightarrow> nat \<Rightarrow> string" where
  "task_id g n = ogName (tgOpts g) @ ''-'' @ nat_digits n"

definition executeTask_register :: "tg_env \<Rightarrow> string \<Rightarrow> task_result \<Rightarrow> bool \<Rightarrow> task_group \<Rightarrow> tg_outcome" where
  "executeTask_register E n fn tr g =
     with_mu g
       (if tgFinished g then TNext [] [] g
        else
          (let k = tgTaskCounter g + 1;
               i = task_id g k;
               t = \<lparr>tsID = i, tsIDX = int k, tsName = n, tsStatus = TaskStatusPending, tsError = None,
                    tsPanicInfo = None, tsGoroutineID = getGoroutineID (teStack E)\<rparr>
           in TNext [GoAcquire i n fn tr] []
                (g\<lparr>tgTaskCounter := k, tgTasks := syncmap_Store i (length (tgHeap g)) (tgTasks g),
                   tgHeap := tgHeap g @ [t]\<rparr>)))"

text \<open>The semaphore; then the goroutine of the task is started.\<close>

definition executeTask_acquire ::
  "tg_env \<Rightarrow> string \<Rightarrow> string \<Rightarrow> task_result \<Rightarrow> bool \<Rightarrow> task_group \<Rightarrow> tg_outcome" where
  "executeTask_acquire E i n fn tr g =
     (let run = TNext [] [[TaskBegin i n fn]]
      in case tgSemaphore g of
           None \<Rightarrow> run (g\<lparr>tgWg := tgWg g + 1\<rparr>)
         | Some limit \<Rightarrow>
             if tr then
               (if tgHeld g < limit then run (g\<lparr>tgWg := tgWg g + 1, tgHeld := tgHeld g + 1\<rparr>)
                else TNext [] [] (g\<lparr>tgTasks := syncmap_Delete i (tgTasks g),
                                    tgTaskCounter := tgTaskCounter g - 1\<rparr>))
             else
               (case tgCtxErr g of
                  Some e \<Rightarrow>
                    if teDone E \<or> limit \<le> tgHeld g then TNext [TaskCancel i, SetFundamental e] [] g
                    else run (g\<lparr>tgWg := tgWg g + 1, tgHeld := tgHeld g + 1\<rparr>)
                | None \<Rightarrow>
                    if tgHeld g < limit then run (g\<lparr>tgWg := tgWg g + 1, tgHeld := tgHeld g + 1\<rparr>)
                    else TBlocked))"

text \<open>\<open>executeTaskWithRecovery\<close>: the error and the panic value of a run.\<close>

definition executeTaskWithRecovery :: "task_result \<Rightarrow> string option \<times> string option" where
  "executeTaskWithRecovery fn =
     (case fn of
        Returns e \<Rightarrow> (e, None)
      | Panics v \<Rightarrow> (Some (''panic in task: '' @ v), Some v))"

definition executeTask_end ::
  "string \<Rightarrow> string \<Rightarrow> string option \<Rightarrow> string option \<Rightarrow> task_group \<Rightarrow> tg_outcome" where
  "executeTask_end i n err pan g =
     with_mu g
       (let st = (if pan \<noteq> None then TaskStatusPanicked
                  else if err \<noteq> None then TaskStatusFailed else TaskStatusCompleted);
            g1 = (case syncmap_Load (tgTasks g) i of
                    None \<Rightarrow> g
                  | Some r \<Rightarrow>
                      g\<lparr>tgHeap := (tgHeap g)[r := (tgHeap g ! r)\<lparr>tsError := err, tsPanicInfo := pan, tsStatus := st\<rparr>],
                        tgTaskHistory :=
                          (if ogKeepTaskHistory (tgOpts g) then syncmap_Store i r (tgTaskHistory g)
                           else tgTaskHistory g)\<rparr>)
        in TNext ((case err of None \<Rightarrow> [] | Some e \<Rightarrow> [TaskAddError n e, TaskSetError e]) @ [TaskRelease]) [] g1)"

definition executeTask_release :: "task_group \<Rightarrow> tg_outcome" where
  "executeTask_release g =
     TNext [TaskDone] [] (case tgSemaphore g of None \<Rightarrow> g | Some _ \<Rightarrow> g\<lparr>tgHeld := tgHeld g - 1\<rparr>)"

subsection \<open>Ending the group\<close>

definition Wait_start :: "task_group \<Rightarrow> tg_outcome" where
  "Wait_start g =
     with_mu g
       (let w = length (tgDone g)
        in TNext [WaitSelect w] [[WaitGroupWait w]] ((tg_Start g)\<lparr>tgDone := tgDone g @ [False]\<rparr>))"

definition Wait_group :: "nat \<Rightarrow> task_group \<Rightarrow> tg_outcome" where
  "Wait_group w g = (if tgWg g = 0 then TNext [] [] (g\<lparr>tgDone := (tgDone g)[w := True]\<rparr>) else TBlocked)"

definition Wait_select :: "tg_env \<Rightarrow> nat \<Rightarrow> task_group \<Rightarrow> tg_outcome" where
  "Wait_select E w g =
     (case tgCtxErr g of
        Some e \<Rightarrow>
          if tgDone g ! w \<and> \<not> teDone E then TNext [WaitLock] [] g
          else TNext [SetFundamental e, WaitLock] [] g
      | None \<Rightarrow> if tgDone g ! w then TNext [WaitLock] [] g else TBlocked)"

definition Wait_lock :: "task_group \<Rightarrow> tg_outcome" where
  "Wait_lock g =
     with_mu g
       (if tgFinished g then TNext [] [] (g\<lparr>tgWaits := tgWaits g @ [FirstError (tgErr g)]\<rparr>)
        else TNext [CleanupEnter ByWait] [] (tg_cancel (g\<lparr>tgMu := True, tgFinished := True\<rparr>)))"

definition Wait_return :: "task_group \<Rightarrow> tg_outcome" where
  "Wait_return g =
     TNext [] []
       (g\<lparr>tgMu := False,
          tgWaits := tgWaits g @
            [if HasErrors (tgGroupError g) then GroupFailed (tgGroupError g) else FirstError (tgErr g)]\<rparr>)"

definition Close_check :: "task_group \<Rightarrow> tg_outcome" where
  "Close_check g =
     with_mu g
       (if tgFinished g then TNext [] [] g
        else TNext [CancelReason ''Close() called'', CleanupEnter ByClose] [] g)"

definition CancelWithReason :: "string \<Rightarrow> task_group \<Rightarrow> tg_outcome" where
  "CancelWithReason reason g =
     (if tgManualCancelOnce g = Done then TNext [] [] g
      else with_mu g
             (TNext [] [] (tg_cancel (g\<lparr>tgCancelReason := reason, tgManualCancelOnce := Done\<rparr>))))"

text \<open>
  \<open>executeCleanup\<close>: the once, the read lock under which the functions are copied, the
  functions in reverse order, whatever each does, and the end of the once.
\<close>

definition after_cleanup :: "caller \<Rightarrow> tg_action list" where
  "after_cleanup k = (case k of ByWait \<Rightarrow> [WaitReturn] | ByClose \<Rightarrow> [])"

definition executeCleanup_enter :: "caller \<Rightarrow> task_group \<Rightarrow> tg_outcome" where
  "executeCleanup_enter k g =
     (case tgCleanupOnce g of
        Done \<Rightarrow> TNext (after_cleanup k) [] g
      | Doing \<Rightarrow> TBlocked
      | Fresh \<Rightarrow> TNext [CleanupCopy k] [] (g\<lparr>tgCleanupOnce := Doing\<rparr>))"

definition executeCleanup_copy :: "caller \<Rightarrow> task_group \<Rightarrow> tg_outcome" where
  "executeCleanup_copy k g = with_mu g (TNext [CleanupLoop (rev (tgCleanupFuncs g)) k] [] g)"

definition executeCleanup_loop :: "CleanupEntry list \<Rightarrow> caller \<Rightarrow> task_group \<Rightarrow> tg_outcome" where
  "executeCleanup_loop cs k g =
     (case cs of
        [] \<Rightarrow> TNext (after_cleanup k) [] (g\<lparr>tgCleanupOnce := Done\<rparr>)
      | c # cs' \<Rightarrow> TNext [CleanupLoop cs' k] [] (g\<lparr>tgCleaned := tgCleaned g @ [ceName c]\<rparr>))"

definition RegisterCleanupWithName :: "string \<Rightarrow> task_result \<Rightarrow> task_group \<Rightarrow> tg_outcome" where
  "RegisterCleanupWithName n fn g =
     with_mu g
       (let name = (if n = [] then ''cleanup-'' @ nat_digits (length (tgCleanupFuncs g) + 1) else n)
        in TNext [] [] (g\<lparr>tgCleanupFuncs := tgCleanupFuncs g @ [\<lparr>ceName = name, ceFunc = fn\<rparr>]\<rparr>))"

text \<open>The name of a closer is chosen from the number of functions before the lock is taken.\<close>

definition RegisterCloserWithName :: "string \<Rightarrow> task_result \<Rightarrow> task_group \<Rightarrow> tg_outcome" where
  "RegisterCloserWithName n close g =
     (let name = (if n = [] then ''closer-'' @ nat_digits (length (tgCleanupFuncs g) + 1) else n)
      in TNext [RegisterCleanup name close] [] g)"

definition TaskGroup_SetLimit :: "int \<Rightarrow> task_group \<Rightarrow> tg_outcome" where
  "TaskGroup_SetLimit n g =
     with_mu g
       (TNext [] [] (if tgStarted g then g
                     else g\<lparr>tgSemaphore := (if 0 < n then Some (nat n) else None)\<rparr>))"

section \<open>The system\<close>

fun tg_act :: "tg_env \<Rightarrow> tg_action \<Rightarrow> task_group \<Rightarrow> tg_outcome" where
  "tg_act E (GoStart n fn tr) g = with_mu g (TNext [GoRegister n fn tr] [] (tg_Start g))"
| "tg_act E (GoRegister n fn tr) g = executeTask_register E n fn tr g"
| "tg_act E (GoAcquire i n fn tr) g = executeTask_acquire E i n fn tr g"
| "tg_act E (TaskCancel i) g = with_mu g (TNext [] [] (updateTaskStatus E i TaskStatusCanceled g))"
| "tg_act E (SetFundamental e) g = setFundamentalError e g"
| "tg_act E (TaskBegin i n fn) g =
     with_mu g (TNext [TaskBody i n fn] [] (updateTaskStatus E i TaskStatusRunning g))"
| "tg_act E (TaskBody i n fn) g =
     (case executeTaskWithRecovery fn of (err, pan) \<Rightarrow> TNext [TaskEnd i n err pan] [] g)"
| "tg_act E (TaskEnd i n err pan) g = executeTask_end i n err pan g"
| "tg_act E (TaskAddError n e) g = addTaskError n e g"
| "tg_act E (TaskSetError e) g = setTaskFailureError e g"
| "tg_act E TaskRelease g = executeTask_release g"
| "tg_act E TaskDone g = TNext [] [] (g\<lparr>tgWg := tgWg g - 1\<rparr>)"
| "tg_act E WaitStart g = Wait_start g"
| "tg_act E (WaitGroupWait w) g = Wait_group w g"
| "tg_act E (WaitSelect w) g = Wait_select E w g"
| "tg_act E WaitLock g = Wait_lock g"
| "tg_act E WaitReturn g = Wait_return g"
| "tg_act E CloseCheck g = Close_check g"
| "tg_act E (CancelReason r) g = CancelWithReason r g"
| "tg_act E (CleanupEnter k) g = executeCleanup_enter k g"
| "tg_act E (CleanupCopy k) g = executeCleanup_copy k g"
| "tg_act E (CleanupLoop cs k) g = executeCleanup_loop cs k g"
| "tg_act E (RegisterCleanup n fn) g = RegisterCleanupWithName n fn g"
| "tg_act E (RegisterCloser n fn) g = RegisterCloserWithName n fn g"
| "tg_act E (SetLimit n) g = TaskGroup_SetLimit n g"

text \<open>The calls a client can make.\<close>

fun tg_call :: "tg_action \<Rightarrow> bool" where
  "tg_call (GoStart n fn tr) \<longleftrightarrow> True"
| "tg_call WaitStart \<longleftrightarrow> True"
| "tg_call CloseCheck \<longleftrightarrow> True"
| "tg_call (CancelReason r) \<longleftrightarrow> True"
| "tg_call (RegisterCleanup n fn) \<longleftrightarrow> True"
| "tg_call (RegisterCloser n fn) \<longleftrightarrow> True"
| "tg_call (SetLimit n) \<longleftrightarrow> True"
| "tg_call _ \<longleftrightarrow> False"

type_synonym tg_system = "task_group \<times> tg_action list list"

text \<open>
  A step: a goroutine acts, a client makes a call of those allowed, or the context ends from outside (a timeout or
  its parent).
\<close>

inductive tg_step :: "(tg_action \<Rightarrow> bool) \<Rightarrow> tg_system \<Rightarrow> tg_system \<Rightarrow> bool" for allowed where
  acts: "i < length ts \<Longrightarrow> ts ! i = a # as \<Longrightarrow> tg_act E a g = TNext bs new g' \<Longrightarrow>
    tg_step allowed (g, ts) (g', ts[i := bs @ as] @ new)"
| calls: "tg_call a \<Longrightarrow> allowed a \<Longrightarrow> tg_step allowed (g, ts) (g, ts @ [[a]])"
| ends: "tgCtxErr g = None \<Longrightarrow> tg_step allowed (g, ts) (g\<lparr>tgCtxErr := Some e\<rparr>, ts)"

definition tg_start :: "tg_system \<Rightarrow> bool" where
  "tg_start x \<longleftrightarrow> (\<exists>opts. x = (NewTaskGroup opts, []))"

section \<open>Frame lemmas\<close>

lemma tg_cancel_fields [simp]:
  "tgMu (tg_cancel g) = tgMu g"
  "tgWg (tg_cancel g) = tgWg g"
  "tgOpts (tg_cancel g) = tgOpts g"
  "tgErr (tg_cancel g) = tgErr g"
  "tgErrOnce (tg_cancel g) = tgErrOnce g"
  "tgGroupError (tg_cancel g) = tgGroupError g"
  "tgStarted (tg_cancel g) = tgStarted g"
  "tgFinished (tg_cancel g) = tgFinished g"
  "tgTaskCounter (tg_cancel g) = tgTaskCounter g"
  "tgSemaphore (tg_cancel g) = tgSemaphore g"
  "tgHeld (tg_cancel g) = tgHeld g"
  "tgTasks (tg_cancel g) = tgTasks g"
  "tgTaskHistory (tg_cancel g) = tgTaskHistory g"
  "tgHeap (tg_cancel g) = tgHeap g"
  "tgCleanupFuncs (tg_cancel g) = tgCleanupFuncs g"
  "tgCleanupOnce (tg_cancel g) = tgCleanupOnce g"
  "tgCancelReason (tg_cancel g) = tgCancelReason g"
  "tgManualCancelOnce (tg_cancel g) = tgManualCancelOnce g"
  "tgDone (tg_cancel g) = tgDone g"
  "tgCleaned (tg_cancel g) = tgCleaned g"
  "tgWaits (tg_cancel g) = tgWaits g"
  by (simp_all add: tg_cancel_def)

lemma updateTaskStatus_fields [simp]:
  "tgMu (updateTaskStatus E i st g) = tgMu g"
  "tgCtxErr (updateTaskStatus E i st g) = tgCtxErr g"
  "tgWg (updateTaskStatus E i st g) = tgWg g"
  "tgOpts (updateTaskStatus E i st g) = tgOpts g"
  "tgErr (updateTaskStatus E i st g) = tgErr g"
  "tgErrOnce (updateTaskStatus E i st g) = tgErrOnce g"
  "tgGroupError (updateTaskStatus E i st g) = tgGroupError g"
  "tgStarted (updateTaskStatus E i st g) = tgStarted g"
  "tgFinished (updateTaskStatus E i st g) = tgFinished g"
  "tgTaskCounter (updateTaskStatus E i st g) = tgTaskCounter g"
  "tgSemaphore (updateTaskStatus E i st g) = tgSemaphore g"
  "tgHeld (updateTaskStatus E i st g) = tgHeld g"
  "tgTasks (updateTaskStatus E i st g) = tgTasks g"
  "tgTaskHistory (updateTaskStatus E i st g) = tgTaskHistory g"
  "tgCleanupFuncs (updateTaskStatus E i st g) = tgCleanupFuncs g"
  "tgCleanupOnce (updateTaskStatus E i st g) = tgCleanupOnce g"
  "tgCancelReason (updateTaskStatus E i st g) = tgCancelReason g"
  "tgManualCancelOnce (updateTaskStatus E i st g) = tgManualCancelOnce g"
  "tgDone (updateTaskStatus E i st g) = tgDone g"
  "tgCleaned (updateTaskStatus E i st g) = tgCleaned g"
  "tgWaits (updateTaskStatus E i st g) = tgWaits g"
  by (simp_all add: updateTaskStatus_def Let_def split: option.split)

lemma tg_Start_fields [simp]:
  "tgMu (tg_Start g) = tgMu g"
  "tgCtxErr (tg_Start g) = tgCtxErr g"
  "tgWg (tg_Start g) = tgWg g"
  "tgOpts (tg_Start g) = tgOpts g"
  "tgErr (tg_Start g) = tgErr g"
  "tgErrOnce (tg_Start g) = tgErrOnce g"
  "tgGroupError (tg_Start g) = tgGroupError g"
  "tgFinished (tg_Start g) = tgFinished g"
  "tgTaskCounter (tg_Start g) = tgTaskCounter g"
  "tgSemaphore (tg_Start g) = tgSemaphore g"
  "tgHeld (tg_Start g) = tgHeld g"
  "tgTasks (tg_Start g) = tgTasks g"
  "tgTaskHistory (tg_Start g) = tgTaskHistory g"
  "tgHeap (tg_Start g) = tgHeap g"
  "tgCleanupFuncs (tg_Start g) = tgCleanupFuncs g"
  "tgCleanupOnce (tg_Start g) = tgCleanupOnce g"
  "tgCancelReason (tg_Start g) = tgCancelReason g"
  "tgManualCancelOnce (tg_Start g) = tgManualCancelOnce g"
  "tgDone (tg_Start g) = tgDone g"
  "tgCleaned (tg_Start g) = tgCleaned g"
  "tgWaits (tg_Start g) = tgWaits g"
  "tgStarted (tg_Start g)"
  by (simp_all add: tg_Start_def)

section \<open>The semaphore and the wait group\<close>

text \<open>Goroutines that hold a slot, goroutines of tasks, and task functions that are running.\<close>

fun holder :: "tg_action \<Rightarrow> nat" where
  "holder (TaskBegin i n fn) = 1"
| "holder (TaskBody i n fn) = 1"
| "holder (TaskEnd i n err pan) = 1"
| "holder TaskRelease = 1"
| "holder _ = 0"

fun task_goroutine :: "tg_action \<Rightarrow> nat" where
  "task_goroutine TaskDone = 1"
| "task_goroutine a = holder a"

fun task_running :: "tg_action \<Rightarrow> nat" where
  "task_running (TaskBody i n fn) = 1"
| "task_running _ = 0"

fun past_start :: "tg_action \<Rightarrow> nat" where
  "past_start (GoRegister n fn tr) = 1"
| "past_start (GoAcquire i n fn tr) = 1"
| "past_start a = holder a"

definition limit_inv :: "tg_system \<Rightarrow> bool" where
  "limit_inv x \<longleftrightarrow> (case tgSemaphore (fst x) of
       None \<Rightarrow> tgHeld (fst x) = 0
     | Some n \<Rightarrow> tgHeld (fst x) = weight holder (snd x) \<and> tgHeld (fst x) \<le> n) \<and>
     tgWg (fst x) = weight task_goroutine (snd x) \<and>
     (\<not> tgStarted (fst x) \<longrightarrow> weight past_start (snd x) = 0)"

fun slot_action :: "tg_action \<Rightarrow> bool" where
  "slot_action (GoStart n fn tr) \<longleftrightarrow> True"
| "slot_action (GoAcquire i n fn tr) \<longleftrightarrow> True"
| "slot_action TaskRelease \<longleftrightarrow> True"
| "slot_action TaskDone \<longleftrightarrow> True"
| "slot_action WaitStart \<longleftrightarrow> True"
| "slot_action (SetLimit n) \<longleftrightarrow> True"
| "slot_action _ \<longleftrightarrow> False"

definition keeps_slots :: "task_group \<Rightarrow> task_group \<Rightarrow> bool" where
  "keeps_slots g g' \<longleftrightarrow> tgSemaphore g' = tgSemaphore g \<and> tgHeld g' = tgHeld g \<and> tgWg g' = tgWg g \<and>
     tgStarted g' = tgStarted g"

lemmas tg_act_defs =
  executeTask_register_def setFundamentalError_def setTaskFailureError_def addTaskError_def
  executeTask_end_def Wait_group_def Wait_select_def Wait_lock_def Wait_return_def Close_check_def
  CancelWithReason_def executeCleanup_enter_def executeCleanup_copy_def executeCleanup_loop_def
  RegisterCleanupWithName_def RegisterCloserWithName_def after_cleanup_def

lemma slots_kept:
  assumes "tg_act E a g = TNext bs new g'" "\<not> slot_action a"
  shows "keeps_slots g g' \<and> new = []"
  using assms
  by (cases a)
    (auto simp: tg_act_defs with_mu_def Let_def keeps_slots_def
      split: if_splits option.splits once.splits caller.splits list.splits prod.splits)

lemma slot_weights_kept:
  assumes "tg_act E a g = TNext bs new g'" "\<not> slot_action a"
  shows "sum_list (map holder bs) = holder a \<and> sum_list (map task_goroutine bs) = task_goroutine a \<and>
    sum_list (map past_start bs) \<le> past_start a"
  using assms
  by (cases a)
    (auto simp: tg_act_defs with_mu_def Let_def split: if_splits option.splits once.splits caller.splits list.splits prod.splits)

lemma holder_past_start: "holder a \<le> past_start a"
  by (cases a) simp_all

lemma limit_act:
  assumes "limit_inv (g, ts)" "i < length ts" "ts ! i = a # as" "tg_act E a g = TNext bs new g'"
  shows "limit_inv (g', ts[i := bs @ as] @ new)"
proof -
  note u = weight_update [OF assms(2,3), of holder bs new] weight_update [OF assms(2,3), of task_goroutine bs new]
    weight_update [OF assms(2,3), of past_start bs new]
  note h = weight_head [OF assms(2,3), of holder] weight_head [OF assms(2,3), of task_goroutine]
    weight_head [OF assms(2,3), of past_start]
  have hp: "weight holder ts \<le> weight past_start ts"
    by (rule weight_mono) (rule holder_past_start)
  show ?thesis
  proof (cases "slot_action a")
    case False
    with slots_kept [OF assms(4)] slot_weights_kept [OF assms(4)] u assms(1) show ?thesis
      by (auto simp: limit_inv_def keeps_slots_def split: option.splits)
  next
    case True
    then show ?thesis
    proof (cases a)
      case (GoStart n fn tr)
      then have "bs = [GoRegister n fn tr]" "new = []" "g' = tg_Start g"
        using assms(4) by (auto simp: with_mu_def split: if_splits)
      then show ?thesis using GoStart u assms(1) by (auto simp: limit_inv_def split: option.splits)
    next
      case (GoAcquire i' n fn tr)
      then have started: "tgStarted g" using h(3) assms(1) by (auto simp: limit_inv_def)
      consider (goes) "bs = []" "new = [[TaskBegin i' n fn]]"
          "g' = g\<lparr>tgWg := tgWg g + 1, tgHeld := tgHeld g + of_bool (tgSemaphore g \<noteq> None)\<rparr>"
          "\<forall>m. tgSemaphore g = Some m \<longrightarrow> tgHeld g < m"
        | (gives_up) "new = []" "keeps_slots g g'" "bs = [] \<or> (\<exists>e. bs = [TaskCancel i', SetFundamental e])"
        using assms(4) GoAcquire by (auto simp: executeTask_acquire_def Let_def keeps_slots_def
            split: option.splits if_splits)
      then show ?thesis
        using GoAcquire u assms(1) started
        by cases (auto simp: limit_inv_def keeps_slots_def split: option.splits)
    next
      case TaskRelease
      then have "bs = [TaskDone]" "new = []" "g' = g\<lparr>tgHeld := tgHeld g - of_bool (tgSemaphore g \<noteq> None)\<rparr>"
        using assms(4) by (auto simp: executeTask_release_def split: option.splits)
      then show ?thesis using TaskRelease u h assms(1) by (auto simp: limit_inv_def split: option.splits)
    next
      case TaskDone
      then have "bs = []" "new = []" "g' = g\<lparr>tgWg := tgWg g - 1\<rparr>" using assms(4) by auto
      then show ?thesis using TaskDone u h assms(1) by (auto simp: limit_inv_def split: option.splits)
    next
      case WaitStart
      then have "\<exists>w. bs = [WaitSelect w] \<and> new = [[WaitGroupWait w]]" "tgSemaphore g' = tgSemaphore g"
        "tgHeld g' = tgHeld g" "tgWg g' = tgWg g" "tgStarted g'"
        using assms(4) by (auto simp: Wait_start_def with_mu_def Let_def split: if_splits)
      then show ?thesis using WaitStart u assms(1) by (auto simp: limit_inv_def split: option.splits)
    next
      case (SetLimit n)
      then have b: "bs = []" "new = []"
        and g': "g' = (if tgStarted g then g else g\<lparr>tgSemaphore := (if 0 < n then Some (nat n) else None)\<rparr>)"
        using assms(4) by (auto simp: TaskGroup_SetLimit_def with_mu_def split: if_splits)
      have "tgHeld g = 0 \<and> weight holder ts = 0" if "\<not> tgStarted g"
        using that assms(1) hp by (auto simp: limit_inv_def split: option.splits)
      then show ?thesis using SetLimit u b g' assms(1) by (auto simp: limit_inv_def split: option.splits)
    qed simp_all
  qed
qed

lemma limit_step: "tg_step allowed x y \<Longrightarrow> limit_inv x \<Longrightarrow> limit_inv y"
proof (induction rule: tg_step.induct)
  case (acts i ts a as E g bs new g')
  then show ?case using limit_act by blast
next
  case (calls a g ts)
  then show ?case by (cases a) (auto simp: limit_inv_def split: option.splits)
next
  case (ends g ts e)
  then show ?case by (auto simp: limit_inv_def split: option.splits)
qed

interpretation tg_limit: inductive_invariant tg_start "tg_step allowed" limit_inv for allowed
proof
  show "tg_start x \<Longrightarrow> limit_inv x" for x
    by (auto simp: tg_start_def limit_inv_def NewTaskGroup_def)
qed (rule limit_step)

section \<open>Waiting\<close>

text \<open>Calls without \<open>Close\<close>.\<close>

definition no_close :: "tg_action \<Rightarrow> bool" where
  "no_close a \<longleftrightarrow> a \<noteq> CloseCheck"

fun wait_ok :: "task_group \<Rightarrow> tg_action \<Rightarrow> bool" where
  "wait_ok g WaitReturn \<longleftrightarrow> False"
| "wait_ok g CloseCheck \<longleftrightarrow> False"
| "wait_ok g (CleanupEnter k) \<longleftrightarrow> k = ByWait \<and> tgMu g"
| "wait_ok g (CleanupCopy k) \<longleftrightarrow> k = ByWait \<and> tgMu g"
| "wait_ok g (CleanupLoop cs k) \<longleftrightarrow> False"
| "wait_ok g _ \<longleftrightarrow> True"

definition wait_inv :: "tg_system \<Rightarrow> bool" where
  "wait_inv x \<longleftrightarrow> pending_all (wait_ok (fst x)) (snd x) \<and> tgWaits (fst x) = [] \<and>
     tgCleaned (fst x) = [] \<and> tgCleanupOnce (fst x) \<noteq> Done \<and> tgMu (fst x) = tgFinished (fst x)"

lemma wait_ok_mono: "wait_ok g a \<Longrightarrow> (tgMu g \<longrightarrow> tgMu g') \<Longrightarrow> wait_ok g' a"
  by (cases a) auto

text \<open>The actions that end the group.\<close>

fun ending :: "tg_action \<Rightarrow> bool" where
  "ending WaitLock \<longleftrightarrow> True"
| "ending WaitReturn \<longleftrightarrow> True"
| "ending CloseCheck \<longleftrightarrow> True"
| "ending (CleanupEnter k) \<longleftrightarrow> True"
| "ending (CleanupCopy k) \<longleftrightarrow> True"
| "ending (CleanupLoop cs k) \<longleftrightarrow> True"
| "ending _ \<longleftrightarrow> False"

definition keeps_end :: "task_group \<Rightarrow> task_group \<Rightarrow> bool" where
  "keeps_end g g' \<longleftrightarrow> tgMu g' = tgMu g \<and> tgFinished g' = tgFinished g \<and> tgWaits g' = tgWaits g \<and>
     tgCleaned g' = tgCleaned g \<and> tgCleanupOnce g' = tgCleanupOnce g"

lemma not_ending_act:
  assumes "tg_act E a g = TNext bs new g'" "\<not> ending a"
  shows "keeps_end g g'"
  using assms
  by (cases a)
    (auto simp: tg_act_defs with_mu_def Let_def executeTask_acquire_def executeTask_release_def
      TaskGroup_SetLimit_def Wait_start_def keeps_end_def
      split: if_splits option.splits prod.splits)

lemma not_ending_next:
  assumes "tg_act E a g = TNext bs new g'" "\<not> ending a"
  shows "(\<forall>b \<in> set bs. b = WaitLock \<or> \<not> ending b) \<and> pending_all (\<lambda>b. \<not> ending b) new"
  using assms
  by (cases a)
    (auto simp: tg_act_defs with_mu_def Let_def executeTask_acquire_def executeTask_release_def
      TaskGroup_SetLimit_def Wait_start_def pending_all_def
      split: if_splits option.splits prod.splits)

lemma wait_ok_not_ending: "\<not> ending b \<or> b = WaitLock \<Longrightarrow> wait_ok g b"
  by (cases b) auto

lemma wait_act:
  assumes "wait_inv (g, ts)" "wait_ok g a" "tg_act E a g = TNext bs new g'"
  shows "(\<forall>b \<in> set bs. wait_ok g' b) \<and> pending_all (wait_ok g') new \<and> (tgMu g \<longrightarrow> tgMu g') \<and>
    tgWaits g' = [] \<and> tgCleaned g' = [] \<and> tgCleanupOnce g' \<noteq> Done \<and> tgMu g' = tgFinished g'"
proof (cases "ending a")
  case False
  with not_ending_act [OF assms(3)] not_ending_next [OF assms(3)] assms(1) wait_ok_not_ending show ?thesis
    by (auto simp: wait_inv_def keeps_end_def pending_all_def)
next
  case True
  then show ?thesis
    using assms
    by (cases a)
      (auto simp: wait_inv_def Wait_lock_def executeCleanup_enter_def executeCleanup_copy_def with_mu_def
        after_cleanup_def pending_all_def split: if_splits once.splits)
qed

lemma wait_step: "tg_step no_close x y \<Longrightarrow> wait_inv x \<Longrightarrow> wait_inv y"
proof (induction rule: tg_step.induct)
  case (acts i ts a as E g bs new g')
  then have p: "pending_all (wait_ok g) ts" by (simp add: wait_inv_def)
  note w = wait_act [OF acts.prems pending_all_head [OF p acts.hyps(1,2)] acts.hyps(3)]
  have "pending_all (wait_ok g') (ts[i := bs @ as] @ new)"
    by (rule pending_all_step [OF p acts.hyps(1,2)]) (use w wait_ok_mono [of g _ g'] in blast)+
  with w show ?case by (simp add: wait_inv_def)
next
  case (calls a g ts)
  have "wait_ok g a" using calls.hyps by (cases a) (auto simp: no_close_def)
  with calls.prems show ?case by (auto simp: wait_inv_def pending_all_def)
next
  case (ends g ts e)
  have "wait_ok g a \<Longrightarrow> wait_ok (g\<lparr>tgCtxErr := Some e\<rparr>) a" for a by (erule wait_ok_mono) simp
  with ends.prems show ?case by (auto simp: wait_inv_def pending_all_def)
qed

interpretation tg_wait: inductive_invariant tg_start "tg_step no_close" wait_inv
proof
  show "tg_start x \<Longrightarrow> wait_inv x" for x
    by (auto simp: tg_start_def wait_inv_def NewTaskGroup_def pending_all_def)
qed (rule wait_step)

section \<open>Cleanup\<close>

fun cleanup_token :: "tg_action \<Rightarrow> nat" where
  "cleanup_token (CleanupCopy k) = 1"
| "cleanup_token (CleanupLoop cs k) = 1"
| "cleanup_token _ = 0"

fun cleanup_rest :: "tg_action \<Rightarrow> CleanupEntry list" where
  "cleanup_rest (CleanupLoop cs k) = cs"
| "cleanup_rest _ = []"

fun is_loop :: "tg_action \<Rightarrow> bool" where
  "is_loop (CleanupLoop cs k) \<longleftrightarrow> True"
| "is_loop _ \<longleftrightarrow> False"

text \<open>
  At most one goroutine cleans up; before it has copied the functions none has been called, and
  what it has called and has still to call is, in reverse, the list it copied.
\<close>

definition cleanup_inv :: "tg_system \<Rightarrow> bool" where
  "cleanup_inv x \<longleftrightarrow> weight cleanup_token (snd x) = of_bool (tgCleanupOnce (fst x) = Doing) \<and>
     (tgCleanupOnce (fst x) = Fresh \<longrightarrow> tgCleaned (fst x) = []) \<and>
     (\<exists>fs. prefix fs (tgCleanupFuncs (fst x)) \<and>
        pending_all (\<lambda>a. (is_loop a \<longrightarrow> tgCleaned (fst x) @ map ceName (cleanup_rest a) = rev (map ceName fs)) \<and>
                         (\<forall>k. a = CleanupCopy k \<longrightarrow> tgCleaned (fst x) = [])) (snd x) \<and>
        (tgCleanupOnce (fst x) = Done \<longrightarrow> tgCleaned (fst x) = rev (map ceName fs)))"

definition cleaning :: "task_group \<Rightarrow> CleanupEntry list \<Rightarrow> tg_action \<Rightarrow> bool" where
  "cleaning g fs a \<longleftrightarrow> (is_loop a \<longrightarrow> tgCleaned g @ map ceName (cleanup_rest a) = rev (map ceName fs)) \<and>
     (\<forall>k. a = CleanupCopy k \<longrightarrow> tgCleaned g = [])"

lemma cleaning_other: "cleanup_token a = 0 \<Longrightarrow> cleaning g fs a"
  by (cases a) (simp_all add: cleaning_def)

lemma cleanup_inv_alt:
  "cleanup_inv (g, ts) \<longleftrightarrow> weight cleanup_token ts = of_bool (tgCleanupOnce g = Doing) \<and>
     (tgCleanupOnce g = Fresh \<longrightarrow> tgCleaned g = []) \<and>
     (\<exists>fs. prefix fs (tgCleanupFuncs g) \<and> pending_all (cleaning g fs) ts \<and>
        (tgCleanupOnce g = Done \<longrightarrow> tgCleaned g = rev (map ceName fs)))"
  by (simp add: cleanup_inv_def cleaning_def [abs_def])

fun cleaner :: "tg_action \<Rightarrow> bool" where
  "cleaner (CleanupEnter k) \<longleftrightarrow> True"
| "cleaner (CleanupCopy k) \<longleftrightarrow> True"
| "cleaner (CleanupLoop cs k) \<longleftrightarrow> True"
| "cleaner _ \<longleftrightarrow> False"

lemma not_cleaner_act:
  assumes "tg_act E a g = TNext bs new g'" "\<not> cleaner a"
  shows "tgCleaned g' = tgCleaned g \<and> tgCleanupOnce g' = tgCleanupOnce g \<and>
    prefix (tgCleanupFuncs g) (tgCleanupFuncs g')"
  using assms
  by (cases a)
    (auto simp: tg_act_defs with_mu_def Let_def executeTask_acquire_def executeTask_release_def
      TaskGroup_SetLimit_def Wait_start_def
      split: if_splits option.splits prod.splits)

lemma not_cleaner_next:
  assumes "tg_act E a g = TNext bs new g'" "\<not> cleaner a"
  shows "(\<forall>b \<in> set bs. cleanup_token b = 0) \<and> pending_all (\<lambda>b. cleanup_token b = 0) new"
  using assms
  by (cases a)
    (auto simp: tg_act_defs with_mu_def Let_def executeTask_acquire_def executeTask_release_def
      TaskGroup_SetLimit_def Wait_start_def pending_all_def
      split: if_splits option.splits prod.splits)

lemma cleanup_act_other:
  assumes "cleanup_inv (g, ts)" "i < length ts" "ts ! i = a # as" "tg_act E a g = TNext bs new g'" "\<not> cleaner a"
  shows "cleanup_inv (g', ts[i := bs @ as] @ new)"
proof -
  note k = not_cleaner_act [OF assms(4,5)] and n = not_cleaner_next [OF assms(4,5)]
  have "cleanup_token a = 0" using assms(5) by (cases a) simp_all
  then have w: "weight cleanup_token (ts[i := bs @ as] @ new) = weight cleanup_token ts"
    using weight_update [OF assms(2,3), of cleanup_token bs new] n weight_zero [of cleanup_token new]
    by (simp add: sum_list_zero)
  obtain fs where fs: "prefix fs (tgCleanupFuncs g)" "pending_all (cleaning g fs) ts"
    "tgCleanupOnce g = Done \<longrightarrow> tgCleaned g = rev (map ceName fs)"
    using assms(1) by (auto simp: cleanup_inv_alt)
  have "cleaning g' fs = cleaning g fs" using k by (simp add: cleaning_def fun_eq_iff)
  moreover have "pending_all (cleaning g fs) (ts[i := bs @ as] @ new)"
    using n by (intro pending_all_update [OF pending_all_drop [OF fs(2) assms(2,3)] assms(2)])
      (auto simp: pending_all_def cleaning_other)
  moreover have "prefix fs (tgCleanupFuncs g')" using fs(1) k prefix_order.trans by blast
  ultimately show ?thesis using assms(1) w k fs(3) by (auto simp: cleanup_inv_alt)
qed

lemma cleanup_act:
  assumes "cleanup_inv (g, ts)" "i < length ts" "ts ! i = a # as" "tg_act E a g = TNext bs new g'"
  shows "cleanup_inv (g', ts[i := bs @ as] @ new)"
proof (cases "cleaner a")
  case False
  with cleanup_act_other assms show ?thesis by blast
next
  case True
  note u = weight_update [OF assms(2,3), of cleanup_token bs new] and h = weight_head [OF assms(2,3), of cleanup_token]
  obtain fs where fs: "prefix fs (tgCleanupFuncs g)" "pending_all (cleaning g fs) ts"
    "tgCleanupOnce g = Done \<longrightarrow> tgCleaned g = rev (map ceName fs)"
    using assms(1) by (auto simp: cleanup_inv_alt)
  have inv: "weight cleanup_token ts = of_bool (tgCleanupOnce g = Doing)" "tgCleanupOnce g = Fresh \<longrightarrow> tgCleaned g = []"
    using assms(1) by (simp_all add: cleanup_inv_alt)
  note head = pending_all_head [OF fs(2) assms(2,3)] and rest = pending_all_drop [OF fs(2) assms(2,3)]
  have only: "pending_all (\<lambda>b. cleanup_token b = 0) (ts[i := as])" if "0 < cleanup_token a"
    using weight_only_head [OF assms(2,3), of cleanup_token] inv(1) that h
    by (cases "tgCleanupOnce g = Doing") auto
  have others: "pending_all (cleaning h' fs') (ts[i := as])" if "0 < cleanup_token a" for h' fs'
    using only [OF that] by (auto simp: pending_all_def cleaning_other)
  show ?thesis
    using True
  proof (cases a)
    case (CleanupEnter k)
    show ?thesis
    proof (cases "tgCleanupOnce g = Fresh")
      case True
      then have b: "bs = [CleanupCopy k]" "new = []" "g' = g\<lparr>tgCleanupOnce := Doing\<rparr>"
        using assms(4) CleanupEnter by (simp_all add: executeCleanup_enter_def)
      have "pending_all (cleaning g' []) (ts[i := bs @ as] @ new)"
      proof (rule pending_all_update)
        have "pending_all (\<lambda>b. cleanup_token b = 0) ts"
          using weight_zero [of cleanup_token ts] inv(1) True by simp
        from pending_all_drop [OF this assms(2,3)] show "pending_all (cleaning g' []) (ts[i := as])"
          by (auto simp: pending_all_def cleaning_other)
      qed (use b inv(2) True assms(2) in \<open>simp_all add: cleaning_def pending_all_def\<close>)
      then show ?thesis
        using b u inv True CleanupEnter by (auto simp: cleanup_inv_alt intro!: exI [of _ "[]"])
    next
      case False
      then have b: "bs = after_cleanup k" "new = []" "g' = g" "tgCleanupOnce g = Done"
        using assms(4) CleanupEnter by (auto simp: executeCleanup_enter_def split: once.splits)
      have "pending_all (cleaning g fs) (ts[i := bs @ as] @ new)"
        using b by (intro pending_all_update [OF rest assms(2)])
          (auto simp: pending_all_def after_cleanup_def cleaning_def split: caller.splits)
      moreover have "sum_list (map cleanup_token bs) = 0" using b by (simp add: after_cleanup_def split: caller.split)
      ultimately show ?thesis using b u inv fs CleanupEnter by (auto simp: cleanup_inv_alt)
    qed
  next
    case (CleanupCopy k)
    then have b: "bs = [CleanupLoop (rev (tgCleanupFuncs g)) k]" "new = []" "g' = g"
      using assms(4) by (auto simp: executeCleanup_copy_def with_mu_def split: if_splits)
    have d: "tgCleanupOnce g = Doing" using h inv(1) CleanupCopy by (cases "tgCleanupOnce g = Doing") auto
    have "tgCleaned g = []" using head CleanupCopy by (simp add: cleaning_def)
    then have "pending_all (cleaning g (tgCleanupFuncs g)) (ts[i := bs @ as] @ new)"
      using b CleanupCopy by (intro pending_all_update [OF others assms(2)])
        (simp_all add: cleaning_def pending_all_def rev_map)
    then show ?thesis using b u inv d CleanupCopy by (auto simp: cleanup_inv_alt intro!: exI [of _ "tgCleanupFuncs g"])
  next
    case (CleanupLoop cs k)
    have d: "tgCleanupOnce g = Doing" using h inv(1) CleanupLoop by (cases "tgCleanupOnce g = Doing") auto
    have c: "tgCleaned g @ map ceName cs = rev (map ceName fs)" using head CleanupLoop by (simp add: cleaning_def)
    show ?thesis
    proof (cases cs)
      case Nil
      then have b: "bs = after_cleanup k" "new = []" "g' = g\<lparr>tgCleanupOnce := Done\<rparr>"
        using assms(4) CleanupLoop by (simp_all add: executeCleanup_loop_def)
      have "pending_all (cleaning g' fs) (ts[i := bs @ as] @ new)"
        using b CleanupLoop by (intro pending_all_update [OF others assms(2)])
          (auto simp: pending_all_def after_cleanup_def cleaning_def split: caller.splits)
      moreover have "sum_list (map cleanup_token bs) = 0" using b by (simp add: after_cleanup_def split: caller.split)
      ultimately show ?thesis using b u inv fs(1) c d Nil CleanupLoop by (auto simp: cleanup_inv_alt)
    next
      case (Cons e es)
      then have b: "bs = [CleanupLoop es k]" "new = []" "g' = g\<lparr>tgCleaned := tgCleaned g @ [ceName e]\<rparr>"
        using assms(4) CleanupLoop by (simp_all add: executeCleanup_loop_def)
      have "pending_all (cleaning g' fs) (ts[i := bs @ as] @ new)"
        using b CleanupLoop c Cons by (intro pending_all_update [OF others assms(2)])
          (simp_all add: pending_all_def cleaning_def)
      then show ?thesis using b u inv fs(1) d CleanupLoop by (auto simp: cleanup_inv_alt)
    qed
  qed simp_all
qed

lemma cleanup_step: "tg_step allowed x y \<Longrightarrow> cleanup_inv x \<Longrightarrow> cleanup_inv y"
proof (induction rule: tg_step.induct)
  case (acts i ts a as E g bs new g')
  then show ?case using cleanup_act by blast
next
  case (calls a g ts)
  have "cleanup_token a = 0" using calls.hyps(1) by (cases a) simp_all
  with calls.prems show ?case by (auto simp: cleanup_inv_alt pending_all_def cleaning_other)
next
  case (ends g ts e)
  then show ?case by (simp add: cleanup_inv_def)
qed

interpretation tg_cleanup: inductive_invariant tg_start "tg_step allowed" cleanup_inv for allowed
proof
  show "tg_start x \<Longrightarrow> cleanup_inv x" for x
    by (auto simp: tg_start_def cleanup_inv_def NewTaskGroup_def pending_all_def)
qed (rule cleanup_step)

section \<open>The first error\<close>

definition err_inv :: "tg_system \<Rightarrow> bool" where
  "err_inv x \<longleftrightarrow> (tgErr (fst x) \<noteq> None \<longleftrightarrow> tgErrOnce (fst x) = Done)"

lemma err_act:
  assumes "tg_act E a g = TNext bs new g'" "tgErr g \<noteq> None \<longleftrightarrow> tgErrOnce g = Done"
  shows "(tgErr g' \<noteq> None \<longleftrightarrow> tgErrOnce g' = Done) \<and> (tgErr g \<noteq> None \<longrightarrow> tgErr g' = tgErr g)"
  using assms
  by (cases a)
    (auto simp: tg_act_defs with_mu_def Let_def executeTask_acquire_def executeTask_release_def
      TaskGroup_SetLimit_def Wait_start_def
      split: if_splits option.splits prod.splits once.splits list.splits)

lemma err_step:
  "tg_step allowed x y \<Longrightarrow> err_inv x \<Longrightarrow> err_inv y \<and> (tgErr (fst x) \<noteq> None \<longrightarrow> tgErr (fst y) = tgErr (fst x))"
  by (induction rule: tg_step.induct) (auto simp: err_inv_def dest: err_act)

interpretation tg_err: inductive_invariant tg_start "tg_step allowed" err_inv for allowed
proof
  show "tg_start x \<Longrightarrow> err_inv x" for x
    by (auto simp: tg_start_def err_inv_def NewTaskGroup_def)
qed (blast dest: err_step)

section \<open>The registry of tasks\<close>

text \<open>Calls of \<open>Go\<close> only: none that gives up when no slot is free.\<close>

fun no_try :: "tg_action \<Rightarrow> bool" where
  "no_try (GoStart n fn tr) \<longleftrightarrow> \<not> tr"
| "no_try (GoRegister n fn tr) \<longleftrightarrow> \<not> tr"
| "no_try (GoAcquire i n fn tr) \<longleftrightarrow> \<not> tr"
| "no_try _ \<longleftrightarrow> True"

text \<open>The goroutines in which a task waits to run, and those in which it runs.\<close>

fun waits_to_run :: "string \<Rightarrow> tg_action \<Rightarrow> nat" where
  "waits_to_run j (GoAcquire i n fn tr) = of_bool (i = j)"
| "waits_to_run j (TaskBegin i n fn) = of_bool (i = j)"
| "waits_to_run j (TaskCancel i) = of_bool (i = j)"
| "waits_to_run j _ = 0"

fun runs :: "string \<Rightarrow> tg_action \<Rightarrow> nat" where
  "runs j (TaskBody i n fn) = of_bool (i = j)"
| "runs j (TaskEnd i n err pan) = of_bool (i = j)"
| "runs j _ = 0"

definition phase_ok :: "TaskStatus \<Rightarrow> nat \<Rightarrow> nat \<Rightarrow> bool" where
  "phase_ok st w r \<longleftrightarrow> w = of_bool (st = TaskStatusPending) \<and> r = of_bool (st = TaskStatusRunning)"

definition registry_inv :: "tg_system \<Rightarrow> bool" where
  "registry_inv x \<longleftrightarrow> pending_all no_try (snd x) \<and> syncmap_invar (tgTasks (fst x)) \<and>
     length (tgHeap (fst x)) = tgTaskCounter (fst x) \<and>
     (\<forall>i n. syncmap_Load (tgTasks (fst x)) i = Some n \<longleftrightarrow> n < tgTaskCounter (fst x) \<and> i = task_id (fst x) (Suc n)) \<and>
     (\<forall>i. case syncmap_Load (tgTasks (fst x)) i of
        Some n \<Rightarrow> tsID (tgHeap (fst x) ! n) = i \<and>
          phase_ok (tsStatus (tgHeap (fst x) ! n)) (weight (waits_to_run i) (snd x)) (weight (runs i) (snd x))
      | None \<Rightarrow> weight (waits_to_run i) (snd x) = 0 \<and> weight (runs i) (snd x) = 0)"

lemma task_id_inj: "task_id g n = task_id g m \<longleftrightarrow> n = m"
  by (auto simp: task_id_def dest: nat_digits_inj)

fun registry_action :: "tg_action \<Rightarrow> bool" where
  "registry_action (GoRegister n fn tr) \<longleftrightarrow> True"
| "registry_action (GoAcquire i n fn tr) \<longleftrightarrow> True"
| "registry_action (TaskCancel i) \<longleftrightarrow> True"
| "registry_action (TaskBegin i n fn) \<longleftrightarrow> True"
| "registry_action (TaskEnd i n err pan) \<longleftrightarrow> True"
| "registry_action _ \<longleftrightarrow> False"

definition keeps_registry :: "task_group \<Rightarrow> task_group \<Rightarrow> bool" where
  "keeps_registry g g' \<longleftrightarrow> tgTasks g' = tgTasks g \<and> tgHeap g' = tgHeap g \<and> tgTaskCounter g' = tgTaskCounter g \<and>
     tgOpts g' = tgOpts g"

lemma not_registry_act:
  assumes "tg_act E a g = TNext bs new g'" "\<not> registry_action a"
  shows "keeps_registry g g'"
  using assms
  by (cases a)
    (auto simp: tg_act_defs with_mu_def Let_def executeTask_release_def TaskGroup_SetLimit_def Wait_start_def
      keeps_registry_def split: if_splits option.splits prod.splits once.splits list.splits)

lemma not_registry_next:
  assumes "tg_act E a g = TNext bs new g'" "\<not> registry_action a" "no_try a"
  shows "(\<forall>b \<in> set bs. no_try b) \<and> pending_all no_try new \<and>
    sum_list (map (waits_to_run j) bs) = waits_to_run j a \<and> sum_list (map (runs j) bs) = runs j a \<and>
    weight (waits_to_run j) new = 0 \<and> weight (runs j) new = 0"
  using assms
  by (cases a)
    (auto simp: tg_act_defs with_mu_def Let_def executeTask_release_def TaskGroup_SetLimit_def Wait_start_def
      pending_all_def executeTaskWithRecovery_def
      split: if_splits option.splits prod.splits once.splits list.splits caller.splits task_result.splits)

lemma task_id_opts: "tgOpts g' = tgOpts g \<Longrightarrow> task_id g' = task_id g"
  by (simp add: task_id_def fun_eq_iff)

text \<open>A step that moves no task from one phase to another.\<close>

lemma registry_same:
  assumes inv: "registry_inv (g, ts)" and i: "i < length ts" "ts ! i = a # as"
    and k: "keeps_registry g g'"
    and n: "\<forall>b \<in> set bs. no_try b" "pending_all no_try new"
      "\<And>j. sum_list (map (waits_to_run j) bs) + weight (waits_to_run j) new = waits_to_run j a"
      "\<And>j. sum_list (map (runs j) bs) + weight (runs j) new = runs j a"
  shows "registry_inv (g', ts[i := bs @ as] @ new)"
proof -
  have p: "pending_all no_try ts" using inv by (simp add: registry_inv_def)
  have w: "weight (waits_to_run j) (ts[i := bs @ as] @ new) = weight (waits_to_run j) ts"
    "weight (runs j) (ts[i := bs @ as] @ new) = weight (runs j) ts" for j
    using weight_update [OF i, of "waits_to_run j" bs new] weight_update [OF i, of "runs j" bs new]
      n(3,4) [of j] by simp_all
  moreover have "pending_all no_try (ts[i := bs @ as] @ new)"
    by (rule pending_all_update [OF pending_all_drop [OF p i] i(1) n(1,2)])
  moreover have eqs: "tgTasks g' = tgTasks g" "tgHeap g' = tgHeap g" "tgTaskCounter g' = tgTaskCounter g" "task_id g' = task_id g"
    using k task_id_opts [of g' g] by (simp_all add: keeps_registry_def)
  ultimately show ?thesis
    using inv unfolding registry_inv_def fst_conv snd_conv w eqs by blast
qed

lemma registry_no_try:
  assumes "registry_inv (g, ts)" "i < length ts" "ts ! i = a # as"
  shows "no_try a"
proof -
  have "pending_all no_try ts" using assms(1) by (simp add: registry_inv_def)
  from pending_all_head [OF this assms(2,3)] show ?thesis .
qed

lemma registry_act_other:
  assumes "registry_inv (g, ts)" "i < length ts" "ts ! i = a # as" "tg_act E a g = TNext bs new g'"
    and "\<not> registry_action a"
  shows "registry_inv (g', ts[i := bs @ as] @ new)"
proof -
  note n = not_registry_next [OF assms(4,5) registry_no_try [OF assms(1-3)]]
  show ?thesis
    by (rule registry_same [OF assms(1-3) not_registry_act [OF assms(4,5)]]) (use n in simp_all)
qed

lemma registry_at:
  assumes "registry_inv (g, ts)"
  shows "case syncmap_Load (tgTasks g) i of
      Some n \<Rightarrow> tsID (tgHeap g ! n) = i \<and>
        phase_ok (tsStatus (tgHeap g ! n)) (weight (waits_to_run i) ts) (weight (runs i) ts)
    | None \<Rightarrow> weight (waits_to_run i) ts = 0 \<and> weight (runs i) ts = 0"
  using assms unfolding registry_inv_def fst_conv snd_conv by blast

lemma registry_load:
  assumes "registry_inv (g, ts)" "syncmap_Load (tgTasks g) i = Some n"
  shows "n < length (tgHeap g) \<and> i = task_id g (Suc n)"
  using assms unfolding registry_inv_def by simp

text \<open>A change of the status of one task.\<close>

lemma registry_change:
  assumes inv: "registry_inv (g, ts)" and i: "i < length ts" "ts ! i = a # as"
    and id: "waits_to_run j a + runs j a = 1" "\<And>j'. j' \<noteq> j \<Longrightarrow> waits_to_run j' a = 0 \<and> runs j' a = 0"
    and bs: "\<forall>b \<in> set bs. no_try b"
      "\<And>j'. j' \<noteq> j \<Longrightarrow> sum_list (map (waits_to_run j') bs) = 0 \<and> sum_list (map (runs j') bs) = 0"
    and n: "syncmap_Load (tgTasks g) j = Some n"
    and t: "tsID t = tsID (tgHeap g ! n)"
      "phase_ok (tsStatus t) (sum_list (map (waits_to_run j) bs)) (sum_list (map (runs j) bs))"
    and g': "tgTasks g' = tgTasks g" "tgHeap g' = (tgHeap g)[n := t]" "tgTaskCounter g' = tgTaskCounter g" "tgOpts g' = tgOpts g"
  shows "registry_inv (g', ts[i := bs @ as])"
proof -
  have u: "weight (waits_to_run j') (ts[i := bs @ as]) + waits_to_run j' a = weight (waits_to_run j') ts + sum_list (map (waits_to_run j') bs)"
    "weight (runs j') (ts[i := bs @ as]) + runs j' a = weight (runs j') ts + sum_list (map (runs j') bs)" for j'
    using weight_update [OF i, of "waits_to_run j'" bs "[]"] weight_update [OF i, of "runs j'" bs "[]"] by simp_all
  have p: "pending_all no_try ts" using inv by (simp add: registry_inv_def)
  have "pending_all no_try (ts[i := bs @ as])"
    using pending_all_update [OF pending_all_drop [OF p i] i(1) bs(1), of "[]"] by (simp add: pending_all_def)
  moreover have eqs: "task_id g' = task_id g" "length (tgHeap g') = length (tgHeap g)" using g' task_id_opts [of g' g] by simp_all
  moreover have "case syncmap_Load (tgTasks g) j' of
        Some m \<Rightarrow> tsID (tgHeap g' ! m) = j' \<and>
          phase_ok (tsStatus (tgHeap g' ! m)) (weight (waits_to_run j') (ts[i := bs @ as])) (weight (runs j') (ts[i := bs @ as]))
      | None \<Rightarrow> weight (waits_to_run j') (ts[i := bs @ as]) = 0 \<and> weight (runs j') (ts[i := bs @ as]) = 0" for j'
  proof (cases "j' = j")
    case True
    have "n < length (tgHeap g)" using inv n by (simp add: registry_inv_def)
    moreover have "weight (waits_to_run j) ts = waits_to_run j a" "weight (runs j) ts = runs j a"
      using registry_at [OF inv, of j] n weight_head [OF i, of "waits_to_run j"] weight_head [OF i, of "runs j"] id(1)
      by (auto simp: phase_ok_def split: if_splits)
    ultimately show ?thesis
      using u [of j] registry_at [OF inv, of j] n t g'(2) True by simp
  next
    case False
    have "m \<noteq> n" if "syncmap_Load (tgTasks g) j' = Some m" for m
      using registry_load [OF inv that] registry_load [OF inv n] False by auto
    moreover have "weight (waits_to_run j') (ts[i := bs @ as]) = weight (waits_to_run j') ts"
      "weight (runs j') (ts[i := bs @ as]) = weight (runs j') ts"
      using u [of j'] id(2) [OF False] bs(2) [OF False] by simp_all
    ultimately show ?thesis
      using registry_at [OF inv, of j'] g'(2) by (cases "syncmap_Load (tgTasks g) j'") simp_all
  qed
  ultimately show ?thesis
    using inv unfolding registry_inv_def fst_conv snd_conv g'(1,3) eqs by blast
qed

lemma registry_known:
  assumes "registry_inv (g, ts)" "i < length ts" "ts ! i = a # as" "0 < waits_to_run j a + runs j a"
  shows "\<exists>n. syncmap_Load (tgTasks g) j = Some n"
  using registry_at [OF assms(1), of j] weight_head [OF assms(2,3), of "waits_to_run j"]
    weight_head [OF assms(2,3), of "runs j"] assms(4)
  by (cases "syncmap_Load (tgTasks g) j") auto

lemma registry_register:
  assumes inv: "registry_inv (g, ts)" and i: "i < length ts" "ts ! i = GoRegister n fn tr # as"
    and act: "executeTask_register E n fn tr g = TNext bs new g'"
  shows "registry_inv (g', ts[i := bs @ as] @ new)"
proof (cases "tgFinished g")
  case True
  then have "bs = []" "new = []" "g' = g"
    using act by (auto simp: executeTask_register_def with_mu_def split: if_splits)
  then show ?thesis
    by (intro registry_same [OF inv i]) (simp_all add: keeps_registry_def pending_all_def)
next
  case False
  let ?m = "tgTaskCounter g" and ?j = "task_id g (Suc (tgTaskCounter g))"
  have tr: "\<not> tr" using registry_no_try [OF inv i] by simp
  define t where "t = \<lparr>tsID = ?j, tsIDX = int (Suc ?m), tsName = n, tsStatus = TaskStatusPending, tsError = None,
    tsPanicInfo = None, tsGoroutineID = getGoroutineID (teStack E)\<rparr>"
  then have t: "tsID t = ?j" "tsStatus t = TaskStatusPending" by simp_all
  have b: "bs = [GoAcquire ?j n fn tr]" "new = []"
    and g': "tgTasks g' = syncmap_Store ?j (length (tgHeap g)) (tgTasks g)" "tgHeap g' = tgHeap g @ [t]"
      "tgTaskCounter g' = Suc ?m" "tgOpts g' = tgOpts g"
    using act False by (auto simp: executeTask_register_def with_mu_def Let_def t_def split: if_splits)
  have len: "length (tgHeap g) = ?m" and smi: "syncmap_invar (tgTasks g)"
    and p: "pending_all no_try ts" using inv by (simp_all add: registry_inv_def)
  have ids: "task_id g' = task_id g" using task_id_opts [OF g'(4)] .
  have load: "syncmap_Load (tgTasks g') = (syncmap_Load (tgTasks g))(?j \<mapsto> ?m)"
    using smap.load_store [OF smi] g'(1) len by simp
  have fresh: "syncmap_Load (tgTasks g) ?j = None"
  proof (cases "syncmap_Load (tgTasks g) ?j")
    case (Some k)
    from registry_load [OF inv this] len show ?thesis by (auto simp: task_id_inj)
  qed simp
  have w: "weight (waits_to_run j) (ts[i := bs @ as] @ new) = weight (waits_to_run j) ts + of_bool (j = ?j)"
    "weight (runs j) (ts[i := bs @ as] @ new) = weight (runs j) ts" for j
    using weight_update [OF i, of "waits_to_run j" bs new] weight_update [OF i, of "runs j" bs new] b by auto
  have "pending_all no_try (ts[i := bs @ as] @ new)"
    by (rule pending_all_update [OF pending_all_drop [OF p i] i(1)]) (use b tr in \<open>simp_all add: pending_all_def\<close>)
  moreover have "syncmap_invar (tgTasks g')" using smap.invar_store [OF smi] g'(1) by simp
  moreover have "syncmap_Load (tgTasks g') j = Some k \<longleftrightarrow> k < Suc ?m \<and> j = task_id g (Suc k)" for j k
  proof -
    have "syncmap_Load (tgTasks g) j = Some k \<longleftrightarrow> k < ?m \<and> j = task_id g (Suc k)"
      using inv unfolding registry_inv_def fst_conv by blast
    then show ?thesis using load by (auto simp: task_id_inj less_Suc_eq)
  qed
  moreover have "case syncmap_Load (tgTasks g') j of
      Some k \<Rightarrow> tsID (tgHeap g' ! k) = j \<and>
        phase_ok (tsStatus (tgHeap g' ! k)) (weight (waits_to_run j) ts + of_bool (j = ?j)) (weight (runs j) ts)
    | None \<Rightarrow> weight (waits_to_run j) ts + of_bool (j = ?j) = 0 \<and> weight (runs j) ts = 0" for j
  proof (cases "j = ?j")
    case True
    then show ?thesis using registry_at [OF inv, of ?j] fresh load g'(2) t len by (simp add: phase_ok_def nth_append)
  next
    case False
    then show ?thesis
      using registry_at [OF inv, of j] registry_load [OF inv, of j] load g'(2)
      by (cases "syncmap_Load (tgTasks g) j") (simp_all add: nth_append)
  qed
  ultimately show ?thesis
    using len g'(2,3) unfolding registry_inv_def fst_conv snd_conv w ids by simp
qed

lemma registry_act:
  assumes inv: "registry_inv (g, ts)" and i: "i < length ts" "ts ! i = a # as" and act: "tg_act E a g = TNext bs new g'"
  shows "registry_inv (g', ts[i := bs @ as] @ new)"
proof (cases "registry_action a")
  case False
  with registry_act_other inv i act show ?thesis by blast
next
  case True
  then show ?thesis
  proof (cases a)
    case (GoRegister n fn tr)
    with registry_register inv i act show ?thesis by simp
  next
    case (GoAcquire j n fn tr)
    then have "\<not> tr" using registry_no_try [OF inv i] by simp
    then have "keeps_registry g g' \<and>
        (bs = [] \<and> new = [[TaskBegin j n fn]] \<or> (\<exists>e. bs = [TaskCancel j, SetFundamental e] \<and> new = []))"
      using act GoAcquire by (auto simp: executeTask_acquire_def Let_def keeps_registry_def split: option.splits if_splits)
    then show ?thesis
      using GoAcquire by (intro registry_same [OF inv i]) (auto simp: pending_all_def)
  next
    case (TaskCancel j)
    obtain n where n: "syncmap_Load (tgTasks g) j = Some n" using registry_known [OF inv i, of j] TaskCancel by auto
    then have b: "bs = []" "new = []" "g' = g\<lparr>tgHeap := (tgHeap g)[n := (tgHeap g ! n)\<lparr>tsStatus := TaskStatusCanceled\<rparr>]\<rparr>"
      using act TaskCancel by (auto simp: with_mu_def updateTaskStatus_def Let_def split: if_splits)
    have "registry_inv (g', ts[i := bs @ as])"
      by (rule registry_change [OF inv i _ _ _ _ n]) (use TaskCancel b in \<open>auto simp: phase_ok_def\<close>)
    then show ?thesis using b by simp
  next
    case (TaskBegin j m fn)
    obtain n where n: "syncmap_Load (tgTasks g) j = Some n" using registry_known [OF inv i, of j] TaskBegin by auto
    then have b: "bs = [TaskBody j m fn]" "new = []" "g' = g\<lparr>tgHeap := (tgHeap g)[n := (tgHeap g ! n)\<lparr>tsStatus := TaskStatusRunning,
        tsGoroutineID := getGoroutineID (teStack E)\<rparr>]\<rparr>"
      using act TaskBegin by (auto simp: with_mu_def updateTaskStatus_def Let_def split: if_splits)
    have "registry_inv (g', ts[i := bs @ as])"
      by (rule registry_change [OF inv i _ _ _ _ n]) (use TaskBegin b in \<open>auto simp: phase_ok_def\<close>)
    then show ?thesis using b by simp
  next
    case (TaskEnd j m err pan)
    obtain n where n: "syncmap_Load (tgTasks g) j = Some n" using registry_known [OF inv i, of j] TaskEnd by auto
    obtain t st where b: "new = []" "tgTasks g' = tgTasks g" "tgHeap g' = (tgHeap g)[n := t]"
        "tgTaskCounter g' = tgTaskCounter g" "tgOpts g' = tgOpts g" "tsID t = tsID (tgHeap g ! n)"
        "tsStatus t \<noteq> TaskStatusPending" "tsStatus t \<noteq> TaskStatusRunning"
      and bs: "bs = (case err of None \<Rightarrow> [] | Some e \<Rightarrow> [TaskAddError m e, TaskSetError e]) @ [TaskRelease]"
      using act TaskEnd n by (auto simp: with_mu_def executeTask_end_def Let_def split: if_splits)
    have z: "\<forall>c \<in> set bs. no_try c \<and> waits_to_run k c = 0 \<and> runs k c = 0" for k
      using bs by (auto split: option.splits)
    have "registry_inv (g', ts[i := bs @ as])"
      by (rule registry_change [OF inv i _ _ _ _ n, where t = t]) (use TaskEnd b z in \<open>auto simp: phase_ok_def sum_list_zero\<close>)
    then show ?thesis using b by simp
  qed simp_all
qed

lemma registry_step: "tg_step no_try x y \<Longrightarrow> registry_inv x \<Longrightarrow> registry_inv y"
proof (induction rule: tg_step.induct)
  case (acts i ts a as E g bs new g')
  then show ?case using registry_act by blast
next
  case (calls a g ts)
  have w: "weight (waits_to_run j) (ts @ [[a]]) = weight (waits_to_run j) ts" "weight (runs j) (ts @ [[a]]) = weight (runs j) ts" for j
    using calls.hyps(1) by (cases a; simp)+
  have "pending_all no_try ts \<Longrightarrow> pending_all no_try (ts @ [[a]])" using calls.hyps(2) by (auto simp: pending_all_def)
  with calls.prems show ?case unfolding registry_inv_def fst_conv snd_conv w by blast
next
  case (ends g ts e)
  let ?g = "g\<lparr>tgCtxErr := Some e\<rparr>"
  have eqs: "task_id ?g = task_id g" "tgHeap ?g = tgHeap g" "tgTasks ?g = tgTasks g" "tgTaskCounter ?g = tgTaskCounter g"
    using task_id_opts [of ?g g] by simp_all
  show ?case using ends.prems unfolding registry_inv_def fst_conv snd_conv eqs .
qed

interpretation tg_registry: inductive_invariant tg_start "tg_step no_try" registry_inv
proof
  show "tg_start x \<Longrightarrow> registry_inv x" for x
    by (auto simp: tg_start_def registry_inv_def NewTaskGroup_def pending_all_def smap.load_empty smap.invar_empty)
qed (rule registry_step)

subsection \<open>Counting the running tasks\<close>

fun in_body :: "tg_action \<Rightarrow> nat" where
  "in_body (TaskBody i n fn) = 1"
| "in_body (TaskEnd i n err pan) = 1"
| "in_body _ = 0"

lemma registry_length: "registry_inv (g, ts) \<Longrightarrow> length (tgHeap g) = tgTaskCounter g"
  unfolding registry_inv_def fst_conv by blast

lemma registry_load_iff:
  assumes "registry_inv (g, ts)"
  shows "syncmap_Load (tgTasks g) j = Some m \<longleftrightarrow> m < tgTaskCounter g \<and> j = task_id g (Suc m)"
  using assms unfolding registry_inv_def fst_conv by blast

lemma in_body_cases:
  "in_body a = 0 \<or> (\<exists>j. runs j a = 1)" "in_body a = 0 \<Longrightarrow> runs j a = 0"
  by (cases a; simp)+

lemma in_body_runs:
  assumes "registry_inv (g, ts)" "th \<in> set ts" "a \<in> set th"
  shows "in_body a = (\<Sum>n<tgTaskCounter g. runs (task_id g (Suc n)) a)"
proof (cases "\<exists>j. runs j a = 1")
  case True
  then obtain j where j: "runs j a = 1" by blast
  with registry_at [OF assms(1), of j] weight_le_pending [OF assms(2,3), of "runs j"]
  obtain m where m: "syncmap_Load (tgTasks g) j = Some m" by (cases "syncmap_Load (tgTasks g) j") auto
  have "m < tgTaskCounter g" "j = task_id g (Suc m)"
    using registry_load [OF assms(1) m] registry_length [OF assms(1)] by simp_all
  moreover have "runs k a = of_bool (k = j)" for k using j by (cases a) (auto split: if_splits)
  moreover have "in_body a = 1" using j by (cases a) auto
  ultimately show ?thesis by (simp add: task_id_inj)
next
  case False
  then have "in_body a = 0" using in_body_cases(1) by blast
  then show ?thesis using in_body_cases(2) by simp
qed

lemma running_weight:
  assumes "registry_inv (g, ts)"
  shows "weight in_body ts = (\<Sum>n<tgTaskCounter g. of_bool (tsStatus (tgHeap g ! n) = TaskStatusRunning))"
proof -
  have "weight in_body ts = weight (\<lambda>a. \<Sum>n<tgTaskCounter g. runs (task_id g (Suc n)) a) ts"
    using in_body_runs [OF assms] by (intro weight_cong) (auto simp: pending_all_def)
  also have "\<dots> = (\<Sum>n<tgTaskCounter g. weight (runs (task_id g (Suc n))) ts)" by (rule weight_sum)
  also have "\<dots> = (\<Sum>n<tgTaskCounter g. of_bool (tsStatus (tgHeap g ! n) = TaskStatusRunning))"
  proof (rule sum.cong)
    fix n
    assume "n \<in> {..<tgTaskCounter g}"
    then have "syncmap_Load (tgTasks g) (task_id g (Suc n)) = Some n"
      using registry_load_iff [OF assms, of "task_id g (Suc n)" n] by simp
    with registry_at [OF assms, of "task_id g (Suc n)"]
    show "weight (runs (task_id g (Suc n))) ts = of_bool (tsStatus (tgHeap g ! n) = TaskStatusRunning)"
      by (simp add: phase_ok_def)
  qed simp
  finally show ?thesis .
qed

lemma entries_positions:
  assumes "registry_inv (g, ts)"
  shows "distinct (map snd (entries (tgTasks g))) \<and> set (map snd (entries (tgTasks g))) = {..<tgTaskCounter g}"
proof -
  have smi: "distinct (map fst (entries (tgTasks g)))" using assms by (simp add: registry_inv_def syncmap_invar_def)
  have mem: "(j, m) \<in> set (entries (tgTasks g)) \<longleftrightarrow> m < tgTaskCounter g \<and> j = task_id g (Suc m)" for j m
    using registry_load_iff [OF assms, of j m] smi by (simp add: syncmap_Load_def)
  have "inj_on snd (set (entries (tgTasks g)))" using mem by (auto intro!: inj_onI)
  then have "distinct (map snd (entries (tgTasks g)))"
    using smi by (simp add: distinct_map)
  moreover have "m \<in> set (map snd (entries (tgTasks g))) \<longleftrightarrow> (\<exists>j. (j, m) \<in> set (entries (tgTasks g)))" for m
    by force
  then have "set (map snd (entries (tgTasks g))) = {..<tgTaskCounter g}" unfolding mem by auto
  ultimately show ?thesis by simp
qed

lemma running_count:
  assumes "registry_inv (g, ts)"
  shows "GetRunningTaskCount g = weight in_body ts"
proof -
  let ?run = "\<lambda>n. tsStatus (tgHeap g ! n) = TaskStatusRunning"
  have "range_entries (\<lambda>acc _ r. (if ?run r then acc @ [tgHeap g ! r] else acc, True)) acc xs =
      acc @ map ((!) (tgHeap g)) (filter ?run (map snd xs))" for acc and xs :: "(string \<times> nat) list"
    by (induction xs arbitrary: acc) auto
  then have "GetRunningTaskCount g = length (filter ?run (map snd (entries (tgTasks g))))"
    by (simp add: GetRunningTaskCount_def GetRunningTasks_def GetTasksByStatus_def syncmap_Range_def)
  also have "\<dots> = card (set (filter ?run (map snd (entries (tgTasks g)))))"
    using entries_positions [OF assms] by (intro distinct_card [symmetric] distinct_filter) blast
  also have "\<dots> = card {n \<in> {..<tgTaskCounter g}. ?run n}"
    using entries_positions [OF assms] by (simp only: set_filter)
  also have "\<dots> = weight in_body ts"
    unfolding running_weight [OF assms] by (simp add: sum_of_bool_eq Int_def)
  finally show ?thesis .
qed

section \<open>Running an execution\<close>

datatype tg_move = TAct tg_env nat | TCall tg_action | TEnds string

fun tg_run :: "tg_move list \<Rightarrow> tg_system \<Rightarrow> tg_system option" where
  "tg_run [] x = Some x"
| "tg_run (TAct E i # ms) (g, ts) =
     (if i < length ts then
        (case ts ! i of
           [] \<Rightarrow> None
         | a # as \<Rightarrow>
             (case tg_act E a g of
                TNext bs new g' \<Rightarrow> tg_run ms (g', ts[i := bs @ as] @ new)
              | TBlocked \<Rightarrow> None))
      else None)"
| "tg_run (TCall a # ms) (g, ts) = (if tg_call a then tg_run ms (g, ts @ [[a]]) else None)"
| "tg_run (TEnds e # ms) (g, ts) = (if tgCtxErr g = None then tg_run ms (g\<lparr>tgCtxErr := Some e\<rparr>, ts) else None)"

fun calls_of :: "tg_move list \<Rightarrow> tg_action list" where
  "calls_of [] = []"
| "calls_of (TCall a # ms) = a # calls_of ms"
| "calls_of (_ # ms) = calls_of ms"

lemma calls_of_append [simp]: "calls_of (ms @ ns) = calls_of ms @ calls_of ns"
  by (induction ms rule: calls_of.induct) simp_all

lemma tg_run_steps:
  "tg_run ms x = Some y \<Longrightarrow> \<forall>a \<in> set (calls_of ms). allowed a \<Longrightarrow> (tg_step allowed)\<^sup>*\<^sup>* x y"
proof (induction ms x arbitrary: y rule: tg_run.induct)
  case (2 E i ms g ts)
  show ?case
  proof (cases "tg_run (TAct E i # ms) (g, ts) = None")
    case False
    then obtain a as bs new g' where act: "i < length ts" "ts ! i = a # as" "tg_act E a g = TNext bs new g'"
      by (auto split: if_splits list.splits tg_outcome.splits)
    have "(tg_step allowed)\<^sup>*\<^sup>* (g', ts[i := bs @ as] @ new) y"
      using "2.IH" [OF act] "2.prems" act by simp
    then show ?thesis using tg_step.acts [OF act] by (rule converse_rtranclp_into_rtranclp [rotated])
  qed (use "2.prems" in simp)
next
  case (3 a ms g ts)
  then show ?case by (auto split: if_splits intro: converse_rtranclp_into_rtranclp tg_step.calls)
next
  case (4 e ms g ts)
  then show ?case by (auto split: if_splits intro: converse_rtranclp_into_rtranclp tg_step.ends)
qed simp

lemma tg_run_started:
  assumes "tg_run ms (NewTaskGroup opts, []) = Some y" "\<forall>a \<in> set (calls_of ms). allowed a"
  shows "reachable tg_start (tg_step allowed) y"
proof -
  have "reachable tg_start (tg_step allowed) (NewTaskGroup opts, [])"
    by (rule reachable.at_start) (auto simp: tg_start_def)
  with tg_run_steps [OF assms] show ?thesis
    by (induction rule: rtranclp_induct) (auto intro: reachable.by_step)
qed

definition env_stack :: tg_env where
  "env_stack = \<lparr>teStack = ''goroutine 7 [running]:'', teDone = False\<rparr>"

definition one_slot :: TaskGroupOpts where
  "one_slot = \<lparr>ogName = ''g'', ogMaxConcurrent = 1, ogKeepTaskHistory = True\<rparr>"

definition turns_of :: "nat \<Rightarrow> nat \<Rightarrow> tg_move list" where
  "turns_of n i = replicate n (TAct env_stack i)"

lemma turns_of_calls [simp]: "calls_of (turns_of n i) = []"
  by (induction n) (simp_all add: turns_of_def)

text \<open>
  A group with one slot: a first task is started in goroutine 0 and runs in goroutine 1, a second waits
  for the slot in goroutine 2.
\<close>

definition two_tasks :: "tg_move list" where
  "two_tasks = [TCall (GoStart ''a'' (Panics ''boom'') False)] @ turns_of 3 0 @ turns_of 1 1 @
     [TCall (GoStart ''b'' (Returns None) False)] @ turns_of 2 2"

text \<open>
  Two cleanup functions are registered, the group is waited for by goroutines 2 and 3; the wait
  stops when it copies the functions.
\<close>

definition two_cleanups :: "tg_move list" where
  "two_cleanups = [TCall (RegisterCleanup ''x'' (Returns None))] @ turns_of 1 0 @
     [TCall (RegisterCleanup [] (Returns None))] @ turns_of 1 1"

definition waited :: "tg_move list" where
  "waited = two_cleanups @ [TCall WaitStart] @ turns_of 1 2 @ turns_of 1 3 @ turns_of 3 2"

lemmas tg_runs_defs = two_tasks_def two_cleanups_def waited_def

section \<open>Properties\<close>

text \<open>
  C9: The limit of a task group holds: in every execution the number of task functions that run at the
  same time is at most the size of the semaphore, and the wait group counts exactly the
  goroutines of the tasks that have not ended.
\<close>

theorem limit_respected:
  assumes "reachable tg_start (tg_step allowed) (g, ts)"
  shows "tgWg g = weight task_goroutine ts \<and>
    (case tgSemaphore g of None \<Rightarrow> True | Some n \<Rightarrow> weight task_running ts \<le> n)"
proof -
  have "task_running a \<le> holder a" for a by (cases a) simp_all
  then have "weight task_running ts \<le> weight holder ts" by (rule weight_mono)
  then show ?thesis
    using tg_limit.reachable_inv [OF assms] by (auto simp: limit_inv_def split: option.splits)
qed


text \<open>
  C22: \<open>Wait\<close> never returns unless \<open>Close\<close> was called. It takes the mutex of the group and then asks for
  it again to copy the cleanup functions; so in executions without \<open>Close\<close> no call of \<open>Wait\<close> ever returns, no
  cleanup function is ever called, and once a \<open>Wait\<close> has seen its tasks end the mutex stays taken:
  starting a task, another \<open>Wait\<close>, \<open>Close\<close>, and the registration of a cleanup function all block.
\<close>

theorem Wait_never_returns:
  assumes "reachable tg_start (tg_step no_close) (g, ts)"
  shows "tgWaits g = [] \<and> tgCleaned g = [] \<and>
    (tgFinished g \<longrightarrow>
      (\<forall>E n fn tr k. list_all (\<lambda>a. tg_act E a g = TBlocked)
        [GoStart n fn tr, WaitStart, CloseCheck, RegisterCleanup n fn, SetLimit k]))"
proof -
  have inv: "tgWaits g = [] \<and> tgCleaned g = [] \<and> tgMu g = tgFinished g"
    using tg_wait.reachable_inv [OF assms] by (simp add: wait_inv_def)
  have "list_all (\<lambda>a. tg_act E a g = TBlocked)
      [GoStart n fn tr, WaitStart, CloseCheck, RegisterCleanup n fn, SetLimit k]" if "tgMu g" for E n fn tr k
    using that by (simp add: with_mu_def Wait_start_def Close_check_def RegisterCleanupWithName_def
        TaskGroup_SetLimit_def)
  with inv show ?thesis by blast
qed

text \<open>
  C30: The cleanup functions are called in the reverse order of their registration, each at most once:
  those called so far are, in reverse, the first part of a list of functions that were
  registered, and once the cleanup is over all functions of that list have been called.
\<close>

theorem cleanup_reverse_order:
  assumes "reachable tg_start (tg_step allowed) (g, ts)"
  shows "\<exists>fs. prefix fs (GetCleanupNames g) \<and> prefix (tgCleaned g) (rev fs) \<and>
    (tgCleanupOnce g = Done \<longrightarrow> tgCleaned g = rev fs)"
proof -
  have inv: "cleanup_inv (g, ts)" using tg_cleanup.reachable_inv [OF assms] .
  then obtain fs where fs: "prefix fs (tgCleanupFuncs g)" "pending_all (cleaning g fs) ts"
      "tgCleanupOnce g = Done \<longrightarrow> tgCleaned g = rev (map ceName fs)"
    by (auto simp: cleanup_inv_alt)
  have "prefix (tgCleaned g) (rev (map ceName fs))"
  proof (cases "tgCleanupOnce g")
    case Fresh
    then show ?thesis using inv by (simp add: cleanup_inv_alt)
  next
    case Doing
    then have "0 < weight cleanup_token ts" using inv by (simp add: cleanup_inv_alt)
    then obtain a where "0 < cleanup_token a" "cleaning g fs a"
      using fs(2) weight_zero [of cleanup_token ts] unfolding pending_all_def by (metis gr_zeroI less_numeral_extra(3))
    then show ?thesis by (cases a) (auto simp: cleaning_def intro: prefixI [OF sym])
  next
    case Done
    then show ?thesis using fs(3) by simp
  qed
  moreover have "prefix (map ceName fs) (GetCleanupNames g)"
    using fs(1) by (auto simp: GetCleanupNames_def prefix_def)
  ultimately show ?thesis using fs(3) by blast
qed

text \<open>
  The first error of a group is kept: once it is set no step changes it, so what \<open>Status\<close> reports is from then on
  the same in every later state.
\<close>

lemma first_error_kept:
  assumes "reachable tg_start (tg_step allowed) x" "(tg_step allowed)\<^sup>*\<^sup>* x y" "TaskGroup_Status (fst x) = (st, fin, n, Some e)"
  shows "\<exists>st' fin' n'. TaskGroup_Status (fst y) = (st', fin', n', Some e)"
proof -
  have "reachable tg_start (tg_step allowed) y \<and> tgErr (fst y) = Some e" using assms(2)
  proof (induction rule: rtranclp_induct)
    case base
    then show ?case using assms(1,3) by (simp add: TaskGroup_Status_def)
  next
    case (step y z)
    then show ?case using err_step [OF step.hyps(2) tg_err.reachable_inv] by (auto intro: reachable.by_step)
  qed
  then show ?thesis by (simp add: TaskGroup_Status_def)
qed

subsection \<open>Executions\<close>

theorem limit_respected_witness:
  "\<exists>g ts. tg_run two_tasks (NewTaskGroup one_slot, []) = Some (g, ts) \<and> tgSemaphore g = Some 1 \<and>
     weight task_running ts = 1 \<and> tgWg g = weight task_goroutine ts"
proof -
  have "case tg_run two_tasks (NewTaskGroup one_slot, []) of
      None \<Rightarrow> False | Some (g, ts) \<Rightarrow> tgSemaphore g = Some 1 \<and> weight task_running ts = 1"
    by code_simp
  then obtain g ts where r: "tg_run two_tasks (NewTaskGroup one_slot, []) = Some (g, ts)"
      "tgSemaphore g = Some 1 \<and> weight task_running ts = 1"
    by (auto split: option.splits)
  have "reachable tg_start (tg_step (\<lambda>_. True)) (g, ts)" by (rule tg_run_started [OF r(1)]) simp
  from limit_respected [OF this] r show ?thesis by auto
qed


theorem Wait_never_returns_witness:
  "\<exists>g ts. tg_run waited (NewTaskGroup one_slot, []) = Some (g, ts) \<and> tgFinished g \<and>
     tgWaits g = [] \<and> tg_act env_stack WaitStart g = TBlocked"
proof -
  have "case tg_run waited (NewTaskGroup one_slot, []) of None \<Rightarrow> False | Some (g, ts) \<Rightarrow> tgFinished g"
    by code_simp
  then obtain g ts where r: "tg_run waited (NewTaskGroup one_slot, []) = Some (g, ts)" "tgFinished g"
    by (auto split: option.splits)
  have "reachable tg_start (tg_step no_close) (g, ts)"
    by (rule tg_run_started [OF r(1)]) (simp add: tg_runs_defs no_close_def)
  from Wait_never_returns [OF this] r show ?thesis by auto
qed

theorem cleanup_reverse_order_witness:
  "\<exists>g ts. tg_run (two_cleanups @ [TCall CloseCheck] @ turns_of 7 2) (NewTaskGroup one_slot, []) = Some (g, ts) \<and>
     tgCleaned g = [''cleanup-2'', ''x''] \<and> (\<exists>fs. prefix fs (GetCleanupNames g) \<and> tgCleaned g = rev fs)"
proof -
  have "case tg_run (two_cleanups @ [TCall CloseCheck] @ turns_of 7 2) (NewTaskGroup one_slot, []) of
      None \<Rightarrow> False | Some (g, ts) \<Rightarrow> tgCleanupOnce g = Done \<and> tgCleaned g = [''cleanup-2'', ''x'']"
    by code_simp
  then obtain g ts where r: "tg_run (two_cleanups @ [TCall CloseCheck] @ turns_of 7 2) (NewTaskGroup one_slot, []) =
      Some (g, ts)" "tgCleanupOnce g = Done" "tgCleaned g = [''cleanup-2'', ''x'']"
    by (auto split: option.splits)
  have "reachable tg_start (tg_step (\<lambda>_. True)) (g, ts)" by (rule tg_run_started [OF r(1)]) simp
  from cleanup_reverse_order [OF this] r show ?thesis by blast
qed


text \<open>
  Goroutine 0 starts \<open>a\<close>, which takes the slot; 2 tries to start \<open>b\<close>; before it has given up, 3 starts \<open>c\<close>; then 4
  starts \<open>d\<close>; \<open>a\<close> ends and \<open>c\<close> runs.
\<close>

definition trygo_race :: "tg_move list" where
  "trygo_race = [TCall (GoStart ''a'' (Returns None) False)] @ turns_of 3 0 @
     [TCall (GoStart ''b'' (Returns None) True)] @ turns_of 2 2 @
     [TCall (GoStart ''c'' (Returns None) False)] @ turns_of 2 3 @ turns_of 1 2 @
     [TCall (GoStart ''d'' (Returns None) False)] @ turns_of 2 4 @
     turns_of 5 1 @ turns_of 1 3 @ turns_of 1 5"

fun runs_name :: "tg_action list \<Rightarrow> string option" where
  "runs_name (TaskBody i n fn # as) = Some n"
| "runs_name _ = None"

text \<open>
  When \<open>TryGo\<close> finds no free slot it takes its task off the counter, although another task may have been started
  since. The next task then gets the id of that other task and replaces it in the registry. In the
  execution above the tasks \<open>c\<close> and \<open>d\<close> get the same id and only \<open>d\<close> is found under it; while the
  function of \<open>c\<close> runs, the group reports \<open>d\<close> as running and \<open>c\<close> is recorded nowhere.
\<close>

lemma TryGo_reuses_ids:
  "case tg_run trygo_race (NewTaskGroup one_slot, []) of
     None \<Rightarrow> False
   | Some (g, ts) \<Rightarrow>
       map runs_name ts = [None, None, None, None, None, Some ''c''] \<and>
       map tsName (GetRunningTasks g) = [''d''] \<and> GetTasksByName g ''c'' = [] \<and>
       map_option tsName (TaskGroup_GetTask g ''g-3'') = Some ''d'' \<and>
       map tsID (filter (\<lambda>t. tsName t \<in> {''c'', ''d''}) (tgHeap g)) = [''g-3'', ''g-3'']"
  by code_simp

end

