(* ===== verification/Conversion.thy ===== *)
theory Conversion
  imports Registry Runtime
begin

text \<open>
  The conversions between the options and results of the runtime interface and the messages that
  carry them to the guest (\<open>core/runc/conversion/conversion.go\<close>). A message is a record of the
  fields its setters fill; a getter of an absent message gives the zero value. JSON encoding is an
  argument. An IO or a console on the host is known by its reference id only, when it has one.
\<close>

section \<open>Data\<close>

text \<open>An interface value: of a type with \<open>GetReferenceId\<close>, or of another type, given by its name.\<close>

datatype iface = Referable string | NotReferable string

record ('io, 'cs) CreateOpts =
  gcPidFile :: string
  gcIO :: "'io option"
  gcNoPivot :: bool
  gcNoNewKeyring :: bool
  gcConsoleSocket :: "'cs option"
  gcDetach :: bool
  gcExtraFiles :: "string list"
  gcStarted :: bool

record RuncCreateOptions =
  rcPidFile :: string
  rcNoPivot :: bool
  rcNoNewKeyring :: bool
  rcDetach :: bool
  rcExtraFiles :: "string list"
  rcIoReferenceId :: string
  rcConsoleReferenceId :: string

record ('io, 'cs) ExecOpts =
  gxPidFile :: string
  gxIO :: "'io option"
  gxDetach :: bool
  gxConsoleSocket :: "'cs option"
  gxExtraArgs :: "string list"

record RuncExecOptions =
  rxPidFile :: string
  rxDetach :: bool
  rxExtraArgs :: "string list"
  rxIoReferenceId :: string
  rxConsoleReferenceId :: string

record KillOpts =
  gkAll :: bool
  gkExtraArgs :: "string list"

record RuncKillOptions =
  rkAll :: bool
  rkExtraArgs :: "string list"

record DeleteOpts =
  gdForce :: bool
  gdExtraArgs :: "string list"

record RuncDeleteOptions =
  rdForce :: bool
  rdExtraArgs :: "string list"

text \<open>A container; its time of creation in nanoseconds since 1970.\<close>

record runc_container =
  cnID :: string
  cnPid :: int
  cnStatus :: string
  cnBundle :: string
  cnRootfs :: string
  cnCreated :: int
  cnAnnotations :: "(string \<times> string) list"

record RuncContainer =
  pcId :: string
  pcPid :: "32 word"
  pcStatus :: string
  pcBundle :: string
  pcRootfs :: string
  pcCreatedTimestamp :: "64 word"
  pcAnnotations :: "(string \<times> string) list"

record CheckpointOpts =
  gpImagePath :: string
  gpWorkDir :: string
  gpParentPath :: string
  gpAllowOpenTCP :: bool
  gpAllowExternalUnixSockets :: bool
  gpAllowTerminal :: bool
  gpCriuPageServer :: string
  gpFileLocks :: bool
  gpCgroups :: string
  gpEmptyNamespaces :: "string list"
  gpLazyPages :: bool
  gpStatusFile :: "string option"
  gpExtraArgs :: "string list"

record RuncCheckpointOptions =
  rpImagePath :: string
  rpWorkDir :: string
  rpParentPath :: string
  rpAllowOpenTcp :: bool
  rpAllowExternalUnixSockets :: bool
  rpAllowTerminal :: bool
  rpCriuPageServer :: string
  rpFileLocks :: bool
  rpCgroups :: string
  rpEmptyNamespaces :: "string list"
  rpLazyPages :: bool
  rpStatusFile :: string
  rpExtraArgs :: "string list"

record TopResults =
  gtHeaders :: "string list"
  gtProcesses :: "string list list"

record RuncTopProcesses =
  rtpProcess :: "string list"

record RuncTopResults =
  rtHeaders :: "string list"
  rtProcesses :: "RuncTopProcesses list"

record CgroupEvent =
  geHigh :: "64 word"
  geMax :: "64 word"
  geOOM :: "64 word"
  geOOMKill :: "64 word"
  geLow :: "64 word"

record RuncCgroupEvent =
  peHigh :: "64 word"
  peMax :: "64 word"
  peOom :: "64 word"
  peOomKill :: "64 word"
  peLow :: "64 word"

section \<open>Create and exec options\<close>

text \<open>\<open>opts.GetIoReferenceId()\<close> and its lookup; \<open>missing\<close> is the error when nothing is registered.\<close>

definition lookup_ref :: "(string \<Rightarrow> 'a option) \<Rightarrow> string \<Rightarrow> string \<Rightarrow> 'a option res" where
  "lookup_ref get missing ref =
     (if ref \<noteq> [] then (case get ref of None \<Rightarrow> Fail (ErrNew missing) | Some x \<Rightarrow> Ok (Some x))
      else Ok None)"

text \<open>The reference id an interface value is sent as.\<close>

definition reference_id :: "string \<Rightarrow> iface option \<Rightarrow> string res" where
  "reference_id what v =
     (case v of
        None \<Rightarrow> Ok []
      | Some (Referable r) \<Rightarrow> Ok r
      | Some (NotReferable t) \<Rightarrow> Fail (ErrNew (what @ '' is not a referable by reference id'')))"

fun res_bind :: "'a res \<Rightarrow> ('a \<Rightarrow> 'b res) \<Rightarrow> 'b res" where
  "res_bind (Ok x) k = k x"
| "res_bind (Fail e) k = Fail e"
| "res_bind (Panic m) k = Panic m"

fun open_files :: "(string \<Rightarrow> ext_error option) \<Rightarrow> string list \<Rightarrow> string list res" where
  "open_files osOpen [] = Ok []"
| "open_files osOpen (f # fs) =
     (case osOpen f of
        Some e \<Rightarrow> Fail (Ext e)
      | None \<Rightarrow> res_bind (open_files osOpen fs) (\<lambda>fs'. Ok (f # fs')))"

definition ConvertCreateOptsFromProto ::
  "(string \<Rightarrow> ext_error option) \<Rightarrow> RuncCreateOptions \<Rightarrow> ('io, 'cs, 'vs, 'us) reg \<Rightarrow> ('io, 'cs) CreateOpts res" where
  "ConvertCreateOptsFromProto osOpen opts state =
     res_bind (open_files osOpen (rcExtraFiles opts)) (\<lambda>files.
     res_bind (lookup_ref (GetOpenIO state) ''io not found'' (rcIoReferenceId opts)) (\<lambda>io.
     res_bind (lookup_ref (GetOpenConsole state) ''console not found'' (rcConsoleReferenceId opts)) (\<lambda>cs.
       Ok \<lparr>gcPidFile = rcPidFile opts, gcIO = io, gcNoPivot = rcNoPivot opts,
           gcNoNewKeyring = rcNoNewKeyring opts, gcConsoleSocket = cs, gcDetach = rcDetach opts,
           gcExtraFiles = files, gcStarted = True\<rparr>)))"

definition ConvertCreateOptsToProto :: "(iface, iface) CreateOpts \<Rightarrow> RuncCreateOptions res" where
  "ConvertCreateOptsToProto opts =
     (if 0 < length (gcExtraFiles opts) then Panic ''extra files not handled e2e''
      else
        res_bind (reference_id ''io'' (gcIO opts)) (\<lambda>io.
        res_bind (reference_id ''console socket'' (gcConsoleSocket opts)) (\<lambda>cs.
          Ok \<lparr>rcPidFile = gcPidFile opts, rcNoPivot = gcNoPivot opts,
              rcNoNewKeyring = gcNoNewKeyring opts, rcDetach = gcDetach opts,
              rcExtraFiles = gcExtraFiles opts, rcIoReferenceId = io, rcConsoleReferenceId = cs\<rparr>)))"

definition ConvertExecOptsFromProto ::
  "RuncExecOptions \<Rightarrow> ('io, 'cs, 'vs, 'us) reg \<Rightarrow> ('io, 'cs) ExecOpts res" where
  "ConvertExecOptsFromProto opts state =
     res_bind (lookup_ref (GetOpenIO state) ''io not found'' (rxIoReferenceId opts)) (\<lambda>io.
     res_bind (lookup_ref (GetOpenConsole state) ''console not found'' (rxConsoleReferenceId opts)) (\<lambda>cs.
       Ok \<lparr>gxPidFile = rxPidFile opts, gxIO = io, gxDetach = rxDetach opts, gxConsoleSocket = cs,
           gxExtraArgs = rxExtraArgs opts\<rparr>))"

definition ConvertExecOptsToProto :: "(iface, iface) ExecOpts \<Rightarrow> RuncExecOptions res" where
  "ConvertExecOptsToProto opts =
     res_bind (reference_id ''io'' (gxIO opts)) (\<lambda>io.
     res_bind (reference_id ''console socket'' (gxConsoleSocket opts)) (\<lambda>cs.
       Ok \<lparr>rxPidFile = gxPidFile opts, rxDetach = gxDetach opts, rxExtraArgs = gxExtraArgs opts,
           rxIoReferenceId = io, rxConsoleReferenceId = cs\<rparr>))"

section \<open>The other options\<close>

definition ConvertKillOptsFromProto :: "RuncKillOptions \<Rightarrow> KillOpts" where
  "ConvertKillOptsFromProto opts = \<lparr>gkAll = rkAll opts, gkExtraArgs = rkExtraArgs opts\<rparr>"

definition ConvertKillOptsToProto :: "KillOpts \<Rightarrow> RuncKillOptions" where
  "ConvertKillOptsToProto opts = \<lparr>rkAll = gkAll opts, rkExtraArgs = gkExtraArgs opts\<rparr>"

definition ConvertDeleteOptsFromProto :: "RuncDeleteOptions \<Rightarrow> DeleteOpts" where
  "ConvertDeleteOptsFromProto opts = \<lparr>gdForce = rdForce opts, gdExtraArgs = rdExtraArgs opts\<rparr>"

definition ConvertDeleteOptsToProto :: "DeleteOpts \<Rightarrow> RuncDeleteOptions" where
  "ConvertDeleteOptsToProto opts = \<lparr>rdForce = gdForce opts, rdExtraArgs = gdExtraArgs opts\<rparr>"

definition ConvertContainerToProto :: "runc_container \<Rightarrow> RuncContainer" where
  "ConvertContainerToProto c =
     \<lparr>pcId = cnID c, pcPid = word_of_int (cnPid c), pcStatus = cnStatus c, pcBundle = cnBundle c,
      pcRootfs = cnRootfs c, pcCreatedTimestamp = word_of_int (cnCreated c), pcAnnotations = cnAnnotations c\<rparr>"

definition ConvertContainerFromProto :: "RuncContainer \<Rightarrow> runc_container" where
  "ConvertContainerFromProto c =
     \<lparr>cnID = pcId c, cnPid = sint (pcPid c), cnStatus = pcStatus c, cnBundle = pcBundle c,
      cnRootfs = pcRootfs c, cnCreated = sint (pcCreatedTimestamp c), cnAnnotations = pcAnnotations c\<rparr>"

definition ConvertCheckpointOptsToProto :: "CheckpointOpts \<Rightarrow> RuncCheckpointOptions res" where
  "ConvertCheckpointOptsToProto opts =
     (if gpStatusFile opts \<noteq> None then Panic ''status file not handled e2e''
      else
        Ok \<lparr>rpImagePath = gpImagePath opts, rpWorkDir = gpWorkDir opts, rpParentPath = gpParentPath opts,
            rpAllowOpenTcp = gpAllowOpenTCP opts,
            rpAllowExternalUnixSockets = gpAllowExternalUnixSockets opts,
            rpAllowTerminal = gpAllowTerminal opts, rpCriuPageServer = gpCriuPageServer opts,
            rpFileLocks = gpFileLocks opts, rpCgroups = gpCgroups opts,
            rpEmptyNamespaces = gpEmptyNamespaces opts, rpLazyPages = gpLazyPages opts,
            rpStatusFile = (case gpStatusFile opts of None \<Rightarrow> [] | Some f \<Rightarrow> f),
            rpExtraArgs = gpExtraArgs opts\<rparr>)"

definition ConvertCheckpointOptsFromProto ::
  "(string \<Rightarrow> ext_error option) \<Rightarrow> RuncCheckpointOptions \<Rightarrow> CheckpointOpts res" where
  "ConvertCheckpointOptsFromProto osOpen opts =
     (case (if rpStatusFile opts \<noteq> [] then osOpen (rpStatusFile opts) else None) of
        Some e \<Rightarrow> Fail (Ext e)
      | None \<Rightarrow>
          if rpStatusFile opts \<noteq> [] then Panic ''status file not handled e2e''
          else
            Ok \<lparr>gpImagePath = rpImagePath opts, gpWorkDir = rpWorkDir opts, gpParentPath = rpParentPath opts,
                gpAllowOpenTCP = rpAllowOpenTcp opts,
                gpAllowExternalUnixSockets = rpAllowExternalUnixSockets opts,
                gpAllowTerminal = rpAllowTerminal opts, gpCriuPageServer = rpCriuPageServer opts,
                gpFileLocks = rpFileLocks opts, gpCgroups = rpCgroups opts,
                gpEmptyNamespaces = rpEmptyNamespaces opts, gpLazyPages = rpLazyPages opts,
                gpStatusFile = None, gpExtraArgs = []\<rparr>)"

text \<open>A checkpoint action adds its arguments to a list.\<close>

definition ConvertCheckpointActionsToProto :: "(string list \<Rightarrow> string list) list \<Rightarrow> string list list" where
  "ConvertCheckpointActionsToProto actions = map (\<lambda>action. action []) actions"

definition ConvertTopResultsFromProto :: "RuncTopResults \<Rightarrow> TopResults" where
  "ConvertTopResultsFromProto results =
     \<lparr>gtHeaders = rtHeaders results, gtProcesses = map rtpProcess (rtProcesses results)\<rparr>"

definition ConvertTopResultsToProto :: "TopResults \<Rightarrow> RuncTopResults" where
  "ConvertTopResultsToProto results =
     \<lparr>rtHeaders = gtHeaders results, rtProcesses = map (\<lambda>p. \<lparr>rtpProcess = p\<rparr>) (gtProcesses results)\<rparr>"

definition ConvertCgroupEventFromProto :: "RuncCgroupEvent \<Rightarrow> CgroupEvent" where
  "ConvertCgroupEventFromProto event =
     \<lparr>geHigh = peHigh event, geMax = peMax event, geOOM = peOom event, geOOMKill = peOomKill event,
      geLow = peLow event\<rparr>"

section \<open>Values sent as JSON\<close>

text \<open>The message holds the encoded value.\<close>

definition ConvertStatsFromProto :: "(string \<Rightarrow> ext_error + 'st) \<Rightarrow> string \<Rightarrow> 'st res" where
  "ConvertStatsFromProto unmarshal raw = of_sum (unmarshal raw)"

definition ConvertStatsToProto :: "('st \<Rightarrow> ext_error + string) \<Rightarrow> 'st \<Rightarrow> string res" where
  "ConvertStatsToProto marshal stats = of_sum (marshal stats)"

definition ConvertLinuxResourcesFromProto :: "(string \<Rightarrow> ext_error + 'lr) \<Rightarrow> string \<Rightarrow> 'lr res" where
  "ConvertLinuxResourcesFromProto unmarshal raw = of_sum (unmarshal raw)"

definition ConvertLinuxResourcesToProto :: "('lr \<Rightarrow> ext_error + string) \<Rightarrow> 'lr \<Rightarrow> string res" where
  "ConvertLinuxResourcesToProto marshal resources = of_sum (marshal resources)"

definition ConvertProcessSpecFromProto :: "(string \<Rightarrow> ext_error + proc_spec) \<Rightarrow> string \<Rightarrow> proc_spec res" where
  "ConvertProcessSpecFromProto unmarshal raw = of_sum (unmarshal raw)"

definition ConvertProcessSpecToProto :: "(proc_spec \<Rightarrow> ext_error + string) \<Rightarrow> proc_spec \<Rightarrow> string res" where
  "ConvertProcessSpecToProto marshal spec = of_sum (marshal spec)"

record 'st runc_event =
  evType :: string
  evID :: string
  evStats :: 'st
  evErr :: "go_error option"

record RuncEvent =
  pvType :: string
  pvId :: string
  pvStats :: string
  pvErr :: string

definition ConvertEventFromProto :: "(string \<Rightarrow> ext_error + 'st) \<Rightarrow> RuncEvent \<Rightarrow> 'st runc_event res" where
  "ConvertEventFromProto unmarshal event =
     res_bind (ConvertStatsFromProto unmarshal (pvStats event)) (\<lambda>stats.
       Ok \<lparr>evType = pvType event, evID = pvId event, evStats = stats,
           evErr = (if pvErr event \<noteq> [] then Some (ErrNew (pvErr event)) else None)\<rparr>)"

section \<open>Round trips\<close>

lemma res_bind_Ok: "res_bind r k = Ok y \<longleftrightarrow> (\<exists>x. r = Ok x \<and> k x = Ok y)"
  by (cases r) auto

lemma res_bind_Fail: "res_bind r k = Fail e \<longleftrightarrow> r = Fail e \<or> (\<exists>x. r = Ok x \<and> k x = Fail e)"
  by (cases r) auto

lemma reference_id_simps [simp]:
  "reference_id w None = Ok []"
  "reference_id w (Some (Referable r)) = Ok r"
  "reference_id w (Some (NotReferable t)) = Fail (ErrNew (w @ '' is not a referable by reference id''))"
  by (simp_all add: reference_id_def)

lemma reference_id_Ok: "reference_id w v = Ok r \<longleftrightarrow> v = None \<and> r = [] \<or> v = Some (Referable r)"
  by (auto simp: reference_id_def split: option.split iface.split)

lemma lookup_ref_simps [simp]:
  "lookup_ref get m [] = Ok None"
  "r \<noteq> [] \<Longrightarrow> get r = Some x \<Longrightarrow> lookup_ref get m r = Ok (Some x)"
  "r \<noteq> [] \<Longrightarrow> get r = None \<Longrightarrow> lookup_ref get m r = Fail (ErrNew m)"
  by (simp_all add: lookup_ref_def)

text \<open>
  What a host's interface value stands for in the guest: the object registered under its reference
  id. An empty reference id is sent like an absent value.
\<close>

definition guest_of :: "(string \<Rightarrow> 'a option) \<Rightarrow> string \<Rightarrow> string \<Rightarrow> iface option \<Rightarrow> 'a option res" where
  "guest_of get what missing v = res_bind (reference_id what v) (lookup_ref get missing)"

text \<open>
  The options the guest's runtime gets for options of the host.
\<close>

definition guest_create_opts ::
  "('io, 'cs, 'vs, 'us) reg \<Rightarrow> (iface, iface) CreateOpts \<Rightarrow> ('io, 'cs) CreateOpts res" where
  "guest_create_opts s opts =
     res_bind (guest_of (GetOpenIO s) ''io'' ''io not found'' (gcIO opts)) (\<lambda>io.
     res_bind (guest_of (GetOpenConsole s) ''console socket'' ''console not found'' (gcConsoleSocket opts)) (\<lambda>cs.
       Ok \<lparr>gcPidFile = gcPidFile opts, gcIO = io, gcNoPivot = gcNoPivot opts,
           gcNoNewKeyring = gcNoNewKeyring opts, gcConsoleSocket = cs, gcDetach = gcDetach opts,
           gcExtraFiles = [], gcStarted = True\<rparr>))"

lemma create_opts_to_guest:
  assumes "gcExtraFiles opts = []"
  shows "is_ok (ConvertCreateOptsToProto opts) \<longleftrightarrow>
      (\<forall>t. gcIO opts \<noteq> Some (NotReferable t) \<and> gcConsoleSocket opts \<noteq> Some (NotReferable t))"
    and "ConvertCreateOptsToProto opts = Ok p \<Longrightarrow> ConvertCreateOptsFromProto op p s = guest_create_opts s opts"
proof -
  show "is_ok (ConvertCreateOptsToProto opts) \<longleftrightarrow>
      (\<forall>t. gcIO opts \<noteq> Some (NotReferable t) \<and> gcConsoleSocket opts \<noteq> Some (NotReferable t))"
    using assms by (auto simp: ConvertCreateOptsToProto_def reference_id_def split: option.splits iface.splits)
  show "ConvertCreateOptsToProto opts = Ok p \<Longrightarrow> ConvertCreateOptsFromProto op p s = guest_create_opts s opts"
    using assms
    by (auto simp: ConvertCreateOptsToProto_def ConvertCreateOptsFromProto_def guest_create_opts_def guest_of_def
        res_bind_Ok)
qed

definition guest_exec_opts ::
  "('io, 'cs, 'vs, 'us) reg \<Rightarrow> (iface, iface) ExecOpts \<Rightarrow> ('io, 'cs) ExecOpts res" where
  "guest_exec_opts s opts =
     res_bind (guest_of (GetOpenIO s) ''io'' ''io not found'' (gxIO opts)) (\<lambda>io.
     res_bind (guest_of (GetOpenConsole s) ''console socket'' ''console not found'' (gxConsoleSocket opts)) (\<lambda>cs.
       Ok \<lparr>gxPidFile = gxPidFile opts, gxIO = io, gxDetach = gxDetach opts, gxConsoleSocket = cs,
           gxExtraArgs = gxExtraArgs opts\<rparr>))"

lemma exec_opts_to_guest:
  "ConvertExecOptsToProto opts = Ok p \<Longrightarrow> ConvertExecOptsFromProto p s = guest_exec_opts s opts"
  by (auto simp: ConvertExecOptsToProto_def ConvertExecOptsFromProto_def guest_exec_opts_def guest_of_def res_bind_Ok)

lemma kill_opts_roundtrip [simp]: "ConvertKillOptsFromProto (ConvertKillOptsToProto opts) = opts"
  by (simp add: ConvertKillOptsFromProto_def ConvertKillOptsToProto_def)

lemma delete_opts_roundtrip [simp]: "ConvertDeleteOptsFromProto (ConvertDeleteOptsToProto opts) = opts"
  by (simp add: ConvertDeleteOptsFromProto_def ConvertDeleteOptsToProto_def)

lemma top_results_roundtrip [simp]: "ConvertTopResultsFromProto (ConvertTopResultsToProto r) = r"
  by (simp add: ConvertTopResultsFromProto_def ConvertTopResultsToProto_def o_def)

lemma sint_word_of_int_iff:
  "sint (word_of_int x :: 'a::len word) = x \<longleftrightarrow> - (2 ^ (LENGTH('a) - 1)) \<le> x \<and> x < 2 ^ (LENGTH('a) - 1)"
proof -
  have "sint (word_of_int x :: 'a word) = signed_take_bit (LENGTH('a) - 1) x" by (simp add: signed_of_int)
  then show ?thesis by (simp add: signed_take_bit_int_eq_self_iff)
qed

text \<open>
  A container that is sent to the host reads back unchanged exactly when its pid fits in 32 bits and
  its time of creation in 64 bits of nanoseconds; all other fields are always kept.
\<close>

lemma container_roundtrip:
  "ConvertContainerFromProto (ConvertContainerToProto c) = c \<longleftrightarrow>
     -(2 ^ 31) \<le> cnPid c \<and> cnPid c < 2 ^ 31 \<and> -(2 ^ 63) \<le> cnCreated c \<and> cnCreated c < 2 ^ 63"
proof -
  have "ConvertContainerFromProto (ConvertContainerToProto c) = c \<longleftrightarrow>
      sint (word_of_int (cnPid c) :: 32 word) = cnPid c \<and> sint (word_of_int (cnCreated c) :: 64 word) = cnCreated c"
    by (cases c) (simp add: ConvertContainerFromProto_def ConvertContainerToProto_def)
  then show ?thesis by (simp add: sint_word_of_int_iff)
qed

text \<open>
  Of checkpoint options everything but the extra arguments reaches the guest; a status file ends the shim.
\<close>

lemma checkpoint_opts_roundtrip:
  "res_bind (ConvertCheckpointOptsToProto opts) (ConvertCheckpointOptsFromProto osOpen) =
     (if gpStatusFile opts = None then Ok (opts\<lparr>gpExtraArgs := []\<rparr>) else Panic ''status file not handled e2e'')"
  by (cases opts) (simp add: ConvertCheckpointOptsToProto_def ConvertCheckpointOptsFromProto_def)

end
