(* ===== verification/GuestServer.thy ===== *)
theory GuestServer
  imports Conversion
begin

text \<open>
  The server in the guest (\<open>core/runc/server/runc.go\<close>, \<open>socket.go\<close>, \<open>runcextras.go\<close>): it resolves the
  references of a request in its registry, calls the runtime of the guest and answers. Sockets,
  pipes and consoles are handles; what the server does to them, and the calls of the runtime, are
  recorded in order. What the runtime and the operating system answer is an argument.
\<close>

section \<open>State\<close>

datatype guest_sock = VsockSock "32 word" handle | UnixSock string handle

datatype guest_io = PipeIO handle | SocketIO "guest_sock option" "guest_sock option" "guest_sock option"

datatype guest_console = PathConsole string

type_synonym guest_create_opts = "(guest_io, guest_console) CreateOpts"
type_synonym guest_exec_opts = "(guest_io, guest_console) ExecOpts"
type_synonym guest_registry = "(guest_io, guest_console, guest_sock, guest_sock) reg"

datatype guest_effect =
    GCreate string string guest_create_opts
  | GExec string proc_spec guest_exec_opts
  | GRun string string guest_create_opts
  | GStart string
  | GDelete string DeleteOpts
  | GKill string int KillOpts
  | GPause string
  | GResume string
  | GClosePipe handle
  | GCloseSock guest_sock
  | GCloseConsole string
  | GBindConsole string guest_sock
  | GResize handle "16 word" "16 word"

record guest_env =
  gvCreate :: "string \<Rightarrow> string \<Rightarrow> guest_create_opts \<Rightarrow> ext_error option"
  gvExec :: "string \<Rightarrow> proc_spec \<Rightarrow> guest_exec_opts \<Rightarrow> ext_error option"
  gvRun :: "string \<Rightarrow> string \<Rightarrow> guest_create_opts \<Rightarrow> ext_error + int"
  gvStart :: "string \<Rightarrow> ext_error option"
  gvDelete :: "string \<Rightarrow> DeleteOpts \<Rightarrow> ext_error option"
  gvKill :: "string \<Rightarrow> int \<Rightarrow> KillOpts \<Rightarrow> ext_error option"
  gvPause :: "string \<Rightarrow> ext_error option"
  gvResume :: "string \<Rightarrow> ext_error option"
  gvPs :: "string \<Rightarrow> ext_error + int list"
  gvReadPidFile :: "string \<Rightarrow> ext_error + int"
  gvState :: "string \<Rightarrow> ext_error + runc_container"
  gvList :: "ext_error + runc_container list"
  gvTop :: "string \<Rightarrow> string \<Rightarrow> ext_error + TopResults"
  gvVersion :: "ext_error + string \<times> string \<times> string"
  gvNewPipeIO :: "int \<Rightarrow> int \<Rightarrow> io_option \<Rightarrow> ext_error + handle"
  gvDialVsock :: "32 word \<Rightarrow> ext_error + handle"
  gvDialUnix :: "string \<Rightarrow> ext_error + handle"
  gvXid :: string
  gvRecvtty :: "string \<Rightarrow> handle option"
  gvResize :: "handle \<Rightarrow> 16 word \<Rightarrow> 16 word \<Rightarrow> ext_error option"
  gvOpenFile :: "string \<Rightarrow> ext_error option"
  gvUnmarshalSpec :: "string \<Rightarrow> ext_error + proc_spec"

record server =
  srState :: guest_registry
  srIoRefs :: "64 word"
  srConsoleRefs :: "64 word"
  srLog :: "guest_effect list"

definition NewServer :: server where
  "NewServer = \<lparr>srState = NewState, srIoRefs = 0, srConsoleRefs = 0, srLog = []\<rparr>"

definition glog :: "guest_effect list \<Rightarrow> server \<Rightarrow> server" where
  "glog fx s = s\<lparr>srLog := srLog s @ fx\<rparr>"

definition io_ref :: "nat \<Rightarrow> string" where
  "io_ref n = ''io:'' @ nat_digits n"

definition console_ref :: "nat \<Rightarrow> string" where
  "console_ref n = ''console:'' @ nat_digits n"

definition NewIoReferenceId :: "server \<Rightarrow> string \<times> server" where
  "NewIoReferenceId s =
     (let n = srIoRefs s + 1 in (io_ref (unat n), s\<lparr>srIoRefs := n\<rparr>))"

definition NewConsoleReferenceId :: "server \<Rightarrow> string \<times> server" where
  "NewConsoleReferenceId s =
     (let n = srConsoleRefs s + 1 in (console_ref (unat n), s\<lparr>srConsoleRefs := n\<rparr>))"

section \<open>Sockets\<close>

datatype SocketType = VsockPort "32 word" | UnixSocketPath string | NoType

definition loadSocket :: "guest_registry \<Rightarrow> SocketType \<Rightarrow> guest_sock res" where
  "loadSocket st t =
     (case t of
        VsockPort p \<Rightarrow>
          (case GetOpenVsockConnection st p of
             None \<Rightarrow> Fail (ErrNew ''vsock port not found'') | Some c \<Rightarrow> Ok c)
      | UnixSocketPath p \<Rightarrow>
          (case GetOpenUnixConnection st p of
             None \<Rightarrow> Fail (ErrNew ''unix socket path not found'') | Some c \<Rightarrow> Ok c)
      | NoType \<Rightarrow> Fail (ErrNew ''invalid socket type''))"

definition storeSocket :: "guest_sock \<Rightarrow> guest_registry \<Rightarrow> SocketType \<times> guest_registry" where
  "storeSocket c st =
     (case c of
        VsockSock p h \<Rightarrow> (VsockPort p, StoreOpenVsockConnection p c st)
      | UnixSock p h \<Rightarrow> (UnixSocketPath p, StoreOpenUnixConnection p c st))"

definition deleteSocket :: "guest_sock \<Rightarrow> guest_registry \<Rightarrow> guest_registry" where
  "deleteSocket c st =
     (case c of
        VsockSock p h \<Rightarrow> DeleteOpenVsockConnection p st
      | UnixSock p h \<Rightarrow> DeleteOpenUnixConnection p st)"

definition DialOpenListener :: "guest_env \<Rightarrow> SocketType \<Rightarrow> server \<Rightarrow> unit res \<times> server" where
  "DialOpenListener E t s =
     (case t of
        VsockPort p \<Rightarrow>
          (case gvDialVsock E p of
             Inl e \<Rightarrow> (Fail (Wrapf ''failed to open vsock listener: '' (Ext e)), s)
           | Inr h \<Rightarrow> (Ok (), s\<lparr>srState := StoreOpenVsockConnection p (VsockSock p h) (srState s)\<rparr>))
      | UnixSocketPath p \<Rightarrow>
          (case gvDialUnix E p of
             Inl e \<Rightarrow> (Fail (Wrapf ''failed to open unix socket listener: '' (Ext e)), s)
           | Inr h \<Rightarrow> (Ok (), s\<lparr>srState := StoreOpenUnixConnection p (UnixSock p h) (srState s)\<rparr>))
      | NoType \<Rightarrow> (Fail (ErrNew ''invalid listening on''), s))"

definition CloseSocket :: "SocketType \<Rightarrow> server \<Rightarrow> unit res \<times> server" where
  "CloseSocket t s =
     (case loadSocket (srState s) t of
        Ok c \<Rightarrow> (Ok (), glog [GCloseSock c] (s\<lparr>srState := deleteSocket c (srState s)\<rparr>))
      | Fail e \<Rightarrow> (Fail e, s)
      | Panic m \<Rightarrow> (Panic m, s))"

fun CloseSockets :: "SocketType list \<Rightarrow> server \<Rightarrow> unit res \<times> server" where
  "CloseSockets [] s = (Ok (), s)"
| "CloseSockets (t # ts) s = and_then (CloseSocket t s) (\<lambda>_ s. CloseSockets ts s)"

section \<open>IOs and consoles\<close>

definition io_Close :: "guest_io \<Rightarrow> guest_effect list" where
  "io_Close io =
     (case io of
        PipeIO h \<Rightarrow> [GClosePipe h]
      | SocketIO a b c \<Rightarrow> concat (map (\<lambda>x. case x of None \<Rightarrow> [] | Some k \<Rightarrow> [GCloseSock k]) [a, b, c]))"

definition console_Close :: "guest_console \<Rightarrow> guest_effect list" where
  "console_Close c = (case c of PathConsole p \<Rightarrow> [GCloseConsole p])"

definition AllocateConsole :: "guest_env \<Rightarrow> server \<Rightarrow> string res \<times> server" where
  "AllocateConsole E s =
     (case NewConsoleReferenceId s of
        (ref, s1) \<Rightarrow>
          (Ok ref, s1\<lparr>srState := StoreOpenConsole ref
                        (PathConsole (''/tmp/runm-console-proxy.'' @ gvXid E @ ''.sock'')) (srState s1)\<rparr>))"

definition AllocateIO :: "guest_env \<Rightarrow> 32 word \<Rightarrow> 32 word \<Rightarrow> io_option \<Rightarrow> server \<Rightarrow> string res \<times> server" where
  "AllocateIO E uid gid opts s =
     (case NewIoReferenceId s of
        (ref, s1) \<Rightarrow>
          (case gvNewPipeIO E (sint uid) (sint gid) opts of
             Inl e \<Rightarrow> (Fail (Wrapf ''allocating io: '' (Ext e)), s1)
           | Inr h \<Rightarrow> (Ok ref, s1\<lparr>srState := StoreOpenIO ref (PipeIO h) (srState s1)\<rparr>)))"

definition BindConsoleToSocket :: "string \<Rightarrow> SocketType \<Rightarrow> server \<Rightarrow> unit res \<times> server" where
  "BindConsoleToSocket ref t s =
     (case GetOpenConsole (srState s) ref of
        None \<Rightarrow> (Fail (ErrNew ''cannot bind console to socket: console not found''), s)
      | Some (PathConsole p) \<Rightarrow>
          (case loadSocket (srState s) t of
             Ok c \<Rightarrow> (Ok (), glog [GBindConsole p c] s)
           | Fail e \<Rightarrow> (Fail (Wrapf ''cannot bind console to socket: socket not found: '' e), s)
           | Panic m \<Rightarrow> (Panic m, s)))"

definition load_optional :: "guest_registry \<Rightarrow> SocketType option \<Rightarrow> guest_sock option res" where
  "load_optional st t =
     (case t of None \<Rightarrow> Ok None | Some t \<Rightarrow> res_bind (loadSocket st t) (\<lambda>c. Ok (Some c)))"

definition BindIOToSockets ::
  "string \<Rightarrow> SocketType option \<Rightarrow> SocketType option \<Rightarrow> SocketType option \<Rightarrow> server \<Rightarrow> unit res \<times> server" where
  "BindIOToSockets ref ti to te s =
     (case GetOpenIO (srState s) ref of
        None \<Rightarrow> (Fail (ErrNew ''io not found''), s)
      | Some io \<Rightarrow>
          (case res_bind (load_optional (srState s) ti) (\<lambda>i.
                res_bind (load_optional (srState s) to) (\<lambda>ou.
                res_bind (load_optional (srState s) te) (\<lambda>er. Ok (SocketIO i ou er)))) of
             Ok ios \<Rightarrow> (Ok (), glog (io_Close io) (s\<lparr>srState := StoreOpenIO ref ios (srState s)\<rparr>))
           | Fail e \<Rightarrow> (Fail e, s)
           | Panic m \<Rightarrow> (Panic m, s)))"

definition CloseConsole :: "string \<Rightarrow> server \<Rightarrow> unit res \<times> server" where
  "CloseConsole ref s =
     (case GetOpenConsole (srState s) ref of
        None \<Rightarrow> (Fail (ErrNew ''console not found for reference id''), s)
      | Some c \<Rightarrow> (Ok (), glog (console_Close c) (s\<lparr>srState := DeleteOpenConsole ref (srState s)\<rparr>)))"

definition CloseIO :: "string \<Rightarrow> server \<Rightarrow> unit res \<times> server" where
  "CloseIO ref s =
     (case GetOpenIO (srState s) ref of
        None \<Rightarrow> (Ok (), s)
      | Some io \<Rightarrow> (Ok (), glog (io_Close io) (s\<lparr>srState := DeleteOpenIO ref (srState s)\<rparr>)))"

definition ResizeConsole :: "guest_env \<Rightarrow> string \<Rightarrow> 32 word \<Rightarrow> 32 word \<Rightarrow> server \<Rightarrow> unit res \<times> server" where
  "ResizeConsole E ref w h s =
     (case GetOpenConsole (srState s) ref of
        None \<Rightarrow> (Fail (ErrNew ''console not found''), s)
      | Some (PathConsole p) \<Rightarrow>
          (case gvRecvtty E p of
             None \<Rightarrow> (Fail (Wrapf ''failed to receive master console: '' (ErrNew ''console not bound'')), s)
           | Some m \<Rightarrow>
               (wrap_err ''failed to resize console: '' (of_opt (gvResize E m (ucast w) (ucast h))),
                glog [GResize m (ucast w) (ucast h)] s)))"

section \<open>Containers\<close>

definition Server_ReadPidFile :: "guest_env \<Rightarrow> string \<Rightarrow> server \<Rightarrow> 32 word res \<times> server" where
  "Server_ReadPidFile E path s =
     (case gvReadPidFile E path of
        Inl e \<Rightarrow> (Fail (Wrapf ''failed to read pid file: '' (Ext e)), s)
      | Inr pid \<Rightarrow> (Ok (word_of_int pid), s))"

definition Server_Create :: "guest_env \<Rightarrow> string \<Rightarrow> string \<Rightarrow> RuncCreateOptions \<Rightarrow> server \<Rightarrow> unit res \<times> server" where
  "Server_Create E i bundle p s =
     (case ConvertCreateOptsFromProto (gvOpenFile E) p (srState s) of
        Ok opts \<Rightarrow>
          (wrap_err ''failed to create container: '' (of_opt (gvCreate E i bundle opts)),
           glog [GCreate i bundle opts] s)
      | Fail e \<Rightarrow> (Fail (Wrapf ''failed to convert create opts: '' e), s)
      | Panic m \<Rightarrow> (Panic m, s))"

definition Server_Start :: "guest_env \<Rightarrow> string \<Rightarrow> server \<Rightarrow> unit res \<times> server" where
  "Server_Start E i s = (wrap_err ''starting container: '' (of_opt (gvStart E i)), glog [GStart i] s)"

text \<open>After a delete everything that is registered is closed; it stays registered.\<close>

definition close_all :: "guest_registry \<Rightarrow> guest_effect list" where
  "close_all st =
     syncmap_Range (\<lambda>fx _ io. (fx @ io_Close io, True)) [] (openIOs st) @
     syncmap_Range (\<lambda>fx _ c. (fx @ console_Close c, True)) [] (openConsoles st) @
     syncmap_Range (\<lambda>fx _ c. (fx @ [GCloseSock c], True)) [] (openVsockConnections st) @
     syncmap_Range (\<lambda>fx _ c. (fx @ [GCloseSock c], True)) [] (openUnixConnections st)"

definition Server_Delete :: "guest_env \<Rightarrow> string \<Rightarrow> RuncDeleteOptions \<Rightarrow> server \<Rightarrow> unit res \<times> server" where
  "Server_Delete E i p s =
     (let opts = ConvertDeleteOptsFromProto p; s1 = glog [GDelete i opts] s
      in case gvDelete E i opts of
           Some e \<Rightarrow> (Fail (Wrapf ''deleting container: '' (Ext e)), s1)
         | None \<Rightarrow> (Ok (), glog (close_all (srState s1)) s1))"

definition Server_Kill :: "guest_env \<Rightarrow> string \<Rightarrow> 32 word \<Rightarrow> RuncKillOptions \<Rightarrow> server \<Rightarrow> unit res \<times> server" where
  "Server_Kill E i sig p s =
     (let opts = ConvertKillOptsFromProto p
      in (case gvKill E i (sint sig) opts of
            None \<Rightarrow> Ok ()
          | Some e \<Rightarrow>
              if suffix ''container not running'' (ext_text e) then Ok ()
              else Fail (Wrapf ''killing container: '' (Ext e)),
          glog [GKill i (sint sig) opts] s))"

definition Server_Pause :: "guest_env \<Rightarrow> string \<Rightarrow> server \<Rightarrow> unit res \<times> server" where
  "Server_Pause E i s = (wrap_err ''pausing container: '' (of_opt (gvPause E i)), glog [GPause i] s)"

definition Server_Resume :: "guest_env \<Rightarrow> string \<Rightarrow> server \<Rightarrow> unit res \<times> server" where
  "Server_Resume E i s = (wrap_err ''resuming container: '' (of_opt (gvResume E i)), glog [GResume i] s)"

definition Server_Ps :: "guest_env \<Rightarrow> string \<Rightarrow> server \<Rightarrow> 32 word list res \<times> server" where
  "Server_Ps E i s =
     (case gvPs E i of
        Inl e \<Rightarrow> (Fail (Wrapf ''ps: '' (Ext e)), s)
      | Inr pids \<Rightarrow> (Ok (map word_of_int pids), s))"

definition Server_Exec ::
  "guest_env \<Rightarrow> string \<Rightarrow> string option \<Rightarrow> RuncExecOptions \<Rightarrow> server \<Rightarrow> unit res \<times> server" where
  "Server_Exec E i spec p s =
     (case spec of
        None \<Rightarrow> (Fail (ErrNew ''spec is required''), s)
      | Some raw \<Rightarrow>
          (case res_bind (ConvertProcessSpecFromProto (gvUnmarshalSpec E) raw) (\<lambda>sp.
                res_bind (ConvertExecOptsFromProto p (srState s)) (\<lambda>opts. Ok (sp, opts))) of
             Ok (sp, opts) \<Rightarrow> (wrap_err ''exec: '' (of_opt (gvExec E i sp opts)), glog [GExec i sp opts] s)
           | Fail e \<Rightarrow> (Fail e, s)
           | Panic m \<Rightarrow> (Panic m, s)))"

definition Server_RuncRun :: "guest_env \<Rightarrow> string \<Rightarrow> string \<Rightarrow> RuncCreateOptions \<Rightarrow> server \<Rightarrow> 32 word res \<times> server" where
  "Server_RuncRun E i bundle p s =
     (case ConvertCreateOptsFromProto (gvOpenFile E) p (srState s) of
        Ok opts \<Rightarrow>
          (case gvRun E i bundle opts of
             Inl e \<Rightarrow> Fail (Wrapf ''running container: '' (Ext e))
           | Inr st \<Rightarrow> Ok (word_of_int st),
           glog [GRun i bundle opts] s)
      | Fail e \<Rightarrow> (Fail e, s)
      | Panic m \<Rightarrow> (Panic m, s))"

definition Server_Top :: "guest_env \<Rightarrow> string \<Rightarrow> string \<Rightarrow> server \<Rightarrow> RuncTopResults res \<times> server" where
  "Server_Top E i psopts s =
     (case gvTop E i psopts of
        Inl e \<Rightarrow> (Fail (Wrapf ''getting top: '' (Ext e)), s)
      | Inr r \<Rightarrow> (Ok (ConvertTopResultsToProto r), s))"

definition Server_State :: "guest_env \<Rightarrow> string \<Rightarrow> server \<Rightarrow> RuncContainer res \<times> server" where
  "Server_State E i s =
     (case gvState E i of
        Inl e \<Rightarrow> (Fail (Wrapf ''getting state: '' (Ext e)), s)
      | Inr c \<Rightarrow> (Ok (ConvertContainerToProto c), s))"

definition Server_List :: "guest_env \<Rightarrow> server \<Rightarrow> RuncContainer list res \<times> server" where
  "Server_List E s =
     (case gvList E of
        Inl e \<Rightarrow> (Fail (Wrapf ''listing containers: '' (Ext e)), s)
      | Inr cs \<Rightarrow>
          (Ok (map (\<lambda>c. \<lparr>pcId = cnID c, pcPid = word_of_int (cnPid c), pcStatus = cnStatus c,
                         pcBundle = cnBundle c, pcRootfs = cnRootfs c,
                         pcCreatedTimestamp = word_of_int (cnCreated c), pcAnnotations = cnAnnotations c\<rparr>) cs), s))"

definition Server_Version :: "guest_env \<Rightarrow> server \<Rightarrow> (string \<times> string \<times> string) res \<times> server" where
  "Server_Version E s =
     (case gvVersion E of
        Inl e \<Rightarrow> (Fail (Wrapf ''getting version: '' (Ext e)), s)
      | Inr v \<Rightarrow> (Ok v, s))"

section \<open>The server as a system\<close>

text \<open>The requests that can change the server, and what each does.\<close>

datatype request =
    RDial SocketType
  | RAllocateConsole
  | RAllocateIO "32 word" "32 word" io_option
  | RBindConsole string SocketType
  | RBindIO string "SocketType option" "SocketType option" "SocketType option"
  | RCloseConsole string
  | RCloseIO string
  | RCloseSockets "SocketType list"
  | RResize string "32 word" "32 word"
  | RCreate string string RuncCreateOptions
  | RStart string
  | RDelete string RuncDeleteOptions
  | RKill string "32 word" RuncKillOptions
  | RPause string
  | RResume string
  | RExec string "string option" RuncExecOptions
  | RRun string string RuncCreateOptions

fun serve :: "guest_env \<Rightarrow> request \<Rightarrow> server \<Rightarrow> server" where
  "serve E (RDial t) s = snd (DialOpenListener E t s)"
| "serve E RAllocateConsole s = snd (AllocateConsole E s)"
| "serve E (RAllocateIO u g opts) s = snd (AllocateIO E u g opts s)"
| "serve E (RBindConsole r t) s = snd (BindConsoleToSocket r t s)"
| "serve E (RBindIO r i ou er) s = snd (BindIOToSockets r i ou er s)"
| "serve E (RCloseConsole r) s = snd (CloseConsole r s)"
| "serve E (RCloseIO r) s = snd (CloseIO r s)"
| "serve E (RCloseSockets ts) s = snd (CloseSockets ts s)"
| "serve E (RResize r w h) s = snd (ResizeConsole E r w h s)"
| "serve E (RCreate i b p) s = snd (Server_Create E i b p s)"
| "serve E (RStart i) s = snd (Server_Start E i s)"
| "serve E (RDelete i p) s = snd (Server_Delete E i p s)"
| "serve E (RKill i g p) s = snd (Server_Kill E i g p s)"
| "serve E (RPause i) s = snd (Server_Pause E i s)"
| "serve E (RResume i) s = snd (Server_Resume E i s)"
| "serve E (RExec i sp p) s = snd (Server_Exec E i sp p s)"
| "serve E (RRun i b p) s = snd (Server_RuncRun E i b p s)"

text \<open>The counters of reference ids have 64 bits; the executions considered end before one wraps around.\<close>

inductive server_step :: "server \<Rightarrow> server \<Rightarrow> bool" where
  "srIoRefs s \<noteq> - 1 \<Longrightarrow> srConsoleRefs s \<noteq> - 1 \<Longrightarrow> server_step s (serve E r s)"

text \<open>
  Every connection is registered under its own address, and every reference id in use has been
  given out.
\<close>

definition given :: "(nat \<Rightarrow> string) \<Rightarrow> nat \<Rightarrow> (string \<rightharpoonup> 'a) \<Rightarrow> bool" where
  "given f k m \<longleftrightarrow> (\<forall>r \<in> dom m. \<exists>n \<le> k. r = f n)"

definition server_inv :: "server \<Rightarrow> bool" where
  "server_inv s \<longleftrightarrow> registry_invar (srState s) \<and>
     (\<forall>p c. GetOpenVsockConnection (srState s) p = Some c \<longrightarrow> (\<exists>h. c = VsockSock p h)) \<and>
     (\<forall>p c. GetOpenUnixConnection (srState s) p = Some c \<longrightarrow> (\<exists>h. c = UnixSock p h)) \<and>
     given io_ref (unat (srIoRefs s)) (GetOpenIO (srState s)) \<and>
     given console_ref (unat (srConsoleRefs s)) (GetOpenConsole (srState s))"

lemma given_simps [simp]:
  "given f k Map.empty"
  "given f k m \<Longrightarrow> given f k (m(r := None))"
  "given f k m \<Longrightarrow> m r = Some x \<Longrightarrow> given f k (m(r \<mapsto> y))"
  "given f k m \<Longrightarrow> given f (Suc k) m"
  "given f k m \<Longrightarrow> given f (Suc k) (m(f (Suc k) \<mapsto> x))"
  by (auto simp: given_def dom_def intro: le_SucI)

lemma given_fresh: "given f k m \<Longrightarrow> inj f \<Longrightarrow> m (f (Suc k)) = None"
  by (auto simp: given_def dom_def inj_def) (metis Suc_n_not_le_n option.exhaust)

lemma refs_inj: "inj io_ref" "inj console_ref"
  by (auto simp: inj_def io_ref_def console_ref_def dest: nat_digits_inj)

lemma glog_fields [simp]:
  "srState (glog fx s) = srState s" "srIoRefs (glog fx s) = srIoRefs s"
  "srConsoleRefs (glog fx s) = srConsoleRefs s" "srLog (glog fx s) = srLog s @ fx"
  by (simp_all add: glog_def)

lemma glog_inv [simp]: "server_inv (glog fx s) = server_inv s"
  by (simp add: server_inv_def)

lemma unat_add1: "(w :: 'a::len word) \<noteq> - 1 \<Longrightarrow> unat (w + 1) = Suc (unat w)"
  using unatSuc [of w] by (metis add.commute add_eq_0_iff2 add.inverse_inverse)

lemma server_inv_deleteSocket:
  "server_inv s \<Longrightarrow> server_inv (s\<lparr>srState := deleteSocket c (srState s)\<rparr>)"
  by (cases c) (auto simp: server_inv_def deleteSocket_def registry_get_changed)

lemma CloseSocket_inv: "server_inv s \<Longrightarrow> server_inv (snd (CloseSocket t s))"
  by (auto simp: CloseSocket_def server_inv_deleteSocket split: res.split)

lemma CloseSockets_inv: "server_inv s \<Longrightarrow> server_inv (snd (CloseSockets ts s))"
proof (induction ts s rule: CloseSockets.induct)
  case (2 t ts s)
  then show ?case using CloseSocket_inv [of s t] by (auto simp: snd_and_then split: res.split)
qed simp

lemma serve_inv:
  assumes "server_inv s" "srIoRefs s \<noteq> - 1" "srConsoleRefs s \<noteq> - 1"
  shows "server_inv (serve E r s)"
proof (cases r)
  case (RDial t)
  with assms show ?thesis
    by (cases t) (auto simp: server_inv_def DialOpenListener_def registry_get_changed split: sum.split)
next
  case RAllocateConsole
  with assms show ?thesis
    by (auto simp: server_inv_def AllocateConsole_def NewConsoleReferenceId_def Let_def registry_get_changed unat_add1)
next
  case (RAllocateIO u g opts)
  with assms show ?thesis
    by (auto simp: server_inv_def AllocateIO_def NewIoReferenceId_def Let_def registry_get_changed unat_add1
        split: sum.split)
next
  case (RBindIO ref i ou er)
  with assms show ?thesis
    by (auto simp: BindIOToSockets_def server_inv_def registry_get_changed split: option.split res.split)
next
  case (RCloseConsole ref)
  with assms show ?thesis
    by (auto simp: CloseConsole_def server_inv_def registry_get_changed split: option.split)
next
  case (RCloseIO ref)
  with assms show ?thesis
    by (auto simp: CloseIO_def server_inv_def registry_get_changed split: option.split)
next
  case (RCloseSockets ts)
  with assms CloseSockets_inv show ?thesis by simp
qed (use assms in \<open>auto simp: BindConsoleToSocket_def ResizeConsole_def Server_Create_def Server_Start_def
      Server_Delete_def Server_Kill_def Server_Pause_def Server_Resume_def Server_Exec_def Server_RuncRun_def Let_def
      split: option.split res.split guest_console.split\<close>)

interpretation guest_server: inductive_invariant "\<lambda>s. s = NewServer" server_step server_inv
proof
  show "s = NewServer \<Longrightarrow> server_inv s" for s
    by (simp add: server_inv_def NewServer_def NewState_invar)
      (simp add: registry_defs [abs_def] NewState_def smap.load_empty)
  show "server_step s t \<Longrightarrow> server_inv s \<Longrightarrow> server_inv t" for s t
    by (induction rule: server_step.induct) (rule serve_inv)
qed

section \<open>Properties\<close>


text \<open>A guest whose runtime accepts everything.\<close>

definition guest_ok :: guest_env where
  "guest_ok = \<lparr>gvCreate = \<lambda>_ _ _. None, gvExec = \<lambda>_ _ _. None, gvRun = \<lambda>_ _ _. Inr 0, gvStart = \<lambda>_. None,
     gvDelete = \<lambda>_ _. None, gvKill = \<lambda>_ _ _. None, gvPause = \<lambda>_. None, gvResume = \<lambda>_. None, gvPs = \<lambda>_. Inr [],
     gvReadPidFile = \<lambda>_. Inr 7, gvState = \<lambda>_. Inl \<lparr>ext_text = [], ext_wraps = [], ext_is_ESRCH = False\<rparr>,
     gvList = Inr [], gvTop = \<lambda>_ _. Inr \<lparr>gtHeaders = [], gtProcesses = []\<rparr>, gvVersion = Inr ([], [], []),
     gvNewPipeIO = \<lambda>_ _ _. Inr 1, gvDialVsock = \<lambda>p. Inr 5, gvDialUnix = \<lambda>_. Inr 0, gvXid = ''x'',
     gvRecvtty = \<lambda>_. None, gvResize = \<lambda>_ _ _. None, gvOpenFile = \<lambda>_. None,
     gvUnmarshalSpec = \<lambda>_. Inr \<lparr>specTerminal = False, specArgs = []\<rparr>\<rparr>"


end

