(* ===== verification/RemoteRuntime.thy ===== *)
theory RemoteRuntime
  imports GuestServer
begin

text \<open>
  The runtime the shim uses (\<open>core/runc/runtime/grpc\<close>): a client of the server in the guest. A state
  holds both sides: the sockets, consoles and the port counter of the host, and the server of
  the guest. A remote call can be lost before the server gets it or after it has answered. The host's end of a
  stream is a vsock connection that the guest opens when it is asked to; the client goes on when the
  connection is accepted, which can be before the guest has registered its own end.
\<close>

section \<open>State\<close>

datatype host_sock = ProxyConn "32 word" handle

datatype host_io =
    HostAllocatedStdio string "host_sock option" "host_sock option" "host_sock option"
  | HostNullIo handle

datatype host_console = RemoteConsoleSocket string host_sock

type_synonym host_registry = "(host_io, host_console, host_sock, unit) reg"

record remote =
  rmServer :: server
  rmPorts :: "32 word"
  rmState :: host_registry
  rmPending :: "(32 word \<times> handle) list"
  rmClosed :: "handle list"

datatype rpc =
    MDial "32 word" | MAllocateIO | MAllocateConsole | MBindIO | MBindConsole | MCloseIO string
  | MCloseConsole string | MResize | MCreate | MStart | MDelete | MKill | MPause | MResume | MPs | MExec
  | MReadPidFile | MCheckpoint | MTop | MVersion

datatype fate = Delivered | RequestLost ext_error | ReplyLost ext_error

fun request_lost :: "fate \<Rightarrow> bool" where
  "request_lost (RequestLost e) \<longleftrightarrow> True"
| "request_lost _ \<longleftrightarrow> False"

datatype accept = Accepted handle | AcceptFailed ext_error | NotAccepted ext_error

record remote_env =
  reGuest :: guest_env
  reFate :: "rpc \<Rightarrow> fate"
  reStatus :: "go_error \<Rightarrow> ext_error"
  reListen :: "32 word \<Rightarrow> ext_error option"
  reAccept :: "32 word \<Rightarrow> accept"
  reLate :: "32 word \<Rightarrow> bool"
  reNullIO :: "ext_error + handle"
  reMarshalSpec :: "proc_spec \<Rightarrow> ext_error + string"

definition NewGRPCClientRuntimeFromConn :: "server \<Rightarrow> remote" where
  "NewGRPCClientRuntimeFromConn s =
     \<lparr>rmServer = s, rmPorts = 0, rmState = NewState, rmPending = [], rmClosed = []\<rparr>"

text \<open>A call: an error of the server arrives as the status made of it.\<close>

definition call :: "remote_env \<Rightarrow> rpc \<Rightarrow> (server \<Rightarrow> 'a res \<times> server) \<Rightarrow> remote \<Rightarrow> 'a res \<times> remote" where
  "call R m handler r =
     (case reFate R m of
        RequestLost e \<Rightarrow> (Fail (Ext e), r)
      | ReplyLost e \<Rightarrow> (Fail (Ext e), r\<lparr>rmServer := snd (handler (rmServer r))\<rparr>)
      | Delivered \<Rightarrow>
          (case handler (rmServer r) of
             (Ok x, s) \<Rightarrow> (Ok x, r\<lparr>rmServer := s\<rparr>)
           | (Fail e, s) \<Rightarrow> (Fail (Ext (reStatus R e)), r\<lparr>rmServer := s\<rparr>)
           | (Panic t, s) \<Rightarrow> (Fail (Ext (reStatus R (ErrNew t))), r\<lparr>rmServer := s\<rparr>)))"

section \<open>Sockets\<close>

definition vsockDialer :: "remote_env \<Rightarrow> 32 word \<Rightarrow> remote \<Rightarrow> unit res \<times> remote" where
  "vsockDialer R port r = call R (MDial port) (DialOpenListener (reGuest R) (VsockPort port)) r"

text \<open>
  \<open>ListenAndAcceptSingleNetConn\<close> with the dialer: when the connection is accepted early, the guest has
  dialled and has still to register the connection.
\<close>

definition listenToVsockWithDialerCallback :: "remote_env \<Rightarrow> 32 word \<Rightarrow> remote \<Rightarrow> handle res \<times> remote" where
  "listenToVsockWithDialerCallback R port r =
     wrapping ''listening and accepting vsock connection: ''
       (wrapping ''listening and accepting vsock connection: ''
         (case reListen R port of
            Some e \<Rightarrow> (Fail (Wrapf ''creating listener: '' (Ext e)), r)
          | None \<Rightarrow>
              (case vsockDialer R port r of
                 (d, r1) \<Rightarrow>
                   (case reAccept R port of
                      Accepted h \<Rightarrow>
                        (case gvDialVsock (reGuest R) port of
                           Inr k \<Rightarrow>
                             if reLate R port \<and> \<not> request_lost (reFate R (MDial port))
                             then (Ok h, r\<lparr>rmPending := rmPending r @ [(port, k)]\<rparr>) else (Ok h, r1)
                         | Inl _ \<Rightarrow> (Ok h, r1))
                    | AcceptFailed e \<Rightarrow>
                        (Fail (Wrapf ''waiting for connection: '' (Wrapf ''accepting connection: '' (Ext e))), r1)
                    | NotAccepted e \<Rightarrow>
                        (case d of
                           Fail de \<Rightarrow>
                             (Fail (Wrapf ''waiting for connection: '' (Wrapf ''dialing connection: '' de)), r1)
                         | _ \<Rightarrow> (Fail (Ext e), r1))))))"

text \<open>The guest registers the connections it has still to register.\<close>

definition settle :: "remote \<Rightarrow> remote" where
  "settle r =
     r\<lparr>rmServer := (rmServer r)\<lparr>srState :=
         foldl (\<lambda>st (p, h). StoreOpenVsockConnection p (VsockSock p h) st) (srState (rmServer r)) (rmPending r)\<rparr>,
       rmPending := []\<rparr>"

definition allocateVsockSocket :: "remote_env \<Rightarrow> remote \<Rightarrow> host_sock res \<times> remote" where
  "allocateVsockSocket R r =
     (let n = rmPorts r + 1; port = n + 3300
      in and_then (wrapping ''listening to vsock: '' (listenToVsockWithDialerCallback R port (r\<lparr>rmPorts := n\<rparr>)))
           (\<lambda>h r. (Ok (ProxyConn port h), r)))"

fun allocate_sockets :: "remote_env \<Rightarrow> nat \<Rightarrow> remote \<Rightarrow> host_sock list res \<times> remote" where
  "allocate_sockets R 0 r = (Ok [], r)"
| "allocate_sockets R (Suc n) r =
     and_then (wrapping ''allocating vsock socket: '' (allocateVsockSocket R r))
       (\<lambda>c r. and_then (allocate_sockets R n r) (\<lambda>cs r. (Ok (c # cs), r)))"

fun sock_port :: "host_sock \<Rightarrow> 32 word" where
  "sock_port (ProxyConn p h) = p"

fun sock_handle :: "host_sock \<Rightarrow> handle" where
  "sock_handle (ProxyConn p h) = h"

section \<open>IOs and consoles\<close>

text \<open>The sockets of the streams that are open: stdin takes the first, then stdout, then stderr.\<close>

definition assign_streams :: "io_option \<Rightarrow> 'a list \<Rightarrow> 'a option \<times> 'a option \<times> 'a option" where
  "assign_streams opts refs =
     (let n1 = (if OpenStdin opts then 1 else 0);
          n2 = n1 + (if OpenStdout opts then 1 else 0)
      in (if OpenStdin opts then Some (refs ! 0) else None,
          if OpenStdout opts then Some (refs ! n1) else None,
          if OpenStderr opts then Some (refs ! n2) else None))"

definition stream_count :: "io_option \<Rightarrow> nat" where
  "stream_count opts = of_bool (OpenStderr opts) + of_bool (OpenStdout opts) + of_bool (OpenStdin opts)"

definition Client_NewPipeIO :: "remote_env \<Rightarrow> int \<Rightarrow> int \<Rightarrow> io_option \<Rightarrow> remote \<Rightarrow> host_io res \<times> remote" where
  "Client_NewPipeIO R uid gid opts r =
     (if stream_count opts = 0 then (Fail (ErrNew ''no sockets to allocate''), r)
      else
        and_then (allocate_sockets R (stream_count opts) r) (\<lambda>cs r.
        and_then (wrapping ''allocating IO: ''
            (call R MAllocateIO (AllocateIO (reGuest R) (word_of_int uid) (word_of_int gid) opts) r)) (\<lambda>ref r.
          (let allocated = map_of (rev (map (\<lambda>c. (sock_port c, c)) cs))
           in case assign_streams opts (map sock_port cs) of
                (i, ou, er) \<Rightarrow>
                  and_then (wrapping ''binding IO to sockets: ''
                      (call R MBindIO (BindIOToSockets ref (map_option VsockPort i) (map_option VsockPort ou)
                         (map_option VsockPort er)) r)) (\<lambda>_ r.
                    (Ok (HostAllocatedStdio ref (Option.bind i allocated) (Option.bind ou allocated)
                           (Option.bind er allocated)), r))))))"

definition Client_NewNullIO :: "remote_env \<Rightarrow> remote \<Rightarrow> host_io res \<times> remote" where
  "Client_NewNullIO R r = (case reNullIO R of Inl e \<Rightarrow> (Fail (Ext e), r) | Inr h \<Rightarrow> (Ok (HostNullIo h), r))"

definition Client_NewTempConsoleSocket :: "remote_env \<Rightarrow> remote \<Rightarrow> host_console res \<times> remote" where
  "Client_NewTempConsoleSocket R r =
     and_then (wrapping ''allocating vsock socket: '' (allocateVsockSocket R r)) (\<lambda>c r.
     and_then (wrapping ''creating temp console socket: '' (call R MAllocateConsole (AllocateConsole (reGuest R)) r)) (\<lambda>ref r.
     and_then (wrapping ''binding console to socket: ''
         (call R MBindConsole (BindConsoleToSocket ref (VsockPort (sock_port c))) r)) (\<lambda>_ r.
       (let con = RemoteConsoleSocket ref c
        in (Ok con,
            r\<lparr>rmState := StoreOpenVsockConnection (sock_port c) c (StoreOpenConsole ref con (rmState r))\<rparr>)))))"

text \<open>Closing an IO or a console of the host also closes what it refers to in the guest.\<close>

definition close_socks :: "host_sock option list \<Rightarrow> remote \<Rightarrow> remote" where
  "close_socks cs r =
     r\<lparr>rmClosed := rmClosed r @ concat (map (\<lambda>c. case c of None \<Rightarrow> [] | Some k \<Rightarrow> [sock_handle k]) cs)\<rparr>"

definition HostIO_Close :: "remote_env \<Rightarrow> host_io \<Rightarrow> remote \<Rightarrow> remote" where
  "HostIO_Close R io r =
     (case io of
        HostAllocatedStdio ref a b c \<Rightarrow> snd (call R (MCloseIO ref) (CloseIO ref) (close_socks [a, b, c] r))
      | HostNullIo h \<Rightarrow> r\<lparr>rmClosed := rmClosed r @ [h]\<rparr>)"

definition HostConsole_Close :: "remote_env \<Rightarrow> host_console \<Rightarrow> remote \<Rightarrow> remote" where
  "HostConsole_Close R con r =
     (case con of
        RemoteConsoleSocket ref c \<Rightarrow> snd (call R (MCloseConsole ref) (CloseConsole ref) (close_socks [Some c] r)))"

definition Client_resizeFunc :: "remote_env \<Rightarrow> string \<Rightarrow> 16 word \<Rightarrow> 16 word \<Rightarrow> remote \<Rightarrow> unit res \<times> remote" where
  "Client_resizeFunc R ref w h r =
     wrapping ''resizing console: '' (call R MResize (ResizeConsole (reGuest R) ref (ucast w) (ucast h)) r)"

definition Client_Close :: "remote_env \<Rightarrow> remote \<Rightarrow> unit res \<times> remote" where
  "Client_Close R r =
     (let r1 = syncmap_Range (\<lambda>r _ io. (HostIO_Close R io r, True)) r (openIOs (rmState r));
          r2 = syncmap_Range (\<lambda>r _ con. (HostConsole_Close R con r, True)) r1 (openConsoles (rmState r));
          r3 = syncmap_Range (\<lambda>r _ c. (close_socks [Some c] r, True)) r2 (openVsockConnections (rmState r))
      in (Ok (), r3))"

section \<open>Containers\<close>

definition io_iface :: "host_io \<Rightarrow> iface" where
  "io_iface io =
     (case io of HostAllocatedStdio ref a b c \<Rightarrow> Referable ref | HostNullIo h \<Rightarrow> NotReferable ''*runtime.HostNullIo'')"

definition console_iface :: "host_console \<Rightarrow> iface" where
  "console_iface con = (case con of RemoteConsoleSocket ref c \<Rightarrow> Referable ref)"

definition create_ifaces :: "(host_io, host_console) CreateOpts \<Rightarrow> (iface, iface) CreateOpts" where
  "create_ifaces opts =
     \<lparr>gcPidFile = gcPidFile opts, gcIO = map_option io_iface (gcIO opts), gcNoPivot = gcNoPivot opts,
      gcNoNewKeyring = gcNoNewKeyring opts, gcConsoleSocket = map_option console_iface (gcConsoleSocket opts),
      gcDetach = gcDetach opts, gcExtraFiles = gcExtraFiles opts, gcStarted = gcStarted opts\<rparr>"

definition exec_ifaces :: "(host_io, host_console) ExecOpts \<Rightarrow> (iface, iface) ExecOpts" where
  "exec_ifaces opts =
     \<lparr>gxPidFile = gxPidFile opts, gxIO = map_option io_iface (gxIO opts), gxDetach = gxDetach opts,
      gxConsoleSocket = map_option console_iface (gxConsoleSocket opts), gxExtraArgs = gxExtraArgs opts\<rparr>"

definition Client_Create ::
  "remote_env \<Rightarrow> string \<Rightarrow> string \<Rightarrow> (host_io, host_console) CreateOpts \<Rightarrow> remote \<Rightarrow> unit res \<times> remote" where
  "Client_Create R i bundle opts r =
     and_then (wrapping ''converting create opts to proto: '' (ConvertCreateOptsToProto (create_ifaces opts), r))
       (\<lambda>p r. wrapping ''creating container: '' (call R MCreate (Server_Create (reGuest R) i bundle p) r))"

definition Client_Start :: "remote_env \<Rightarrow> string \<Rightarrow> remote \<Rightarrow> unit res \<times> remote" where
  "Client_Start R i r = wrapping ''starting container: '' (call R MStart (Server_Start (reGuest R) i) r)"

definition Client_Delete :: "remote_env \<Rightarrow> string \<Rightarrow> DeleteOpts \<Rightarrow> remote \<Rightarrow> unit res \<times> remote" where
  "Client_Delete R i opts r =
     wrapping ''deleting container: ''
       (call R MDelete (Server_Delete (reGuest R) i (ConvertDeleteOptsToProto opts)) r)"

definition Client_Kill :: "remote_env \<Rightarrow> string \<Rightarrow> int \<Rightarrow> KillOpts \<Rightarrow> remote \<Rightarrow> unit res \<times> remote" where
  "Client_Kill R i sig opts r =
     (case call R MKill (Server_Kill (reGuest R) i (word_of_int sig) (ConvertKillOptsToProto opts)) r of
        (Fail (Ext e), r1) \<Rightarrow>
          if str_contains (ext_text e) ''failed to write client preface'' then (Ok (), r1)
          else (Fail (Wrapf ''killing container: '' (Ext e)), r1)
      | x \<Rightarrow> x)"

definition Client_Pause :: "remote_env \<Rightarrow> string \<Rightarrow> remote \<Rightarrow> unit res \<times> remote" where
  "Client_Pause R i r = wrapping ''pausing container: '' (call R MPause (Server_Pause (reGuest R) i) r)"

definition Client_Resume :: "remote_env \<Rightarrow> string \<Rightarrow> remote \<Rightarrow> unit res \<times> remote" where
  "Client_Resume R i r = wrapping ''resuming container: '' (call R MResume (Server_Resume (reGuest R) i) r)"

definition Client_Ps :: "remote_env \<Rightarrow> string \<Rightarrow> remote \<Rightarrow> int list res \<times> remote" where
  "Client_Ps R i r =
     and_then (wrapping ''ps: '' (call R MPs (Server_Ps (reGuest R) i) r)) (\<lambda>pids r. (Ok (map sint pids), r))"

definition Client_ReadPidFile :: "remote_env \<Rightarrow> string \<Rightarrow> remote \<Rightarrow> int res \<times> remote" where
  "Client_ReadPidFile R path r =
     and_then (wrapping ''reading pid file: '' (call R MReadPidFile (Server_ReadPidFile (reGuest R) path) r))
       (\<lambda>pid r. (Ok (sint pid), r))"

definition Client_Exec ::
  "remote_env \<Rightarrow> string \<Rightarrow> proc_spec \<Rightarrow> (host_io, host_console) ExecOpts \<Rightarrow> remote \<Rightarrow> unit res \<times> remote" where
  "Client_Exec R i spec opts r =
     and_then (wrapping ''converting process spec to proto: '' (ConvertProcessSpecToProto (reMarshalSpec R) spec, r))
       (\<lambda>raw r.
     and_then (wrapping ''converting exec opts to proto: '' (ConvertExecOptsToProto (exec_ifaces opts), r))
       (\<lambda>p r. wrapping ''exec: '' (call R MExec (Server_Exec (reGuest R) i (Some raw) p) r)))"

text \<open>The guest does not implement checkpoints; the client panics on what it does not implement.\<close>

definition Client_Checkpoint :: "remote_env \<Rightarrow> string \<Rightarrow> CheckpointOpts \<Rightarrow> remote \<Rightarrow> unit res \<times> remote" where
  "Client_Checkpoint R i opts r =
     and_then (ConvertCheckpointOptsToProto opts, r)
       (\<lambda>p r. wrapping ''checkpoint: '' (call R MCheckpoint (\<lambda>s. (Fail (ErrNew ''not implemented''), s)) r))"

definition Client_Restore :: "remote \<Rightarrow> int res \<times> remote" where
  "Client_Restore r = (Panic ''not implemented'', r)"

definition Client_Update :: "remote \<Rightarrow> unit res \<times> remote" where
  "Client_Update r = (Panic ''unimplemented'', r)"

definition Client_Top :: "remote_env \<Rightarrow> string \<Rightarrow> string \<Rightarrow> remote \<Rightarrow> TopResults res \<times> remote" where
  "Client_Top R i psopts r =
     and_then (wrapping ''getting top: '' (call R MTop (Server_Top (reGuest R) i psopts) r))
       (\<lambda>t r. (Ok (ConvertTopResultsFromProto t), r))"

definition Client_Version :: "remote_env \<Rightarrow> remote \<Rightarrow> (string \<times> string \<times> string) res \<times> remote" where
  "Client_Version R r = wrapping ''getting version: '' (call R MVersion (Server_Version (reGuest R)) r)"

section \<open>Lemmas\<close>

lemma call_OkE:
  assumes "call R m h r = (Ok x, r')"
  obtains s where "reFate R m = Delivered" "h (rmServer r) = (Ok x, s)" "r' = r\<lparr>rmServer := s\<rparr>"
  using assms by (auto simp: call_def split: fate.splits prod.splits res.splits)

lemma call_Delivered:
  "reFate R m = Delivered \<Longrightarrow> h (rmServer r) = (Ok x, s) \<Longrightarrow> call R m h r = (Ok x, r\<lparr>rmServer := s\<rparr>)"
  "reFate R m = Delivered \<Longrightarrow> h (rmServer r) = (Fail e, s) \<Longrightarrow>
     call R m h r = (Fail (Ext (reStatus R e)), r\<lparr>rmServer := s\<rparr>)"
  by (simp_all add: call_def)

lemma call_not_panic: "\<not> is_panic (fst (call R m h r))"
  by (simp add: call_def split: fate.splits prod.splits res.splits)

lemma and_then_OkD:
  "and_then x k = (Ok v, s) \<Longrightarrow> \<exists>u t. x = (Ok u, t) \<and> k u t = (Ok v, s)"
  by (cases x; cases "fst x") auto

lemma wrapping_OkD: "wrapping p x = (Ok v, s) \<Longrightarrow> x = (Ok v, s)"
  by (cases x) auto

subsection \<open>Allocating sockets\<close>

text \<open>What allocating sockets keeps of the server: its invariant, its counters, its IOs and its log.\<close>

definition keeps_server :: "server \<Rightarrow> server \<Rightarrow> bool" where
  "keeps_server s s' \<longleftrightarrow> (server_inv s \<longrightarrow> server_inv s') \<and> srIoRefs s' = srIoRefs s \<and>
     srConsoleRefs s' = srConsoleRefs s \<and> srLog s' = srLog s \<and>
     GetOpenIO (srState s') = GetOpenIO (srState s) \<and> GetOpenConsole (srState s') = GetOpenConsole (srState s)"

lemma keeps_server_refl [simp]: "keeps_server s s"
  by (simp add: keeps_server_def)

lemma keeps_server_trans: "keeps_server s t \<Longrightarrow> keeps_server t u \<Longrightarrow> keeps_server s u"
  by (simp add: keeps_server_def)

lemma Dial_keeps: "keeps_server s (snd (DialOpenListener E (VsockPort p) s))"
  by (auto simp: keeps_server_def DialOpenListener_def server_inv_def registry_get_changed split: sum.split)

lemma vsockDialer_keeps:
  "vsockDialer R p r = (x, r') \<Longrightarrow> keeps_server (rmServer r) (rmServer r') \<and> rmPorts r' = rmPorts r"
  using Dial_keeps [of "rmServer r" "reGuest R" p]
  by (auto simp: vsockDialer_def call_def split: fate.splits prod.splits res.splits)

lemma allocateVsockSocket_keeps:
  assumes "allocateVsockSocket R r = (Ok c, r')"
  shows "keeps_server (rmServer r) (rmServer r') \<and> rmPorts r' = rmPorts r + 1 \<and> sock_port c = rmPorts r + 1 + 3300"
proof -
  let ?r1 = "r\<lparr>rmPorts := rmPorts r + 1\<rparr>"
  let ?p = "rmPorts r + 1 + 3300"
  obtain h where l: "listenToVsockWithDialerCallback R ?p ?r1 = (Ok h, r')" and c: "c = ProxyConn ?p h"
    using assms by (auto simp: allocateVsockSocket_def Let_def dest!: and_then_OkD wrapping_OkD)
  obtain d r2 where d: "vsockDialer R ?p ?r1 = (d, r2)" by fastforce
  from l have "r' = r2 \<or> (\<exists>k. r' = ?r1\<lparr>rmPending := rmPending r @ [(?p, k)]\<rparr>)"
    unfolding listenToVsockWithDialerCallback_def d
    by (auto dest!: wrapping_OkD split: option.splits accept.splits sum.splits if_splits res.splits)
  with vsockDialer_keeps [OF d] c show ?thesis by auto
qed

lemma allocate_sockets_keeps:
  "allocate_sockets R n r = (Ok cs, r') \<Longrightarrow>
   keeps_server (rmServer r) (rmServer r') \<and> rmPorts r' = rmPorts r + of_nat n \<and>
   map sock_port cs = map (\<lambda>k. rmPorts r + of_nat k + 1 + 3300) [0..<n]"
proof (induction n arbitrary: r cs)
  case (Suc n)
  then obtain c ds r1 where c: "allocateVsockSocket R r = (Ok c, r1)"
      and ds: "allocate_sockets R n r1 = (Ok ds, r')" "cs = c # ds"
    by (auto dest!: and_then_OkD wrapping_OkD)
  have "map (\<lambda>k. rmPorts r1 + of_nat k + 1 + 3300) [0..<n] =
      map (\<lambda>k. rmPorts r + of_nat k + 1 + 3300) [1..<Suc n]"
    using allocateVsockSocket_keeps [OF c] by (auto simp: map_Suc_upt [symmetric] simp del: upt_Suc)
  then show ?case
    using allocateVsockSocket_keeps [OF c] Suc.IH [OF ds(1)] ds(2) keeps_server_trans
    by (auto simp: upt_rec [of 0] simp del: upt_Suc)
qed simp

lemma ports_distinct:
  assumes "n \<le> 2 ^ 32"
  shows "distinct (map (\<lambda>k. (c :: 32 word) + of_nat k + 1 + 3300) [0..<n])"
proof -
  have "inj_on (\<lambda>k. (of_nat k :: 32 word)) {0..<n}"
    using assms by (intro inj_onI) (auto simp: of_nat_inverse word_of_nat_eq_iff take_bit_nat_eq_self)
  then show ?thesis by (auto simp: distinct_map inj_on_def)
qed

subsection \<open>Streams\<close>

definition some_list :: "'a option list \<Rightarrow> 'a list" where
  "some_list os = concat (map (\<lambda>x. case x of None \<Rightarrow> [] | Some y \<Rightarrow> [y]) os)"

lemma stream_count_le: "stream_count opts \<le> 3"
  by (simp add: stream_count_def)

lemma assign_streams_all:
  assumes "length xs = stream_count opts" "assign_streams opts xs = (i, ou, er)"
  shows "some_list [i, ou, er] = xs" "(i \<noteq> None) = OpenStdin opts" "(ou \<noteq> None) = OpenStdout opts"
    "(er \<noteq> None) = OpenStderr opts"
  using assms
  by (auto simp: assign_streams_def stream_count_def some_list_def Let_def length_Suc_conv numeral_2_eq_2
      numeral_3_eq_3 split: if_splits)

lemma assign_streams_map:
  assumes "length xs = stream_count opts" "assign_streams opts xs = (i, ou, er)"
  shows "assign_streams opts (map f xs) = (map_option f i, map_option f ou, map_option f er)"
  using assms by (auto simp: assign_streams_def stream_count_def Let_def split: if_splits)

lemma map_of_rev_key:
  "distinct (map f xs) \<Longrightarrow> x \<in> set xs \<Longrightarrow> map_of (rev (map (\<lambda>c. (f c, c)) xs)) (f x) = Some x"
  by (rule map_of_is_SomeI) (auto simp: rev_map o_def distinct_map)

text \<open>The two ends of a stream: both absent, or connections on the same port.\<close>

fun wired :: "host_sock option \<Rightarrow> guest_sock option \<Rightarrow> bool" where
  "wired None None \<longleftrightarrow> True"
| "wired (Some (ProxyConn p h)) (Some (VsockSock q k)) \<longleftrightarrow> p = q"
| "wired _ _ \<longleftrightarrow> False"

lemma load_optional_wired:
  assumes "server_inv s" "load_optional (srState s) (map_option VsockPort (map_option sock_port c)) = Ok g"
  shows "wired c g"
proof (cases c)
  case (Some k)
  obtain p h where k: "k = ProxyConn p h" by (cases k)
  obtain x where x: "GetOpenVsockConnection (srState s) p = Some x" "g = Some x"
    using assms(2) Some k by (auto simp: load_optional_def loadSocket_def res_bind_Ok split: option.splits)
  then obtain j where "x = VsockSock p j" using assms(1) by (auto simp: server_inv_def)
  with Some k x show ?thesis by simp
qed (use assms in \<open>simp add: load_optional_def\<close>)

lemma AllocateIO_fresh:
  assumes "AllocateIO E u g opts s = (Ok ref, s')" "server_inv s" "srIoRefs s \<noteq> - 1" "srConsoleRefs s \<noteq> - 1"
  shows "server_inv s' \<and> GetOpenIO (srState s) ref = None \<and> (\<exists>h. GetOpenIO (srState s') = (GetOpenIO (srState s))(ref \<mapsto> PipeIO h)) \<and>
    GetOpenVsockConnection (srState s') = GetOpenVsockConnection (srState s) \<and> srLog s' = srLog s"
proof -
  have "server_inv s'" using serve_inv [OF assms(2-4), of E "RAllocateIO u g opts"] assms(1) by simp
  moreover have "GetOpenIO (srState s) (io_ref (Suc (unat (srIoRefs s)))) = None"
    using assms(2) by (intro given_fresh refs_inj(1)) (simp add: server_inv_def)
  ultimately show ?thesis
    using assms by (auto simp: AllocateIO_def NewIoReferenceId_def Let_def unat_add1 server_inv_def registry_get_changed
        split: sum.splits)
qed

lemma pipe_wiring:
  assumes "Client_NewPipeIO R uid gid opts r = (Ok io, r')" "server_inv (rmServer r)"
    and "srIoRefs (rmServer r) \<noteq> - 1" "srConsoleRefs (rmServer r) \<noteq> - 1"
  shows "\<exists>ref a b c ga gb gc. io = HostAllocatedStdio ref a b c \<and>
    GetOpenIO (srState (rmServer r)) ref = None \<and>
    GetOpenIO (srState (rmServer r')) ref = Some (SocketIO ga gb gc) \<and>
    wired a ga \<and> wired b gb \<and> wired c gc \<and>
    (a \<noteq> None) = OpenStdin opts \<and> (b \<noteq> None) = OpenStdout opts \<and> (c \<noteq> None) = OpenStderr opts \<and>
    distinct (map sock_port (some_list [a, b, c]))"
proof -
  let ?al = "\<lambda>cs. map_of (rev (map (\<lambda>c. (sock_port c, c)) cs))"
  obtain cs r1 ref r2 where cs: "allocate_sockets R (stream_count opts) r = (Ok cs, r1)"
    and al: "call R MAllocateIO (AllocateIO (reGuest R) (word_of_int uid) (word_of_int gid) opts) r1 = (Ok ref, r2)"
    and rest: "(case assign_streams opts (map sock_port cs) of
        (i, ou, er) \<Rightarrow> and_then (wrapping ''binding IO to sockets: ''
            (call R MBindIO (BindIOToSockets ref (map_option VsockPort i) (map_option VsockPort ou)
               (map_option VsockPort er)) r2)) (\<lambda>_ r. (Ok (HostAllocatedStdio ref (Option.bind i (?al cs))
                 (Option.bind ou (?al cs)) (Option.bind er (?al cs))), r))) = (Ok io, r')"
    using assms(1) unfolding Client_NewPipeIO_def Let_def
    by (auto split: if_splits dest!: and_then_OkD wrapping_OkD)
  note keeps = allocate_sockets_keeps [OF cs]
  have len: "length cs = stream_count opts" using arg_cong [where f = length, OF keeps [THEN conjunct2, THEN conjunct2]] by simp
  obtain a b c where abc: "assign_streams opts cs = (a, b, c)" by (metis prod_cases3)
  have dist: "distinct (map sock_port cs)"
    using keeps ports_distinct [of "stream_count opts" "rmPorts r"] stream_count_le [of opts] by simp
  note all = assign_streams_all [OF len abc]
  have found: "Option.bind (map_option sock_port x) (?al cs) = x" if "x \<in> {a, b, c}" for x
    using that all(1) map_of_rev_key [OF dist] by (cases x) (auto simp: some_list_def split: option.splits)
  obtain s1 where s1: "AllocateIO (reGuest R) (word_of_int uid) (word_of_int gid) opts (rmServer r1) = (Ok ref, s1)"
      and r2: "r2 = r1\<lparr>rmServer := s1\<rparr>"
    using al by (rule call_OkE)
  have fresh: "server_inv s1" "GetOpenIO (srState (rmServer r)) ref = None"
    using AllocateIO_fresh [OF s1] keeps assms(2-4) by (auto simp: keeps_server_def)
  obtain s2 where s2: "BindIOToSockets ref (map_option VsockPort (map_option sock_port a))
      (map_option VsockPort (map_option sock_port b)) (map_option VsockPort (map_option sock_port c)) s1 = (Ok (), s2)"
      and io: "io = HostAllocatedStdio ref a b c" "r' = r2\<lparr>rmServer := s2\<rparr>"
    using rest found r2 unfolding assign_streams_map [OF len abc]
    by (auto dest!: and_then_OkD wrapping_OkD elim!: call_OkE)
  obtain ga gb gc where g: "load_optional (srState s1) (map_option VsockPort (map_option sock_port a)) = Ok ga"
      "load_optional (srState s1) (map_option VsockPort (map_option sock_port b)) = Ok gb"
      "load_optional (srState s1) (map_option VsockPort (map_option sock_port c)) = Ok gc"
      and "GetOpenIO (srState s2) ref = Some (SocketIO ga gb gc)"
    using s2 fresh(1) by (auto simp: BindIOToSockets_def res_bind_Ok server_inv_def registry_get_changed
        split: option.splits res.splits)
  then show ?thesis
    using io fresh all dist load_optional_wired [OF fresh(1) g(1)] load_optional_wired [OF fresh(1) g(2)]
      load_optional_wired [OF fresh(1) g(3)] by auto
qed

lemma pipe_reference:
  assumes "Client_NewPipeIO R uid gid opts r = (Ok (HostAllocatedStdio ref a b c), r')"
  shows "ref \<noteq> []"
proof -
  obtain r1 r2 where "call R MAllocateIO (AllocateIO (reGuest R) (word_of_int uid) (word_of_int gid) opts) r1 = (Ok ref, r2)"
    using assms unfolding Client_NewPipeIO_def Let_def
    by (auto split: if_splits prod.splits dest!: and_then_OkD wrapping_OkD)
  then show ?thesis
    by (auto simp: AllocateIO_def NewIoReferenceId_def Let_def io_ref_def elim!: call_OkE split: sum.splits)
qed

section \<open>Calls of the guest's runtime\<close>

text \<open>A delivered call of the guest's runtime with the outcome \<open>e\<close>: one entry in the log, and the error as a status.\<close>

definition delivered ::
  "remote_env \<Rightarrow> string \<Rightarrow> string \<Rightarrow> guest_effect \<Rightarrow> ext_error option \<Rightarrow> remote \<Rightarrow> unit res \<times> remote" where
  "delivered R outer inner fx e r =
     (case e of None \<Rightarrow> Ok () | Some x \<Rightarrow> Fail (Wrapf outer (Ext (reStatus R (Wrapf inner (Ext x))))),
      r\<lparr>rmServer := glog [fx] (rmServer r)\<rparr>)"

lemma delivered_ok: "is_ok (fst (delivered R a b fx e r)) \<longleftrightarrow> e = None"
  by (cases e) (simp_all add: delivered_def)

lemma delivered_server [simp]: "rmServer (snd (delivered R a b fx e r)) = glog [fx] (rmServer r)"
  by (simp add: delivered_def)

lemma call_of_opt:
  assumes "reFate R m = Delivered"
  shows "wrapping a (call R m (\<lambda>s. (wrap_err b (of_opt e), glog [fx] s)) r) = delivered R a b fx e r"
  using assms by (cases e) (simp_all add: call_def delivered_def)

lemma Client_Create_delivered:
  assumes "reFate R MCreate = Delivered" "gcExtraFiles opts = []"
    and "guest_create_opts (srState (rmServer r)) (create_ifaces opts) = Ok g"
  shows "Client_Create R i bundle opts r =
    delivered R ''creating container: '' ''failed to create container: '' (GCreate i bundle g)
      (gvCreate (reGuest R) i bundle g) r"
proof -
  have nf: "gcExtraFiles (create_ifaces opts) = []" using assms(2) by (simp add: create_ifaces_def)
  obtain p where p: "ConvertCreateOptsToProto (create_ifaces opts) = Ok p"
    using assms(3) nf
    by (auto simp: guest_create_opts_def guest_of_def res_bind_Ok ConvertCreateOptsToProto_def)
  have g: "ConvertCreateOptsFromProto (gvOpenFile (reGuest R)) p (srState (rmServer r)) = Ok g"
    using assms(3) by (simp add: create_opts_to_guest(2) [OF nf p])
  show ?thesis
    using assms(1) g by (cases "gvCreate (reGuest R) i bundle g")
      (simp_all add: Client_Create_def p call_def Server_Create_def delivered_def)
qed

lemma Client_Exec_delivered:
  assumes "reFate R MExec = Delivered" "reMarshalSpec R spec = Inr raw" "gvUnmarshalSpec (reGuest R) raw = Inr spec"
    and "guest_exec_opts (srState (rmServer r)) (exec_ifaces opts) = Ok g"
  shows "Client_Exec R i spec opts r =
    delivered R ''exec: '' ''exec: '' (GExec i spec g) (gvExec (reGuest R) i spec g) r"
proof -
  obtain p where p: "ConvertExecOptsToProto (exec_ifaces opts) = Ok p"
    using assms(4) by (auto simp: guest_exec_opts_def guest_of_def res_bind_Ok ConvertExecOptsToProto_def)
  have "ConvertExecOptsFromProto p (srState (rmServer r)) = Ok g"
    using assms(4) by (simp add: exec_opts_to_guest [OF p])
  then show ?thesis
    using assms(1-3) by (cases "gvExec (reGuest R) i spec g")
      (simp_all add: Client_Exec_def p call_def Server_Exec_def delivered_def ConvertProcessSpecToProto_def
        ConvertProcessSpecFromProto_def)
qed

lemma Client_simple_delivered:
  "reFate R MStart = Delivered \<Longrightarrow>
     Client_Start R i r = delivered R ''starting container: '' ''starting container: '' (GStart i) (gvStart (reGuest R) i) r"
  "reFate R MPause = Delivered \<Longrightarrow>
     Client_Pause R i r = delivered R ''pausing container: '' ''pausing container: '' (GPause i) (gvPause (reGuest R) i) r"
  "reFate R MResume = Delivered \<Longrightarrow>
     Client_Resume R i r = delivered R ''resuming container: '' ''resuming container: '' (GResume i) (gvResume (reGuest R) i) r"
  by (simp_all add: Client_Start_def Client_Pause_def Client_Resume_def Server_Start_def [abs_def]
      Server_Pause_def [abs_def] Server_Resume_def [abs_def] call_of_opt)

text \<open>Killing a container that does not run succeeds: the guest drops that error of its runtime.\<close>

lemma Client_Kill_delivered:
  assumes "reFate R MKill = Delivered" "- (2 ^ 31) \<le> sig" "sig < 2 ^ 31"
  shows "rmServer (snd (Client_Kill R i sig opts r)) = glog [GKill i sig opts] (rmServer r)"
    and "is_ok (fst (Client_Kill R i sig opts r)) \<longleftrightarrow>
      (case gvKill (reGuest R) i sig opts of
         None \<Rightarrow> True
       | Some e \<Rightarrow> suffix ''container not running'' (ext_text e) \<or>
           str_contains (ext_text (reStatus R (Wrapf ''killing container: '' (Ext e)))) ''failed to write client preface'')"
proof -
  have sig: "sint (word_of_int sig :: 32 word) = sig" using assms(2,3) by (simp add: sint_word_of_int_iff)
  show "rmServer (snd (Client_Kill R i sig opts r)) = glog [GKill i sig opts] (rmServer r)"
    using assms(1) sig by (auto simp: Client_Kill_def call_def Server_Kill_def Let_def split: option.split)
  show "is_ok (fst (Client_Kill R i sig opts r)) \<longleftrightarrow>
      (case gvKill (reGuest R) i sig opts of
         None \<Rightarrow> True
       | Some e \<Rightarrow> suffix ''container not running'' (ext_text e) \<or>
           str_contains (ext_text (reStatus R (Wrapf ''killing container: '' (Ext e)))) ''failed to write client preface'')"
    using assms(1) sig by (auto simp: Client_Kill_def call_def Server_Kill_def Let_def split: option.split)
qed

text \<open>A window size survives the way to the guest.\<close>

lemma Client_resize_delivered:
  assumes "reFate R MResize = Delivered" "GetOpenConsole (srState (rmServer r)) ref = Some (PathConsole p)"
    and "gvRecvtty (reGuest R) p = Some m"
  shows "srLog (rmServer (snd (Client_resizeFunc R ref w h r))) = srLog (rmServer r) @ [GResize m w h]"
proof -
  have "ucast (ucast (x :: 16 word) :: 32 word) = x" for x by (simp add: unsigned_ucast_eq take_bit_word_eq_self)
  then show ?thesis
    using assms by (cases "gvResize (reGuest R) m w h") (simp_all add: Client_resizeFunc_def call_def ResizeConsole_def)
qed

section \<open>Properties\<close>

text \<open>
  C17: The streams of an IO that the runtime creates are wired straight: the guest has, under the
  reference of the IO, an IO of its own whose standard input, output and error are the other ends of those of the
  host, exactly the streams that were asked for exist, and no two of them share a port.
\<close>

theorem pipe_io_wired:
  assumes "Client_NewPipeIO R uid gid opts r = (Ok io, r')" "server_inv (rmServer r)"
    and "srIoRefs (rmServer r) \<noteq> - 1" "srConsoleRefs (rmServer r) \<noteq> - 1"
  shows "\<exists>ref a b c ga gb gc. io = HostAllocatedStdio ref a b c \<and>
    GetOpenIO (srState (rmServer r)) ref = None \<and>
    GetOpenIO (srState (rmServer r')) ref = Some (SocketIO ga gb gc) \<and>
    wired a ga \<and> wired b gb \<and> wired c gc \<and>
    (a \<noteq> None) = OpenStdin opts \<and> (b \<noteq> None) = OpenStdout opts \<and> (c \<noteq> None) = OpenStderr opts \<and>
    distinct (map sock_port (some_list [a, b, c]))"
  using assms by (rule pipe_wiring)

text \<open>
  C5: Creating a container through the remote runtime is creating it in the guest: after the streams have
  been set up, a delivered \<open>Create\<close> calls the runtime of the guest exactly once, with the options of the host and
  with the guest's own ends of the streams, and succeeds exactly when that call does.
\<close>

theorem remote_create_runs_in_guest:
  assumes "Client_NewPipeIO R uid gid streams r = (Ok io, r1)" "server_inv (rmServer r)"
    and "srIoRefs (rmServer r) \<noteq> - 1" "srConsoleRefs (rmServer r) \<noteq> - 1"
    and "reFate Q MCreate = Delivered" "gcIO opts = Some io" "gcConsoleSocket opts = None" "gcExtraFiles opts = []"
  shows "\<exists>ref a b c ga gb gc. io = HostAllocatedStdio ref a b c \<and> wired a ga \<and> wired b gb \<and> wired c gc \<and>
    (let g = \<lparr>gcPidFile = gcPidFile opts, gcIO = Some (SocketIO ga gb gc), gcNoPivot = gcNoPivot opts,
              gcNoNewKeyring = gcNoNewKeyring opts, gcConsoleSocket = None, gcDetach = gcDetach opts,
              gcExtraFiles = [], gcStarted = True\<rparr>
     in srLog (rmServer (snd (Client_Create Q i bundle opts r1))) = srLog (rmServer r1) @ [GCreate i bundle g] \<and>
        (is_ok (fst (Client_Create Q i bundle opts r1)) \<longleftrightarrow> gvCreate (reGuest Q) i bundle g = None))"
proof -
  obtain ref a b c ga gb gc where io: "io = HostAllocatedStdio ref a b c"
    and open_io: "GetOpenIO (srState (rmServer r1)) ref = Some (SocketIO ga gb gc)"
    and w: "wired a ga" "wired b gb" "wired c gc" and fresh: "GetOpenIO (srState (rmServer r)) ref = None"
    using pipe_wiring [OF assms(1-4)] by blast
  have ref: "ref \<noteq> []" using pipe_reference assms(1) unfolding io by blast
  define g :: GuestServer.guest_create_opts where "g = \<lparr>gcPidFile = gcPidFile opts, gcIO = Some (SocketIO ga gb gc), gcNoPivot = gcNoPivot opts,
              gcNoNewKeyring = gcNoNewKeyring opts, gcConsoleSocket = None, gcDetach = gcDetach opts,
              gcExtraFiles = [], gcStarted = True\<rparr>"
  have "Conversion.guest_create_opts (srState (rmServer r1)) (create_ifaces opts) = Ok g"
    using assms(6-8) ref open_io
    by (simp add: guest_create_opts_def guest_of_def create_ifaces_def io io_iface_def g_def)
  from Client_Create_delivered [OF assms(5,8) this, of i "bundle"]
  have "srLog (rmServer (snd (Client_Create Q i bundle opts r1))) = srLog (rmServer r1) @ [GCreate i bundle g] \<and>
        (is_ok (fst (Client_Create Q i bundle opts r1)) \<longleftrightarrow> gvCreate (reGuest Q) i bundle g = None)"
    by (simp add: delivered_ok)
  then show ?thesis
    unfolding Let_def
    by (intro exI [of _ ref] exI [of _ a] exI [of _ b] exI [of _ c] exI [of _ ga] exI [of _ gb] exI [of _ gc]
        conjI io w) (simp_all only: g_def)
qed

text \<open>
  A process without standard streams cannot be created or executed through the remote runtime:
  the null IO the runtime hands out for it has no reference, so that \<open>Create\<close> and \<open>Exec\<close>
  always refuse it, without asking the guest.
\<close>

lemma null_io_refused:
  assumes "Client_NewNullIO R r = (Ok io, r1)"
  shows "(gcIO copts = Some io \<and> gcExtraFiles copts = [] \<longrightarrow>
       (\<exists>e. Client_Create Q i bundle copts r2 = (Fail e, r2))) \<and>
    (gxIO xopts = Some io \<longrightarrow> (\<exists>e. Client_Exec Q i spec xopts r2 = (Fail e, r2)))"
proof -
  obtain h where io: "io = HostNullIo h" using assms by (auto simp: Client_NewNullIO_def split: sum.splits)
  show ?thesis
    by (cases "reMarshalSpec Q spec")
      (auto simp: Client_Create_def Client_Exec_def ConvertCreateOptsToProto_def ConvertExecOptsToProto_def
        create_ifaces_def exec_ifaces_def io io_iface_def ConvertProcessSpecToProto_def)
qed

subsection \<open>Executions\<close>

text \<open>A network on which every call is delivered.\<close>

definition net_ok :: remote_env where
  "net_ok = \<lparr>reGuest = guest_ok, reFate = \<lambda>_. Delivered,
     reStatus = \<lambda>_. \<lparr>ext_text = ''status'', ext_wraps = [], ext_is_ESRCH = False\<rparr>, reListen = \<lambda>_. None,
     reAccept = \<lambda>p. Accepted 4, reLate = \<lambda>_. False, reNullIO = Inr 3, reMarshalSpec = \<lambda>_. Inr []\<rparr>"

definition fresh_remote :: remote where
  "fresh_remote = NewGRPCClientRuntimeFromConn NewServer"

definition two_streams :: io_option where
  "two_streams = \<lparr>OpenStdin = True, OpenStdout = False, OpenStderr = True\<rparr>"

lemma fresh_remote_ok:
  "server_inv (rmServer fresh_remote)" "srIoRefs (rmServer fresh_remote) \<noteq> - 1"
  "srConsoleRefs (rmServer fresh_remote) \<noteq> - 1"
proof -
  show "server_inv (rmServer fresh_remote)"
    using guest_server.start_inv by (simp add: fresh_remote_def NewGRPCClientRuntimeFromConn_def)
qed (simp_all add: fresh_remote_def NewGRPCClientRuntimeFromConn_def NewServer_def)

lemma two_streams_run:
  "fst (Client_NewPipeIO net_ok 0 0 two_streams fresh_remote) =
     Ok (HostAllocatedStdio ''io:1'' (Some (ProxyConn 3301 4)) None (Some (ProxyConn 3302 4)))"
  by code_simp

theorem pipe_io_wired_witness:
  "\<exists>r' ga gb gc.
     Client_NewPipeIO net_ok 0 0 two_streams fresh_remote =
       (Ok (HostAllocatedStdio ''io:1'' (Some (ProxyConn 3301 4)) None (Some (ProxyConn 3302 4))), r') \<and>
     GetOpenIO (srState (rmServer r')) ''io:1'' = Some (SocketIO ga gb gc) \<and>
     wired (Some (ProxyConn 3301 4)) ga \<and> gb = None"
proof -
  obtain r' where r: "Client_NewPipeIO net_ok 0 0 two_streams fresh_remote =
       (Ok (HostAllocatedStdio ''io:1'' (Some (ProxyConn 3301 4)) None (Some (ProxyConn 3302 4))), r')"
    using two_streams_run by (metis prod.collapse)
  have "gb = None" if "wired None gb" for gb using that by (cases gb) auto
  with pipe_io_wired [OF r fresh_remote_ok] r show ?thesis by fastforce
qed

definition detached :: "host_io \<Rightarrow> (host_io, host_console) CreateOpts" where
  "detached io = \<lparr>gcPidFile = ''p'', gcIO = Some io, gcNoPivot = False, gcNoNewKeyring = False,
     gcConsoleSocket = None, gcDetach = True, gcExtraFiles = [], gcStarted = False\<rparr>"

theorem remote_create_runs_in_guest_witness:
  "\<exists>io r1. Client_NewPipeIO net_ok 0 0 two_streams fresh_remote = (Ok io, r1) \<and>
     is_ok (fst (Client_Create net_ok ''c'' ''/b'' (detached io) r1)) \<and>
     length (srLog (rmServer (snd (Client_Create net_ok ''c'' ''/b'' (detached io) r1)))) =
       Suc (length (srLog (rmServer r1)))"
proof -
  obtain io r1 where r: "Client_NewPipeIO net_ok 0 0 two_streams fresh_remote = (Ok io, r1)"
    using two_streams_run by (metis prod.collapse)
  have d: "reFate net_ok MCreate = Delivered" by (simp add: net_ok_def)
  have g: "gvCreate (reGuest net_ok) a b c = None" for a b c by (simp add: net_ok_def guest_ok_def)
  have "gcIO (detached io) = Some io" "gcConsoleSocket (detached io) = None" "gcExtraFiles (detached io) = []"
    by (simp_all add: detached_def)
  from remote_create_runs_in_guest [OF r fresh_remote_ok d this, of "''c''" "''/b''"] r g show ?thesis
    by (auto simp: Let_def)
qed


text \<open>
  The client goes on as soon as a connection is accepted. When the guest has dialled but not yet registered the
  connection, binding the streams fails although every call was delivered and no side reported an error;
  once the guest has caught up the connections are there, with nobody to use or close them.
\<close>

lemma early_accept_breaks_bind:
  "let (x, r) = Client_NewPipeIO (net_ok\<lparr>reLate := \<lambda>_. True\<rparr>) 0 0 two_streams fresh_remote
   in \<not> is_ok x \<and> rmClosed r = [] \<and> GetOpenVsockConnection (srState (rmServer r)) 3301 = None \<and>
      GetOpenVsockConnection (srState (rmServer (settle r))) 3301 = Some (VsockSock 3301 5)"
  by code_simp

end
