(* ===== verification/KernelImage.thy ===== *)
theory KernelImage
  imports Prelude "HOL-Library.Multiset"
begin

text \<open>
  Finding the kernel in a compressed image (\<open>core/virt/host/extract-vmlinux.go\<close>): the search for
  signatures in chunks by parallel workers, the choice among the kernels that appear while
  decompressing, and the order in which the results are used. The ELF and PE parsers and the decompressors are
  arguments; a file is a list of bytes.
\<close>

type_synonym bytes = "8 word list"

record kernel_env =
  elfParses :: "bytes \<Rightarrow> bool"
  peMachine :: "bytes \<Rightarrow> nat option"
  numCPU :: nat

section \<open>Recognising a kernel\<close>

definition arm64Magic :: bytes where
  "arm64Magic = [0x41, 0x52, 0x4d, 0x64]"

definition isELF :: "kernel_env \<Rightarrow> bytes \<Rightarrow> bool" where
  "isELF K b = elfParses K b"

definition isPE :: "kernel_env \<Rightarrow> bytes \<Rightarrow> bool" where
  "isPE K b = (case peMachine K b of None \<Rightarrow> False | Some m \<Rightarrow> m = 0xAA64)"

definition isArm64BootImage :: "bytes \<Rightarrow> bool" where
  "isArm64BootImage b \<longleftrightarrow> 64 \<le> length (take 64 b) \<and> take 4 (drop 0x38 (take 64 b)) = arm64Magic"

definition isValidKernel :: "kernel_env \<Rightarrow> bytes \<Rightarrow> bool" where
  "isValidKernel K b \<longleftrightarrow> isELF K b \<or> isArm64BootImage b \<or> isPE K b"

definition isValidKernelWithSize :: "kernel_env \<Rightarrow> bytes \<Rightarrow> nat \<Rightarrow> bool" where
  "isValidKernelWithSize K b sz \<longleftrightarrow>
     (if isPE K b \<and> 128 * 1024 \<le> sz then True
      else if isELF K b \<or> isArm64BootImage b then 1 * 1024 * 1024 \<le> sz
      else False)"

definition getKernelType :: "kernel_env \<Rightarrow> bytes \<Rightarrow> string" where
  "getKernelType K b =
     (if isPE K b then ''PE32+ EFI'' else if isELF K b then ''ELF''
      else if isArm64BootImage b then ''ARM64 Boot Image'' else ''Unknown'')"

section \<open>Finding signatures\<close>

definition magicHeaders :: "(string \<times> bytes) list" where
  "magicHeaders =
     [(''gzip'', [0x1f, 0x8b, 0x08]),
      (''xz'', [0xfd, 0x37, 0x7a, 0x58, 0x5a, 0x00]),
      (''bzip2'', [0x42, 0x5a, 0x68]),
      (''lz4'', [0x02, 0x21, 0x4c, 0x18]),
      (''zstd'', [0x28, 0xb5, 0x2f, 0xfd])]"

definition bufferSize :: nat where
  "bufferSize = 4 * 1024 * 1024"

text \<open>The positions of a signature in a buffer that starts at \<open>start\<close> of the file.\<close>

definition scan_chunk :: "bytes \<Rightarrow> nat \<Rightarrow> bytes \<Rightarrow> nat list" where
  "scan_chunk sig start buf =
     map (\<lambda>i. start + i)
       (filter (\<lambda>i. take (length sig) (drop i buf) = sig) [0..<Suc (length buf) - length sig])"

text \<open>The number of workers and the size of their chunks, for a size \<open>buf\<close> of the buffer.\<close>

definition split_work :: "nat \<Rightarrow> nat \<Rightarrow> nat \<Rightarrow> nat \<times> nat" where
  "split_work buf cpus fileSize =
     (let workers = (if 16 < cpus then 16 else cpus);
          chunk = fileSize div workers
      in if chunk < buf then (1, fileSize) else (workers, chunk))"

text \<open>Where the chunk of a worker starts and ends: it reaches back to catch a split signature.\<close>

definition chunk_bounds :: "nat \<Rightarrow> nat \<Rightarrow> nat \<Rightarrow> nat \<Rightarrow> nat \<Rightarrow> nat \<times> nat" where
  "chunk_bounds sigLen workers chunk fileSize i =
     (let start = i * chunk;
          e = start + chunk;
          e = (if i = workers - 1 \<or> fileSize < e then fileSize else e);
          start = (if 0 < i then start - (sigLen - 1) else start)
      in (start, e))"

text \<open>
  What a worker adds: nothing when it cannot read its chunk or the context ends before it is
  through. The workers add their positions in the order they finish.
\<close>

definition worker :: "(nat \<Rightarrow> bool) \<Rightarrow> bytes \<Rightarrow> nat \<Rightarrow> nat \<Rightarrow> bytes \<Rightarrow> nat \<Rightarrow> nat list" where
  "worker fails sig workers chunk file i =
     (if fails i then []
      else
        (case chunk_bounds (length sig) workers chunk (length file) i of
           (start, e) \<Rightarrow> scan_chunk sig start (take (e - start) (drop start file))))"

definition find_in_chunks :: "nat \<Rightarrow> nat \<Rightarrow> (nat \<Rightarrow> bool) \<Rightarrow> (nat \<Rightarrow> nat list) \<Rightarrow> bytes \<Rightarrow> bytes \<Rightarrow> nat list" where
  "find_in_chunks buf cpus fails finish sig file =
     (case split_work buf cpus (length file) of
        (workers, chunk) \<Rightarrow> concat (map (worker fails sig workers chunk file) (finish workers)))"

definition findSignatures :: "kernel_env \<Rightarrow> (nat \<Rightarrow> bool) \<Rightarrow> (nat \<Rightarrow> nat list) \<Rightarrow> bytes \<Rightarrow> bytes \<Rightarrow> nat list" where
  "findSignatures K fails finish sig file = find_in_chunks bufferSize (numCPU K) fails finish sig file"

text \<open>The reference: all positions, in order.\<close>

definition occurrences :: "bytes \<Rightarrow> bytes \<Rightarrow> nat list" where
  "occurrences sig file =
     filter (\<lambda>p. p + length sig \<le> length file \<and> take (length sig) (drop p file) = sig) [0..<Suc (length file)]"

section \<open>Decompressing\<close>

text \<open>
  What happens to one decompression: whether the temporary file could be made (\<open>dcTemp\<close>), the buffers that were
  read and written, up to an error or the end (\<open>dcReads\<close>, none when seeking or opening the decompressor
  fails), whether it ended before the time limit, whether the output could be opened and read after the
  n-th buffer (\<open>dcLook\<close>), and whether it could be opened and read at the end.
\<close>

record decompression =
  dcTemp :: bool
  dcReads :: "bytes list"
  dcInTime :: bool
  dcLook :: "nat \<Rightarrow> bool"
  dcFinal :: bool

text \<open>After a read the output is looked at when its size is due.\<close>

definition check_due :: "nat \<Rightarrow> bool" where
  "check_due written \<longleftrightarrow> written mod 16000000 < 4 * 1024 * 1024 \<and> 0 < written"

fun collect_kernels :: "kernel_env \<Rightarrow> (nat \<Rightarrow> bool) \<Rightarrow> nat \<Rightarrow> bytes \<Rightarrow> bytes list \<Rightarrow> bytes list" where
  "collect_kernels K look n out [] = []"
| "collect_kernels K look n out (b # bs) =
     (let out' = out @ b;
          found = (0 < length b \<and> check_due (length out') \<and> look n \<and> isValidKernel K out' \<and>
                   isValidKernelWithSize K out' (length out'))
      in (if found then [out'] else []) @ collect_kernels K look (Suc n) out' bs)"

fun largest :: "bytes \<Rightarrow> bytes list \<Rightarrow> bytes" where
  "largest best [] = best"
| "largest best (k # ks) = largest (if length best < length k then k else best) ks"

definition simpleDecompress :: "kernel_env \<Rightarrow> decompression \<Rightarrow> bytes option" where
  "simpleDecompress K d =
     (if \<not> dcTemp d then None
      else if \<not> dcInTime d then None
      else
        (let found = collect_kernels K (dcLook d) 0 [] (dcReads d); out = concat (dcReads d)
         in if 0 < length found then Some (largest [] found)
            else if \<not> dcFinal d then None
            else if isValidKernelWithSize K out (length out) then Some out
            else None))"

section \<open>Extracting\<close>

text \<open>
  What the extraction meets: the errors of opening the image, of asking for its size and of reading it; the
  decompression of a format at a position; the workers that fail and the order in which they finish; the
  order in which the formats come to an end; how the caller's context ended, if it did, and the case the last
  \<open>select\<close> takes among those that are ready.
\<close>

datatype context_end = Canceled | DeadlineExceeded

datatype selected = SelResult | SelDone | SelCtx

record extraction =
  exOpen :: "ext_error option"
  exStat :: "ext_error option"
  exRead :: "ext_error option"
  exDecompress :: "bytes \<Rightarrow> nat \<Rightarrow> decompression"
  exFails :: "nat \<Rightarrow> bool"
  exFinish :: "nat \<Rightarrow> nat list"
  exOrder :: "(string \<times> bytes) list"
  exCtx :: "context_end option"
  exSelect :: selected

fun first_some :: "('a \<Rightarrow> 'b option) \<Rightarrow> 'a list \<Rightarrow> 'b option" where
  "first_some f [] = None"
| "first_some f (x # xs) = (case f x of Some y \<Rightarrow> Some y | None \<Rightarrow> first_some f xs)"

text \<open>One format: its positions are tried in turn. The first format with a result puts it into the channel.\<close>

definition try_format :: "kernel_env \<Rightarrow> extraction \<Rightarrow> bytes \<Rightarrow> string \<times> bytes \<Rightarrow> bytes option" where
  "try_format K X img hdr =
     first_some (\<lambda>pos. simpleDecompress K (exDecompress X (snd hdr) pos))
       (findSignatures K (exFails X) (exFinish X) (snd hdr) img)"

text \<open>
  The last \<open>select\<close>: the result is ready when there is one, the end of the context when the caller's ended or
  a result cancelled it, the end of all formats at any time. Searching returns no errors, so the
  channel for them stays empty.
\<close>

definition select_result :: "extraction \<Rightarrow> bytes option \<Rightarrow> bytes res" where
  "select_result X result =
     (if exSelect X = SelResult \<and> result \<noteq> None then Ok (the result)
      else if exSelect X = SelCtx \<and> (exCtx X \<noteq> None \<or> result \<noteq> None) then
        (if exCtx X = Some DeadlineExceeded then Fail (ErrNew ''operation timed out'')
         else (case result of Some k \<Rightarrow> Ok k | None \<Rightarrow> Fail (ErrNew ''operation cancelled'')))
      else Fail (ErrNew ''no valid kernel found''))"

definition ExtractVmlinuxNative :: "kernel_env \<Rightarrow> extraction \<Rightarrow> bytes \<Rightarrow> bytes res" where
  "ExtractVmlinuxNative K X img =
     (case exOpen X of
        Some e \<Rightarrow> Fail (Wrapf ''opening image file: '' (Ext e))
      | None \<Rightarrow>
          (case exStat X of
             Some e \<Rightarrow> Fail (Wrapf ''getting file info: '' (Ext e))
           | None \<Rightarrow>
               if 0 < length img \<and> isValidKernel K img \<and> isValidKernelWithSize K img (length img) then
                 (case exRead X of
                    Some e \<Rightarrow> Fail (Wrapf ''reading uncompressed file: '' (Ext e))
                  | None \<Rightarrow> Ok img)
               else select_result X (first_some (try_format K X img) (exOrder X))))"

section \<open>Lemmas\<close>

definition matches :: "bytes \<Rightarrow> bytes \<Rightarrow> nat \<Rightarrow> bool" where
  "matches sig file p \<longleftrightarrow> take (length sig) (drop p file) = sig"

lemma filter_shift: "map (\<lambda>i. s + i) (filter (\<lambda>i. P (s + i)) [0..<n]) = filter P [s..<s + n]"
  by (induction n) auto

lemma scan_chunk_filter:
  assumes "e \<le> length file" "s \<le> e"
  shows "scan_chunk sig s (take (e - s) (drop s file)) = filter (matches sig file) [s..<s + (Suc (e - s) - length sig)]"
proof -
  have "take (length sig) (drop i (take (e - s) (drop s file))) = take (length sig) (drop (s + i) file)"
    if "i \<in> set [0..<Suc (e - s) - length sig]" for i
    using that by (simp add: drop_take add.commute min_def)
  then have "filter (\<lambda>i. take (length sig) (drop i (take (e - s) (drop s file))) = sig) [0..<Suc (e - s) - length sig] =
      filter (\<lambda>i. matches sig file (s + i)) [0..<Suc (e - s) - length sig]"
    by (intro filter_cong) (auto simp: matches_def)
  moreover have "length (take (e - s) (drop s file)) = e - s" using assms by simp
  ultimately show ?thesis unfolding scan_chunk_def by (simp only: filter_shift)
qed

lemma occurrences_filter:
  assumes "sig \<noteq> []"
  shows "occurrences sig file = filter (matches sig file) [0..<Suc (length file) - length sig]"
proof -
  let ?m = "Suc (length file) - length sig"
  have "[0..<Suc (length file)] = [0..<?m] @ [?m..<Suc (length file)]"
    by (metis diff_le_self le0 le_add_diff_inverse upt_add_eq_append zero_le)
  moreover have "filter (\<lambda>p. p + length sig \<le> length file \<and> matches sig file p) [?m..<Suc (length file)] = []"
    using assms by (auto simp: filter_empty_conv)
  moreover have "filter (\<lambda>p. p + length sig \<le> length file \<and> matches sig file p) [0..<?m] = filter (matches sig file) [0..<?m]"
    by (rule filter_cong) auto
  ultimately show ?thesis by (simp add: occurrences_def matches_def)
qed

text \<open>The chunks, cut at the positions a signature can start at, lie next to each other.\<close>

definition cut :: "nat \<Rightarrow> nat \<Rightarrow> nat \<Rightarrow> nat \<Rightarrow> nat \<Rightarrow> nat" where
  "cut L n c F i = (if i = n then F - (L - 1) else i * c - (L - 1))"

lemma steps_le: "(\<And>i. i < n \<Longrightarrow> lo i \<le> lo (Suc i)) \<Longrightarrow> lo 0 \<le> (lo n :: nat)"
  by (induction n) (auto intro: le_trans)

lemma concat_intervals:
  "(\<And>i. i < n \<Longrightarrow> lo i \<le> lo (Suc i)) \<Longrightarrow>
   concat (map (\<lambda>i. filter P [lo i..<lo (Suc i)]) [0..<n]) = filter P [lo 0..<(lo n :: nat)]"
proof (induction n)
  case (Suc n)
  have "lo 0 \<le> lo n" using Suc.prems by (intro steps_le) simp
  then have "[lo 0..<lo (Suc n)] = [lo 0..<lo n] @ [lo n..<lo (Suc n)]"
    using Suc.prems [of n] by (metis le_add_diff_inverse lessI upt_add_eq_append)
  with Suc show ?case by simp
qed simp

lemma worker_cut:
  assumes "sig \<noteq> []" "length sig \<le> Suc c" "0 < n" "n * c \<le> length file" "i < n" "\<not> fails i"
    and "n = 1 \<Longrightarrow> c = length file"
  shows "worker fails sig n c file i =
    filter (matches sig file) [cut (length sig) n c (length file) i..<cut (length sig) n c (length file) (Suc i)]"
proof -
  let ?L = "length sig" and ?F = "length file"
  let ?s = "cut ?L n c ?F i"
  have L: "0 < ?L" using assms(1) by simp
  have ic: "i * c \<le> ?F" "Suc i * c \<le> ?F"
    using assms(4,5) by (meson Suc_leI le_trans less_imp_le mult_le_mono1)+
  define e where "e = (if i = n - 1 then ?F else Suc i * c)"
  have e: "e \<le> ?F" "i * c \<le> e" using ic by (auto simp: e_def)
  have b: "chunk_bounds ?L n c ?F i = (?s, e)"
    using assms(3,5) ic by (auto simp: chunk_bounds_def Let_def cut_def e_def add.commute not_less)
  have s: "?s \<le> e" using e assms(5) by (auto simp: cut_def)
  have "?s + (Suc (e - ?s) - ?L) = cut ?L n c ?F (Suc i)"
  proof (cases "i = 0")
    case True
    then show ?thesis using assms(3) L by (auto simp: cut_def e_def Suc_diff_eq_diff_pred)
  next
    case False
    then have "?L - 1 \<le> i * c" using assms(2) by (metis One_nat_def Suc_leI le_diff_conv add.commute le_trans mult_le_mono1 nat_mult_1 not_gr0 plus_1_eq_Suc)
    then show ?thesis using False e s L assms(3,5) by (auto simp: cut_def e_def Suc_diff_eq_diff_pred)
  qed
  then show ?thesis
    using scan_chunk_filter [OF e(1) s, of sig] assms(6) by (simp add: worker_def b)
qed

lemma mset_concat_map: "mset (concat (map f xs)) = (\<Sum>x \<in># mset xs. mset (f x))"
  by (induction xs) auto

lemma find_in_chunks_exact:
  assumes "0 < cpus" "sig \<noteq> []" "length sig \<le> Suc buf" "\<forall>i. \<not> fails i" "\<forall>n. mset (finish n) = mset [0..<n]"
  shows "mset (find_in_chunks buf cpus fails finish sig file) = mset (occurrences sig file)"
proof -
  obtain n c where nc: "split_work buf cpus (length file) = (n, c)" by fastforce
  have n: "0 < n" "n * c \<le> length file" "n = 1 \<Longrightarrow> c = length file" "n \<noteq> 1 \<Longrightarrow> length sig \<le> Suc c"
    using nc assms(1,3) by (auto simp: split_work_def Let_def split: if_splits)
  let ?cut = "cut (length sig) n c (length file)"
  have w: "worker fails sig n c file i = filter (matches sig file) [?cut i..<?cut (Suc i)]" if "i < n" for i
  proof (cases "n = 1")
    case True
    with that n show ?thesis
      using scan_chunk_filter [of "length file" "file" 0 sig] assms(2,4)
      by (simp add: worker_def chunk_bounds_def cut_def)
         (metis One_nat_def Suc_diff_eq_diff_pred length_greater_0_conv)
  next
    case False
    with that n assms(2,4) show ?thesis by (intro worker_cut) auto
  qed
  have mono: "?cut i \<le> ?cut (Suc i)" if "i < n" for i
  proof -
    have "i * c \<le> length file" using that n(2) by (meson le_trans less_imp_le mult_le_mono1)
    then show ?thesis using that by (auto simp: cut_def intro: diff_le_mono)
  qed
  have "mset (find_in_chunks buf cpus fails finish sig file) =
      mset (concat (map (worker fails sig n c file) [0..<n]))"
    unfolding find_in_chunks_def nc prod.case mset_concat_map using assms(5) by simp
  also have "concat (map (worker fails sig n c file) [0..<n]) =
      concat (map (\<lambda>i. filter (matches sig file) [?cut i..<?cut (Suc i)]) [0..<n])"
    by (intro arg_cong [where f = concat] map_cong) (auto simp: w)
  also have "\<dots> = filter (matches sig file) [?cut 0..<?cut n]" using mono by (rule concat_intervals)
  also have "\<dots> = occurrences sig file"
    using n(1) assms(2) by (simp add: occurrences_filter cut_def Suc_diff_eq_diff_pred)
  finally show ?thesis .
qed

lemma first_some_in: "first_some f xs = Some y \<Longrightarrow> \<exists>x \<in> set xs. f x = Some y"
  by (induction xs) (auto split: option.splits)

lemma first_some_None: "first_some f xs = None \<longleftrightarrow> (\<forall>x \<in> set xs. f x = None)"
  by (induction xs) (auto split: option.splits)

lemma collect_kernels_valid:
  "k \<in> set (collect_kernels K look n out bs) \<Longrightarrow> isValidKernelWithSize K k (length k) \<and> k \<noteq> []"
  by (induction bs arbitrary: n out) (auto simp: Let_def check_due_def split: if_splits)

lemma largest_in: "largest b ks \<in> insert b (set ks) \<and> length b \<le> length (largest b ks) \<and>
    (\<forall>k \<in> set ks. length k \<le> length (largest b ks))"
proof (induction ks arbitrary: b)
  case (Cons k ks)
  show ?case
  proof (cases "length b < length k")
    case True
    with Cons.IH [of k] show ?thesis by (auto intro: le_trans less_imp_le)
  next
    case False
    with Cons.IH [of b] show ?thesis by (auto intro: le_trans)
  qed
qed simp

lemma simpleDecompress_valid:
  assumes "simpleDecompress K d = Some k"
  shows "isValidKernelWithSize K k (length k)"
proof (cases "collect_kernels K (dcLook d) 0 [] (dcReads d) = []")
  case True
  then show ?thesis using assms by (auto simp: simpleDecompress_def Let_def split: if_splits)
next
  case False
  let ?f = "collect_kernels K (dcLook d) 0 [] (dcReads d)"
  have k: "k = largest [] ?f" using assms False by (auto simp: simpleDecompress_def Let_def split: if_splits)
  obtain x where x: "x \<in> set ?f" using False by (cases ?f) auto
  have "x \<noteq> []" "length x \<le> length k"
    using collect_kernels_valid [OF x] largest_in [of "[]" ?f] x k by auto
  then have "k \<in> set ?f" using largest_in [of "[]" ?f] k by auto
  then show ?thesis using collect_kernels_valid by blast
qed

lemma valid_size_valid [simp]: "isValidKernelWithSize K b (length b) \<Longrightarrow> isValidKernel K b"
  by (auto simp: isValidKernel_def isValidKernelWithSize_def split: if_splits)

lemma select_result_Ok: "select_result X r = Ok k \<Longrightarrow> r = Some k"
  by (auto simp: select_result_def split: if_splits option.splits)

lemma extracted_valid:
  assumes "exOpen X = None" "exStat X = None" "exRead X = None" "ExtractVmlinuxNative K X img = Ok k"
  shows "isValidKernelWithSize K k (length k) \<and>
    (isValidKernelWithSize K img (length img) \<and> img \<noteq> [] \<longrightarrow> k = img)"
proof (cases "isValidKernelWithSize K img (length img) \<and> img \<noteq> []")
  case True
  then show ?thesis using assms by (auto simp: ExtractVmlinuxNative_def)
next
  case False
  then have "first_some (try_format K X img) (exOrder X) = Some k"
    using assms by (auto simp: ExtractVmlinuxNative_def dest: select_result_Ok split: if_splits)
  then show ?thesis
    using False simpleDecompress_valid by (auto simp: try_format_def dest!: first_some_in)
qed

lemma signatures_short: "hdr \<in> set magicHeaders \<Longrightarrow> snd hdr \<noteq> [] \<and> length (snd hdr) \<le> bufferSize"
  by (auto simp: magicHeaders_def bufferSize_def)

lemma findSignatures_set:
  assumes "0 < numCPU K" "\<forall>i. \<not> fails i" "\<forall>n. mset (finish n) = mset [0..<n]" "hdr \<in> set magicHeaders"
  shows "set (findSignatures K fails finish (snd hdr) img) = set (occurrences (snd hdr) img)"
proof -
  have "mset (findSignatures K fails finish (snd hdr) img) = mset (occurrences (snd hdr) img)"
    unfolding findSignatures_def using assms signatures_short [OF assms(4)] by (intro find_in_chunks_exact) auto
  then show ?thesis by (rule mset_eq_setD)
qed

lemma extracted_complete:
  assumes "exOpen X = None" "exStat X = None" "exRead X = None"
    and "0 < numCPU K" "\<forall>i. \<not> exFails X i" "\<forall>n. mset (exFinish X n) = mset [0..<n]"
    and "exSelect X = SelResult" "set (exOrder X) = set magicHeaders"
  shows "is_ok (ExtractVmlinuxNative K X img) \<longleftrightarrow>
        img \<noteq> [] \<and> isValidKernelWithSize K img (length img) \<or>
        (\<exists>hdr \<in> set magicHeaders. \<exists>pos \<in> set (occurrences (snd hdr) img).
           simpleDecompress K (exDecompress X (snd hdr) pos) \<noteq> None)"
proof (cases "isValidKernelWithSize K img (length img) \<and> img \<noteq> []")
  case True
  then show ?thesis using assms(1-3) by (simp add: ExtractVmlinuxNative_def)
next
  case False
  let ?r = "first_some (try_format K X img) (exOrder X)"
  have "is_ok (ExtractVmlinuxNative K X img) \<longleftrightarrow> ?r \<noteq> None"
    using assms(1-3,7) False by (auto simp: ExtractVmlinuxNative_def select_result_def)
  also have "\<dots> \<longleftrightarrow> (\<exists>hdr \<in> set magicHeaders. try_format K X img hdr \<noteq> None)"
    by (auto simp: first_some_None assms(8))
  also have "\<dots> \<longleftrightarrow> (\<exists>hdr \<in> set magicHeaders. \<exists>pos \<in> set (occurrences (snd hdr) img).
           simpleDecompress K (exDecompress X (snd hdr) pos) \<noteq> None)"
    using assms(4-6) by (simp add: try_format_def first_some_None findSignatures_set)
  finally show ?thesis using False by blast
qed

section \<open>Properties\<close>

text \<open>
  C11: Searching a file for a signature in parallel chunks is the same as searching it from one end to the
  other: however the file is split and in whatever order the workers finish, every position of the signature is
  found, exactly once, also where it lies across the boundary of two chunks.
\<close>

theorem findSignatures_exact:
  assumes "0 < numCPU K" "sig \<noteq> []" "length sig \<le> bufferSize" "\<forall>i. \<not> fails i" "\<forall>n. mset (finish n) = mset [0..<n]"
  shows "mset (findSignatures K fails finish sig file) = mset (occurrences sig file)"
  unfolding findSignatures_def by (rule find_in_chunks_exact) (use assms in auto)


subsection \<open>Executions\<close>

definition four_cpus :: kernel_env where
  "four_cpus = \<lparr>elfParses = \<lambda>_. False, peMachine = \<lambda>_. None, numCPU = 4\<rparr>"

text \<open>With a small buffer the file is split in four; the signature lies across two chunks.\<close>

lemma split_signature_found:
  "find_in_chunks 2 4 (\<lambda>_. False) (\<lambda>n. rev [0..<n]) [0x1f, 0x8b, 0x08] [0, 0x1f, 0x8b, 0x08, 0, 0x1f, 0x8b, 0x08] = [5, 1]"
  by code_simp

theorem findSignatures_exact_witness:
  "mset (findSignatures four_cpus (\<lambda>_. False) (\<lambda>n. rev [0..<n]) [0x1f, 0x8b, 0x08] [0, 0x1f, 0x8b, 0x08]) =
     mset (occurrences [0x1f, 0x8b, 0x08] [0, 0x1f, 0x8b, 0x08])"
  by (rule findSignatures_exact) (simp_all add: four_cpus_def bufferSize_def)

text \<open>A machine with a PE parser that accepts every file, and a file of 128 KB.\<close>

definition pe_host :: kernel_env where
  "pe_host = \<lparr>elfParses = \<lambda>_. False, peMachine = \<lambda>_. Some 0xAA64, numCPU = 1\<rparr>"

definition plain_image :: extraction where
  "plain_image = \<lparr>exOpen = None, exStat = None, exRead = None,
     exDecompress = \<lambda>_ _. \<lparr>dcTemp = True, dcReads = [], dcInTime = True, dcLook = \<lambda>_. True, dcFinal = True\<rparr>,
     exFails = \<lambda>_. False, exFinish = \<lambda>n. rev [0..<n], exOrder = rev magicHeaders, exCtx = None, exSelect = SelResult\<rparr>"


text \<open>
  A result that is ready can be lost: when all formats have ended as well the select may take that case, and
  the extraction reports that no kernel was found.
\<close>

lemma ready_result_lost:
  "exSelect X = SelDone \<Longrightarrow> select_result X (Some k) = Fail (ErrNew ''no valid kernel found'')"
  by (simp add: select_result_def)

end
