(* ===== verification/VsockManager.thy ===== *)
theory VsockManager
  imports Prelude
begin

text \<open>
  Connecting to the guest (\<open>core/virt/vmm/vsock_manager.go\<close>) and waiting for a state of the virtual machine
  (\<open>core/virt/vmm/state.go\<close>): loops that can run forever. What each turn finds is given by the number of
  the turn; a loop that never returns has the value \<open>None\<close>.
\<close>

section \<open>The connection manager\<close>

datatype VSockManagerState = StateConnected | StateDisconnected

text \<open>
  The connection is a handle. \<open>vmSent\<close> lists the states sent to the notifiers, \<open>vmAttempts\<close> counts the
  calls of the connect function, \<open>vmClosed\<close> lists the connections that were closed.
\<close>

record vsock_manager =
  vmState :: VSockManagerState
  vmNotifiers :: nat
  vmConn :: "nat option"
  vmMaxRetries :: int
  vmSent :: "(nat \<times> VSockManagerState) list"
  vmAttempts :: nat
  vmClosed :: "nat list"

record dial_env =
  deDone :: "nat \<Rightarrow> bool"
  deConnect :: "nat \<Rightarrow> ext_error + nat"
  deDoneWaiting :: "nat \<Rightarrow> bool"
  deCtxErr :: ext_error

definition DefaultMaxRetries :: int where
  "DefaultMaxRetries = 4000"

definition NewVSockManager :: vsock_manager where
  "NewVSockManager = \<lparr>vmState = StateDisconnected, vmNotifiers = 0, vmConn = None,
     vmMaxRetries = DefaultMaxRetries, vmSent = [], vmAttempts = 0, vmClosed = []\<rparr>"

definition updateState :: "VSockManagerState \<Rightarrow> vsock_manager \<Rightarrow> vsock_manager" where
  "updateState st m = m\<lparr>vmState := st, vmSent := vmSent m @ map (\<lambda>i. (i, st)) [0..<vmNotifiers m]\<rparr>"

definition AddStateNotifier :: "vsock_manager \<Rightarrow> nat \<times> vsock_manager" where
  "AddStateNotifier m = (vmNotifiers m, m\<lparr>vmNotifiers := vmNotifiers m + 1\<rparr>)"

definition NewManagedConnectionChild :: "nat \<Rightarrow> vsock_manager \<Rightarrow> nat \<times> vsock_manager" where
  "NewManagedConnectionChild h m = (h, updateState StateConnected m)"

partial_function (option) dial_loop ::
  "dial_env \<Rightarrow> nat \<Rightarrow> ext_error option \<Rightarrow> vsock_manager \<Rightarrow> (nat res \<times> vsock_manager) option" where
  "dial_loop E n lastErr m =
     (if deDone E n then
        Some (Fail (Wrapf ''vsock connection canceled: '' (Ext (case lastErr of None \<Rightarrow> deCtxErr E | Some e \<Rightarrow> e))), m)
      else
        case vmConn m of
          Some h \<Rightarrow> Some (Ok h, m)
        | None \<Rightarrow>
            (case deConnect E n of
               Inr h \<Rightarrow>
                 (let (child, m1) = NewManagedConnectionChild h (m\<lparr>vmAttempts := vmAttempts m + 1\<rparr>)
                  in Some (Ok child, m1\<lparr>vmConn := Some child\<rparr>))
             | Inl e \<Rightarrow>
                 (let m1 = m\<lparr>vmAttempts := vmAttempts m + 1\<rparr>
                  in if 0 < vmMaxRetries m \<and> vmMaxRetries m \<le> int n + 1
                     then Some (Fail (Wrapf ''vsock connection failed after attempts: '' (Ext e)), m1)
                     else if deDoneWaiting E n
                     then Some (Fail (Wrapf ''vsock connection canceled during retry wait: '' (Ext (deCtxErr E))), m1)
                     else dial_loop E (n + 1) (Some e) m1)))"

definition VSockManager_Dial :: "dial_env \<Rightarrow> vsock_manager \<Rightarrow> (nat res \<times> vsock_manager) option" where
  "VSockManager_Dial E m =
     (case vmConn m of Some h \<Rightarrow> Some (Ok h, m) | None \<Rightarrow> dial_loop E 0 None m)"

text \<open>Reading, writing and closing the managed connection; the manager keeps it in each case.\<close>

definition ManagedConnectionChild_Read :: "ext_error option \<Rightarrow> vsock_manager \<Rightarrow> vsock_manager" where
  "ManagedConnectionChild_Read err m = (if err \<noteq> None then updateState StateDisconnected m else m)"

definition ManagedConnectionChild_Write :: "ext_error option \<Rightarrow> vsock_manager \<Rightarrow> vsock_manager" where
  "ManagedConnectionChild_Write err m = (if err \<noteq> None then updateState StateDisconnected m else m)"

definition ManagedConnectionChild_Close :: "nat \<Rightarrow> vsock_manager \<Rightarrow> vsock_manager" where
  "ManagedConnectionChild_Close h m = (let m1 = updateState StateDisconnected m in m1\<lparr>vmClosed := vmClosed m1 @ [h]\<rparr>)"

section \<open>Waiting for a state of the machine\<close>

datatype VirtualMachineStateType =
    VmUnknown | VmRunning | VmStarting | VmStopping | VmStopped | VmPaused | VmError

datatype vm_event = VmSignal | VmChange VirtualMachineStateType | VmTimeout

partial_function (option) wait_loop ::
  "(nat \<Rightarrow> vm_event) \<Rightarrow> VirtualMachineStateType \<Rightarrow> nat \<Rightarrow> unit res option" where
  "wait_loop ev st n =
     (case ev n of
        VmSignal \<Rightarrow> wait_loop ev st (n + 1)
      | VmChange s \<Rightarrow>
          if s = st then Some (Ok ())
          else if s = VmError then Some (Fail (ErrNew ''hypervisor virtualization error''))
          else wait_loop ev st (n + 1)
      | VmTimeout \<Rightarrow> Some (Fail (ErrNew ''timeout waiting for VM state'')))"

definition WaitForVMState ::
  "(nat \<Rightarrow> vm_event) \<Rightarrow> VirtualMachineStateType \<Rightarrow> VirtualMachineStateType \<Rightarrow> unit res option" where
  "WaitForVMState ev current st = (if current = st then Some (Ok ()) else wait_loop ev st 0)"

section \<open>Lemmas\<close>

lemma updateState_fields [simp]:
  "vmConn (updateState st m) = vmConn m" "vmMaxRetries (updateState st m) = vmMaxRetries m"
  "vmAttempts (updateState st m) = vmAttempts m" "vmState (updateState st m) = st"
  "vmClosed (updateState st m) = vmClosed m"
  by (simp_all add: updateState_def)

lemma dial_loop_terminates:
  assumes "0 < vmMaxRetries m" "int n < vmMaxRetries m"
  shows "\<exists>x m'. dial_loop E n lastErr m = Some (x, m') \<and> vmAttempts m' + n \<le> vmAttempts m + nat (vmMaxRetries m) \<and>
    (\<forall>h. x = Ok h \<longrightarrow> vmConn m' = Some h)"
  using assms
proof (induction "nat (vmMaxRetries m) - n" arbitrary: n lastErr m)
  case 0
  then show ?case by simp
next
  case (Suc k)
  show ?case
  proof (cases "deDone E n \<or> vmConn m \<noteq> None \<or> (\<exists>h. deConnect E n = Inr h) \<or> vmMaxRetries m \<le> int n + 1 \<or> deDoneWaiting E n")
    case True
    then show ?thesis
      using Suc.prems by (subst dial_loop.simps) (auto simp: Let_def NewManagedConnectionChild_def split: sum.split option.split)
  next
    case False
    then obtain e where e: "deConnect E n = Inl e" by (cases "deConnect E n") auto
    let ?m = "m\<lparr>vmAttempts := vmAttempts m + 1\<rparr>"
    have "dial_loop E n lastErr m = dial_loop E (n + 1) (Some e) ?m"
      using False e by (subst dial_loop.simps) (auto simp: Let_def)
    moreover have "k = nat (vmMaxRetries ?m) - (n + 1)" "0 < vmMaxRetries ?m" "int (n + 1) < vmMaxRetries ?m"
      using Suc.hyps(2) Suc.prems False by auto
    ultimately show ?thesis using Suc.hyps(1) [of ?m "n + 1" "Some e"] by auto
  qed
qed

lemma dial_loop_forever:
  assumes "\<forall>n. \<not> deDone E n \<and> \<not> deDoneWaiting E n \<and> (\<exists>e. deConnect E n = Inl e)"
    and "vmMaxRetries m \<le> 0" "vmConn m = None"
  shows "dial_loop E n lastErr m = None"
proof -
  let ?P = "\<lambda>F n l m y. F = E \<longrightarrow> vmMaxRetries m \<le> 0 \<longrightarrow> vmConn m \<noteq> None"
  have "?P F n l m y" if "dial_loop F n l m = Some y" for F n l m y
  proof (rule dial_loop.raw_induct [where P = ?P, OF _ that], goal_cases)
    case (1 f F n l m y)
    obtain e where "deConnect E n = Inl e" using assms(1) by blast
    with 1(1) [of F "n + 1" "Some e" "m\<lparr>vmAttempts := vmAttempts m + 1\<rparr>" y] 1(2) assms(1)
    show ?case by (auto simp: Let_def split: if_splits option.splits)
  qed
  then show ?thesis using assms(2,3) by (cases "dial_loop E n lastErr m") blast+
qed

lemma dial_loop_keeps:
  assumes "dial_loop E n lastErr m = Some (x, m')"
  shows "x = Ok h \<longrightarrow> vmConn m' = Some h"
proof -
  let ?P = "\<lambda>E n l m y. fst y = Ok h \<longrightarrow> vmConn (snd y) = Some h"
  have "?P E n lastErr m (x, m')"
  proof (rule dial_loop.raw_induct [where P = ?P, OF _ assms], goal_cases)
    case (1 f F n l m y)
    then show ?case by (auto simp: Let_def NewManagedConnectionChild_def split: if_splits option.splits sum.splits)
  qed
  then show ?thesis by simp
qed

lemma wait_loop_terminates:
  assumes "ev k = VmTimeout"
  shows "n \<le> k \<Longrightarrow> \<exists>x. wait_loop ev st n = Some x"
proof (induction "k - n" arbitrary: n)
  case 0
  then show ?case using assms by (subst wait_loop.simps) auto
next
  case (Suc d)
  then have IH: "\<exists>x. wait_loop ev st (n + 1) = Some x" by auto
  show ?case using IH by (subst wait_loop.simps) (auto split: vm_event.split)
qed

section \<open>Properties\<close>

text \<open>
  C28: Dialing the guest always comes to an end when the number of retries is limited: it makes
  at most that many attempts, and when it returns a connection that is the one the manager keeps. With no limit it
  never returns as long as no attempt succeeds and the context does not end.
\<close>

theorem dial_terminates:
  "(0 < vmMaxRetries m \<longrightarrow>
     (\<exists>x m'. VSockManager_Dial E m = Some (x, m') \<and> vmAttempts m' \<le> vmAttempts m + nat (vmMaxRetries m) \<and>
        (\<forall>h. x = Ok h \<longrightarrow> vmConn m' = Some h))) \<and>
   (vmMaxRetries m \<le> 0 \<and> vmConn m = None \<and>
      (\<forall>n. \<not> deDone E n \<and> \<not> deDoneWaiting E n \<and> (\<exists>e. deConnect E n = Inl e)) \<longrightarrow>
    VSockManager_Dial E m = None)"
  using dial_loop_terminates [of m 0 E None] dial_loop_forever [of E m 0 None]
  by (auto simp: VSockManager_Dial_def split: option.split)

text \<open>
  A manager never connects again: after the first successful dial every later dial returns that same
  connection, also when it has failed or has been closed and the state is disconnected.
\<close>

lemma dial_returns_stale:
  assumes "VSockManager_Dial E m = Some (Ok h, m')"
  shows "VSockManager_Dial E' (ManagedConnectionChild_Close h m') =
      Some (Ok h, ManagedConnectionChild_Close h m') \<and>
    vmState (ManagedConnectionChild_Close h m') = StateDisconnected \<and> h \<in> set (vmClosed (ManagedConnectionChild_Close h m'))"
proof -
  have "vmConn m' = Some h"
    using assms dial_loop_keeps [of E 0 None m "Ok h" m' h] by (auto simp: VSockManager_Dial_def split: option.splits)
  then show ?thesis by (simp add: VSockManager_Dial_def ManagedConnectionChild_Close_def Let_def)
qed

text \<open>Waiting for a state ends when the time limit is reached, at the latest.\<close>

lemma WaitForVMState_returns: "\<exists>k. ev k = VmTimeout \<Longrightarrow> \<exists>x. WaitForVMState ev current st = Some x"
  using wait_loop_terminates by (auto simp: WaitForVMState_def)

subsection \<open>Executions\<close>

definition refused :: ext_error where
  "refused = \<lparr>ext_text = ''refused'', ext_wraps = [], ext_is_ESRCH = False\<rparr>"

definition third_time :: dial_env where
  "third_time = \<lparr>deDone = \<lambda>_. False, deConnect = \<lambda>n. if n < 2 then Inl refused else Inr 8,
     deDoneWaiting = \<lambda>_. False, deCtxErr = refused\<rparr>"

lemma third_time_dials:
  "VSockManager_Dial third_time NewVSockManager =
     Some (Ok 8, NewVSockManager\<lparr>vmState := StateConnected, vmConn := Some 8, vmAttempts := 3\<rparr>)"
proof -
  have max: "vmMaxRetries NewVSockManager = 4000" "vmConn NewVSockManager = None" "vmAttempts NewVSockManager = 0"
    by (simp_all add: NewVSockManager_def DefaultMaxRetries_def)
  let ?m1 = "NewVSockManager\<lparr>vmAttempts := 1\<rparr>" and ?m2 = "NewVSockManager\<lparr>vmAttempts := 2\<rparr>"
  have "dial_loop third_time 0 None NewVSockManager = dial_loop third_time 1 (Some refused) ?m1"
    by (subst dial_loop.simps) (simp add: third_time_def max)
  also have "\<dots> = dial_loop third_time 2 (Some refused) ?m2"
    by (subst dial_loop.simps) (simp add: third_time_def max numeral_2_eq_2)
  also have "\<dots> = Some (Ok 8, NewVSockManager\<lparr>vmState := StateConnected, vmConn := Some 8, vmAttempts := 3\<rparr>)"
    by (subst dial_loop.simps)
      (simp add: third_time_def max NewManagedConnectionChild_def updateState_def NewVSockManager_def)
  finally show ?thesis by (simp add: VSockManager_Dial_def max)
qed

theorem dial_terminates_witness:
  "\<exists>x m'. VSockManager_Dial third_time NewVSockManager = Some (x, m') \<and> vmAttempts m' \<le> 4000"
  using dial_terminates [of NewVSockManager third_time] by (auto simp: NewVSockManager_def DefaultMaxRetries_def)


end
