(* ===== verification/Reaper.thy ===== *)
theory Reaper
  imports Prelude
begin

text \<open>
  Delivery of process exits (\<open>core/runc/runtime/gorunc/reaper/reaper_unix.go\<close>): reaping the children, and the monitor
  that sends every exit to every subscriber, each \<open>notify\<close> in a goroutine of its own. The steps of the
  goroutines and of the subscribers interleave; a step that has to block is not possible. At the end the way of the
  exits from the guest to the host (\<open>core/runc/server/event.go\<close> and \<open>core/runc/runtime/grpc/runtime.go\<close>).
\<close>

section \<open>Reaping\<close>

record runc_exit =
  rxPid :: int
  rxStatus :: int

text \<open>What the methods of a wait status return.\<close>

record wait_status =
  wsSignaled :: bool
  wsSignal :: int
  wsExitStatus :: int

definition exitSignalOffset :: int where
  "exitSignalOffset = 128"

definition exitStatus :: "wait_status \<Rightarrow> int" where
  "exitStatus ws = (if wsSignaled ws then exitSignalOffset + wsSignal ws else wsExitStatus ws)"

text \<open>The results of the successive calls of \<open>wait4\<close>; the first argument tells whether it may block.\<close>

datatype wait4_result = NoChild | Wait4Error ext_error | Waited int wait_status

partial_function (option) reap_loop ::
  "(nat \<Rightarrow> wait4_result) \<Rightarrow> nat \<Rightarrow> runc_exit list \<Rightarrow> (runc_exit list \<times> ext_error option) option" where
  "reap_loop W n exits =
     (case W n of
        NoChild \<Rightarrow> Some (exits, None)
      | Wait4Error e \<Rightarrow> Some (exits, Some e)
      | Waited pid ws \<Rightarrow>
          if pid \<le> 0 then Some (exits, None)
          else reap_loop W (n + 1) (exits @ [\<lparr>rxPid = pid, rxStatus = exitStatus ws\<rparr>]))"

definition reap :: "(bool \<Rightarrow> nat \<Rightarrow> wait4_result) \<Rightarrow> bool \<Rightarrow> (runc_exit list \<times> ext_error option) option" where
  "reap W wait = reap_loop (W wait) 0 []"

section \<open>The monitor\<close>

text \<open>
  A channel with its subscriber: what its reader has received, what is in its buffer, and whether it is closed. Every
  exit carries the number of the \<open>notify\<close> that sent it.
\<close>

record subscriber =
  sbReceived :: "(nat \<times> runc_exit) list"
  sbBuf :: "(nat \<times> runc_exit) list"
  sbClosed :: bool

text \<open>Where the goroutine of a \<open>notify\<close> is: before taking the subscribers, in a round over them, or at its end.\<close>

datatype notify_phase = NtLoop | NtRound | NtDone

text \<open>\<open>ntBorn\<close> is the number of channels there were when \<open>notify\<close> was called.\<close>

record notifier =
  ntExit :: runc_exit
  ntSuccess :: "nat list"
  ntTodo :: "nat list"
  ntFailed :: nat
  ntPhase :: notify_phase
  ntBorn :: nat

text \<open>Every channel ever made, by its number; the numbers of those in the map; every call of \<open>notify\<close>.\<close>

record monitor =
  mnChans :: "subscriber list"
  mnSubscribers :: "nat list"
  mnNotifiers :: "notifier list"

definition reaper_Default :: monitor where
  "reaper_Default = \<lparr>mnChans = [], mnSubscribers = [], mnNotifiers = []\<rparr>"

definition reaper_bufferSize :: nat where
  "reaper_bufferSize = 32"

definition subscriber_close :: "subscriber \<Rightarrow> subscriber" where
  "subscriber_close s = (if sbClosed s then s else s\<lparr>sbClosed := True\<rparr>)"

definition Monitor_Subscribe :: "monitor \<Rightarrow> nat \<times> monitor" where
  "Monitor_Subscribe m =
     (let c = length (mnChans m)
      in (c, m\<lparr>mnChans := mnChans m @ [\<lparr>sbReceived = [], sbBuf = [], sbClosed = False\<rparr>],
               mnSubscribers := mnSubscribers m @ [c]\<rparr>))"

definition Monitor_Unsubscribe :: "nat \<Rightarrow> monitor \<Rightarrow> monitor" where
  "Monitor_Unsubscribe c m =
     (if c \<notin> set (mnSubscribers m) then m
      else m\<lparr>mnChans := (mnChans m)[c := subscriber_close (mnChans m ! c)],
             mnSubscribers := removeAll c (mnSubscribers m)\<rparr>)"

definition getSubscribers :: "monitor \<Rightarrow> nat list" where
  "getSubscribers m = mnSubscribers m"

text \<open>\<open>Start\<close> subscribes before it starts the command.\<close>

definition Monitor_Start :: "ext_error option \<Rightarrow> monitor \<Rightarrow> nat res \<times> monitor" where
  "Monitor_Start err m =
     (let (c, m1) = Monitor_Subscribe m
      in case err of Some e \<Rightarrow> (Fail (Ext e), Monitor_Unsubscribe c m1) | None \<Rightarrow> (Ok c, m1))"

text \<open>The goroutine of \<open>notify\<close>: its start, the start of a round, one subscriber, the end of a round.\<close>

definition Monitor_notify :: "runc_exit \<Rightarrow> monitor \<Rightarrow> nat \<times> monitor" where
  "Monitor_notify e m =
     (length (mnNotifiers m),
      m\<lparr>mnNotifiers := mnNotifiers m @
          [\<lparr>ntExit = e, ntSuccess = [], ntTodo = [], ntFailed = 0, ntPhase = NtLoop, ntBorn = length (mnChans m)\<rparr>]\<rparr>)"

text \<open>A round visits the subscribers in an order of the map's choice.\<close>

definition notify_round :: "nat \<Rightarrow> nat list \<Rightarrow> monitor \<Rightarrow> monitor option" where
  "notify_round i order m =
     (if i < length (mnNotifiers m) \<and> ntPhase (mnNotifiers m ! i) = NtLoop \<and>
         distinct order \<and> set order = set (getSubscribers m)
      then Some (m\<lparr>mnNotifiers := (mnNotifiers m)
             [i := (mnNotifiers m ! i)\<lparr>ntTodo := order, ntFailed := 0, ntPhase := NtRound\<rparr>]\<rparr>)
      else None)"

text \<open>
  One subscriber, under its lock: a closed one or one that has the exit is passed over; otherwise the exit
  is sent, for which there has to be room, or the timer ends the attempt.
\<close>

definition notify_send :: "nat \<Rightarrow> bool \<Rightarrow> monitor \<Rightarrow> monitor option" where
  "notify_send i timeout m =
     (if i < length (mnNotifiers m) \<and> ntPhase (mnNotifiers m ! i) = NtRound then
        (let n = mnNotifiers m ! i
         in case ntTodo n of
              [] \<Rightarrow> None
            | c # cs \<Rightarrow>
                (let s = mnChans m ! c; n1 = n\<lparr>ntTodo := cs\<rparr>
                 in if sbClosed s then Some (m\<lparr>mnNotifiers := (mnNotifiers m)[i := n1]\<rparr>)
                    else if c \<in> set (ntSuccess n) then Some (m\<lparr>mnNotifiers := (mnNotifiers m)[i := n1]\<rparr>)
                    else if timeout then
                      Some (m\<lparr>mnNotifiers := (mnNotifiers m)[i := n1\<lparr>ntFailed := ntFailed n + 1\<rparr>]\<rparr>)
                    else if length (sbBuf s) < reaper_bufferSize then
                      Some (m\<lparr>mnChans := (mnChans m)[c := s\<lparr>sbBuf := sbBuf s @ [(i, ntExit n)]\<rparr>],
                              mnNotifiers := (mnNotifiers m)[i := n1\<lparr>ntSuccess := c # ntSuccess n\<rparr>]\<rparr>)
                    else None))
      else None)"

definition notify_end :: "nat \<Rightarrow> monitor \<Rightarrow> monitor option" where
  "notify_end i m =
     (if i < length (mnNotifiers m) \<and> ntPhase (mnNotifiers m ! i) = NtRound \<and> ntTodo (mnNotifiers m ! i) = []
      then Some (m\<lparr>mnNotifiers := (mnNotifiers m)
             [i := (mnNotifiers m ! i)\<lparr>ntPhase := if ntFailed (mnNotifiers m ! i) = 0 then NtDone else NtLoop\<rparr>]\<rparr>)
      else None)"

text \<open>A receive of the reader of a channel.\<close>

definition chan_receive :: "nat \<Rightarrow> monitor \<Rightarrow> monitor option" where
  "chan_receive c m =
     (if c < length (mnChans m) then
        (case sbBuf (mnChans m ! c) of
           [] \<Rightarrow> None
         | x # xs \<Rightarrow> Some (m\<lparr>mnChans := (mnChans m)
               [c := (mnChans m ! c)\<lparr>sbReceived := sbReceived (mnChans m ! c) @ [x], sbBuf := xs\<rparr>]\<rparr>))
      else None)"

text \<open>
  \<open>Wait\<close> on what its channel delivers: it reads up to the exit of its process, or to the end of a closed channel;
  \<open>None\<close> when it still waits.
\<close>

fun Monitor_Wait :: "int \<Rightarrow> runc_exit list \<Rightarrow> bool \<Rightarrow> (int \<times> go_error option) option" where
  "Monitor_Wait pid [] closed = (if closed then Some (- 1, Some (ErrNew ''no such process'')) else None)"
| "Monitor_Wait pid (e # es) closed =
     (if rxPid e = pid then Some (rxStatus e, None) else Monitor_Wait pid es closed)"

text \<open>\<open>WaitTimeout\<close> kills the process when the timer is first.\<close>

definition Monitor_WaitTimeout ::
  "bool \<Rightarrow> int \<Rightarrow> runc_exit list \<Rightarrow> bool \<Rightarrow> (int \<times> go_error option) option \<times> int list" where
  "Monitor_WaitTimeout timedOut pid es closed =
     (if timedOut then (Some (0, Some (ErrNew ''timeout for cmd'')), [pid])
      else (Monitor_Wait pid es closed, []))"

text \<open>The steps, and the steps of a call of \<open>Reap\<close>: it notifies of one exit after the other.\<close>

datatype monitor_action =
    ASubscribe
  | AUnsubscribe nat
  | AStart "ext_error option"
  | ANotify runc_exit
  | ARound nat "nat list"
  | ASend nat bool
  | AEnd nat
  | AReceive nat

fun monitor_act :: "monitor_action \<Rightarrow> monitor \<Rightarrow> monitor option" where
  "monitor_act ASubscribe m = Some (snd (Monitor_Subscribe m))"
| "monitor_act (AUnsubscribe c) m = Some (Monitor_Unsubscribe c m)"
| "monitor_act (AStart err) m = Some (snd (Monitor_Start err m))"
| "monitor_act (ANotify e) m = Some (snd (Monitor_notify e m))"
| "monitor_act (ARound i order) m = notify_round i order m"
| "monitor_act (ASend i timeout) m = notify_send i timeout m"
| "monitor_act (AEnd i) m = notify_end i m"
| "monitor_act (AReceive c) m = chan_receive c m"

definition Reap :: "(bool \<Rightarrow> nat \<Rightarrow> wait4_result) \<Rightarrow> (monitor_action list \<times> ext_error option) option" where
  "Reap W = map_option (\<lambda>(exits, err). (map ANotify exits, err)) (reap W False)"

definition monitor_step :: "monitor \<Rightarrow> monitor \<Rightarrow> bool" where
  "monitor_step m m' \<longleftrightarrow> (\<exists>a. monitor_act a m = Some m')"

fun monitor_run :: "monitor_action list \<Rightarrow> monitor \<Rightarrow> monitor option" where
  "monitor_run [] m = Some m"
| "monitor_run (a # as) m = (case monitor_act a m of None \<Rightarrow> None | Some m' \<Rightarrow> monitor_run as m')"

text \<open>What was sent on a channel.\<close>

definition chan_sent :: "monitor \<Rightarrow> nat \<Rightarrow> (nat \<times> runc_exit) list" where
  "chan_sent m c = sbReceived (mnChans m ! c) @ sbBuf (mnChans m ! c)"

section \<open>From the guest to the host\<close>

text \<open>The message of an exit; both numbers are cut to 32 bits.\<close>

record ReaperExit =
  reStatusField :: "32 word"
  rePidField :: "32 word"

definition exit_payload :: "runc_exit \<Rightarrow> ReaperExit" where
  "exit_payload e = \<lparr>reStatusField = word_of_int (rxStatus e), rePidField = word_of_int (rxPid e)\<rparr>"

definition payload_exit :: "ReaperExit \<Rightarrow> runc_exit" where
  "payload_exit p = \<lparr>rxPid = sint (rePidField p), rxStatus = sint (reStatusField p)\<rparr>"

text \<open>The server sends the exits of its channel in turn, up to an error of the stream.\<close>

fun server_forward :: "(nat \<Rightarrow> ext_error option) \<Rightarrow> nat \<Rightarrow> runc_exit list \<Rightarrow> ReaperExit list \<times> ext_error option" where
  "server_forward sendErr n [] = ([], None)"
| "server_forward sendErr n (e # es) =
     (case sendErr n of
        Some err \<Rightarrow> ([], Some err)
      | None \<Rightarrow> (let (ps, r) = server_forward sendErr (Suc n) es in (exit_payload e # ps, r)))"

definition Server_SubscribeToReaperExits ::
  "ext_error + runc_exit list \<Rightarrow> (nat \<Rightarrow> ext_error option) \<Rightarrow> ReaperExit list \<times> unit res" where
  "Server_SubscribeToReaperExits sub sendErr =
     (case sub of
        Inl e \<Rightarrow> ([], Fail (Wrapf ''failed to subscribe to reaper exits: '' (Ext e)))
      | Inr exits \<Rightarrow> (let (ps, r) = server_forward sendErr 0 exits in (ps, of_opt r)))"

text \<open>
  The client puts what it receives into a channel and stops at the first error. The test of the error is
  \<open>errors.As(err, &io.EOF)\<close>: every error matches the type of the target, and a match is stored in the target, so
  that the variable \<open>io.EOF\<close> of the program, the second argument, gets the error as its new value.
\<close>

fun client_forward :: "(ext_error + ReaperExit) list \<Rightarrow> ext_error \<Rightarrow> runc_exit list \<times> ext_error" where
  "client_forward [] eof = ([], eof)"
| "client_forward (Inl e # rs) eof = ([], e)"
| "client_forward (Inr p # rs) eof = (let (es, eof') = client_forward rs eof in (payload_exit p # es, eof'))"

definition Client_SubscribeToReaperExits ::
  "ext_error option \<Rightarrow> (ext_error + ReaperExit) list \<Rightarrow> ext_error \<Rightarrow> runc_exit list res \<times> ext_error" where
  "Client_SubscribeToReaperExits err rs eof =
     (case err of
        Some e \<Rightarrow> (Fail (Wrapf ''subscribing to reaper exits: '' (Ext e)), eof)
      | None \<Rightarrow> (let (es, eof') = client_forward rs eof in (Ok es, eof')))"

section \<open>The invariant\<close>

text \<open>The map holds the open channels.\<close>

definition subscribers_ok :: "monitor \<Rightarrow> bool" where
  "subscribers_ok m \<longleftrightarrow> distinct (mnSubscribers m) \<and>
     (\<forall>c. c \<in> set (mnSubscribers m) \<longleftrightarrow> c < length (mnChans m) \<and> \<not> sbClosed (mnChans m ! c))"

text \<open>What is on a channel came from a \<open>notify\<close>, once, and fits into the buffer.\<close>

definition sent_ok :: "monitor \<Rightarrow> bool" where
  "sent_ok m \<longleftrightarrow> (\<forall>c < length (mnChans m). distinct (map fst (chan_sent m c)) \<and>
     length (sbBuf (mnChans m ! c)) \<le> reaper_bufferSize \<and>
     (\<forall>(i, e) \<in> set (chan_sent m c). i < length (mnNotifiers m) \<and> e = ntExit (mnNotifiers m ! i)))"

text \<open>A \<open>notify\<close> remembers the channels it has sent to.\<close>

definition success_ok :: "monitor \<Rightarrow> bool" where
  "success_ok m \<longleftrightarrow> (\<forall>i < length (mnNotifiers m). \<forall>c. c \<in> set (ntSuccess (mnNotifiers m ! i)) \<longleftrightarrow>
     c < length (mnChans m) \<and> i \<in> fst ` set (chan_sent m c))"

text \<open>In a round an open channel has the exit, is still to come, or has been given up for this round.\<close>

definition progress_ok :: "subscriber list \<Rightarrow> notifier \<Rightarrow> bool" where
  "progress_ok cs n \<longleftrightarrow> ntBorn n \<le> length cs \<and>
     (ntPhase n = NtRound \<longrightarrow> (\<forall>c \<in> set (ntTodo n). c < length cs) \<and>
        (\<forall>c < ntBorn n. \<not> sbClosed (cs ! c) \<longrightarrow> c \<in> set (ntSuccess n) \<or> c \<in> set (ntTodo n) \<or> 0 < ntFailed n)) \<and>
     (ntPhase n = NtDone \<longrightarrow> (\<forall>c < ntBorn n. \<not> sbClosed (cs ! c) \<longrightarrow> c \<in> set (ntSuccess n)))"

definition monitor_inv :: "monitor \<Rightarrow> bool" where
  "monitor_inv m \<longleftrightarrow> subscribers_ok m \<and> sent_ok m \<and> success_ok m \<and>
     (\<forall>i < length (mnNotifiers m). progress_ok (mnChans m) (mnNotifiers m ! i))"

lemmas monitor_inv_defs = monitor_inv_def subscribers_ok_def sent_ok_def success_ok_def chan_sent_def

lemma subscriber_close_fields [simp]:
  "sbClosed (subscriber_close s)" "sbBuf (subscriber_close s) = sbBuf s" "sbReceived (subscriber_close s) = sbReceived s"
  by (simp_all add: subscriber_close_def)

text \<open>More channels, and channels that were closed, leave a \<open>notify\<close> where it is.\<close>

lemma progress_ok_mono:
  assumes "progress_ok cs n" "length cs \<le> length ds"
    and "\<And>c. c < length cs \<Longrightarrow> \<not> sbClosed (ds ! c) \<Longrightarrow> \<not> sbClosed (cs ! c)"
  shows "progress_ok ds n"
  using assms unfolding progress_ok_def by (meson le_trans less_le_trans)

text \<open>What was sent stays as it is: new channels are empty, and no exit changes.\<close>

lemma sent_ok_frame:
  assumes "sent_ok m" "length (mnNotifiers m) \<le> length (mnNotifiers m')"
    and sent: "\<And>c. c < length (mnChans m') \<Longrightarrow> chan_sent m' c = [] \<or> c < length (mnChans m) \<and>
          chan_sent m' c = chan_sent m c \<and> length (sbBuf (mnChans m' ! c)) \<le> length (sbBuf (mnChans m ! c))"
    and exits: "\<And>i. i < length (mnNotifiers m) \<Longrightarrow> ntExit (mnNotifiers m' ! i) = ntExit (mnNotifiers m ! i)"
  shows "sent_ok m'"
  unfolding sent_ok_def
proof (intro allI impI, goal_cases)
  case (1 c)
  show ?case
  proof (cases "chan_sent m' c = []")
    case True
    then show ?thesis by (simp add: chan_sent_def)
  next
    case False
    then have c: "c < length (mnChans m)" "chan_sent m' c = chan_sent m c"
        "length (sbBuf (mnChans m' ! c)) \<le> length (sbBuf (mnChans m ! c))"
      using sent [OF 1] by auto
    have old: "distinct (map fst (chan_sent m c))" "length (sbBuf (mnChans m ! c)) \<le> reaper_bufferSize"
        "\<And>i e. (i, e) \<in> set (chan_sent m c) \<Longrightarrow> i < length (mnNotifiers m) \<and> e = ntExit (mnNotifiers m ! i)"
      using assms(1) c(1) unfolding sent_ok_def by auto
    have "i < length (mnNotifiers m') \<and> e = ntExit (mnNotifiers m' ! i)" if "(i, e) \<in> set (chan_sent m c)" for i e
      using old(3) [OF that] assms(2) exits [of i] by simp
    then show ?thesis using old(1,2) c by auto
  qed
qed

text \<open>
  A step on the channels alone: new ones are empty, of the others what was sent on them stays, and none is opened again.
\<close>

lemma channels_inv:
  assumes "monitor_inv m" "subscribers_ok m'" "mnNotifiers m' = mnNotifiers m" "length (mnChans m) \<le> length (mnChans m')"
    and old: "\<And>c. c < length (mnChans m) \<Longrightarrow> chan_sent m' c = chan_sent m c \<and>
          length (sbBuf (mnChans m' ! c)) \<le> length (sbBuf (mnChans m ! c)) \<and>
          (\<not> sbClosed (mnChans m' ! c) \<longrightarrow> \<not> sbClosed (mnChans m ! c))"
    and new: "\<And>c. length (mnChans m) \<le> c \<Longrightarrow> c < length (mnChans m') \<Longrightarrow> chan_sent m' c = []"
  shows "monitor_inv m'"
proof -
  note parts = assms(1) [unfolded monitor_inv_def]
  have frame: "chan_sent m' c = [] \<or> c < length (mnChans m) \<and>
      chan_sent m' c = chan_sent m c \<and> length (sbBuf (mnChans m' ! c)) \<le> length (sbBuf (mnChans m ! c))"
    if "c < length (mnChans m')" for c
    using old [of c] new [OF _ that] by (cases "c < length (mnChans m)") auto
  have "sent_ok m" using parts by simp
  then have "sent_ok m'" by (rule sent_ok_frame) (use frame in \<open>simp_all add: assms(3)\<close>)
  moreover have "success_ok m'"
    unfolding success_ok_def assms(3)
  proof (intro allI impI, goal_cases)
    case (1 i c)
    then have "c \<in> set (ntSuccess (mnNotifiers m ! i)) \<longleftrightarrow> c < length (mnChans m) \<and> i \<in> fst ` set (chan_sent m c)"
      using parts by (simp add: success_ok_def)
    then show ?case using old [of c] new [of c] assms(4) by (cases "c < length (mnChans m)") auto
  qed
  moreover have "progress_ok (mnChans m') n" if "progress_ok (mnChans m) n" for n
    using that assms(4) by (rule progress_ok_mono) (use old in blast)
  ultimately show ?thesis using parts assms(2,3) by (simp add: monitor_inv_def)
qed

lemma Subscribe_inv:
  assumes "monitor_inv m"
  shows "monitor_inv (snd (Monitor_Subscribe m))"
proof (rule channels_inv [OF assms])
  show "subscribers_ok (snd (Monitor_Subscribe m))"
    using assms by (auto simp: monitor_inv_def subscribers_ok_def Monitor_Subscribe_def Let_def nth_append less_Suc_eq)
qed (auto simp: Monitor_Subscribe_def Let_def nth_append chan_sent_def)

lemma Unsubscribe_inv:
  assumes "monitor_inv m"
  shows "monitor_inv (Monitor_Unsubscribe c m)"
proof (rule channels_inv [OF assms])
  show "subscribers_ok (Monitor_Unsubscribe c m)"
    using assms by (auto simp: monitor_inv_def subscribers_ok_def Monitor_Unsubscribe_def nth_list_update distinct_removeAll)
next
  have "c < length (mnChans m)" if "c \<in> set (mnSubscribers m)"
    using assms that by (simp add: monitor_inv_def subscribers_ok_def)
  then show "chan_sent (Monitor_Unsubscribe c m) d = chan_sent m d \<and>
      length (sbBuf (mnChans (Monitor_Unsubscribe c m) ! d)) \<le> length (sbBuf (mnChans m ! d)) \<and>
      (\<not> sbClosed (mnChans (Monitor_Unsubscribe c m) ! d) \<longrightarrow> \<not> sbClosed (mnChans m ! d))" for d
    by (auto simp: Monitor_Unsubscribe_def nth_list_update chan_sent_def)
qed (auto simp: Monitor_Unsubscribe_def split: if_splits)

lemma Start_inv: "monitor_inv m \<Longrightarrow> monitor_inv (snd (Monitor_Start err m))"
  using Subscribe_inv [of m] Unsubscribe_inv
  by (auto simp: Monitor_Start_def split: prod.split option.split)

lemma receive_inv:
  assumes "monitor_inv m" "chan_receive c m = Some m'"
  shows "monitor_inv m'"
proof -
  obtain x xs where c: "c < length (mnChans m)" "sbBuf (mnChans m ! c) = x # xs"
    and m': "m' = m\<lparr>mnChans := (mnChans m)
               [c := (mnChans m ! c)\<lparr>sbReceived := sbReceived (mnChans m ! c) @ [x], sbBuf := xs\<rparr>]\<rparr>"
    using assms(2) by (auto simp: chan_receive_def split: if_splits list.splits)
  show ?thesis
  proof (rule channels_inv [OF assms(1)])
    show "subscribers_ok m'"
      using assms(1) c(1) by (simp add: m' monitor_inv_def subscribers_ok_def nth_list_update)
  qed (use c in \<open>auto simp: m' nth_list_update chan_sent_def\<close>)
qed

lemma notify_inv:
  assumes "monitor_inv m"
  shows "monitor_inv (snd (Monitor_notify e m))"
proof -
  let ?m = "snd (Monitor_notify e m)"
  note parts = assms [unfolded monitor_inv_def]
  have "subscribers_ok ?m" using parts by (simp add: subscribers_ok_def Monitor_notify_def)
  moreover have "sent_ok ?m"
    by (rule sent_ok_frame [of m]) (use parts in \<open>simp_all add: chan_sent_def Monitor_notify_def nth_append\<close>)
  moreover have "length (mnNotifiers m) \<notin> fst ` set (chan_sent m c)" if "c < length (mnChans m)" for c
    using parts that by (fastforce simp: sent_ok_def)
  then have "success_ok ?m"
    using parts by (auto simp: success_ok_def chan_sent_def Monitor_notify_def nth_append less_Suc_eq)
  moreover have "\<forall>i < length (mnNotifiers ?m). progress_ok (mnChans ?m) (mnNotifiers ?m ! i)"
    using parts by (simp add: Monitor_notify_def nth_append less_Suc_eq progress_ok_def)
  ultimately show ?thesis by (simp add: monitor_inv_def)
qed

text \<open>A step of a \<open>notify\<close> that sends nothing.\<close>

lemma notifier_update_inv:
  assumes "monitor_inv m" "i < length (mnNotifiers m)"
    and "ntSuccess n = ntSuccess (mnNotifiers m ! i)" "ntExit n = ntExit (mnNotifiers m ! i)"
    and "progress_ok (mnChans m) n"
  shows "monitor_inv (m\<lparr>mnNotifiers := (mnNotifiers m)[i := n]\<rparr>)"
proof -
  let ?m = "m\<lparr>mnNotifiers := (mnNotifiers m)[i := n]\<rparr>"
  note parts = assms(1) [unfolded monitor_inv_def]
  have nth: "ntSuccess ((mnNotifiers m)[i := n] ! j) = ntSuccess (mnNotifiers m ! j)"
      "ntExit ((mnNotifiers m)[i := n] ! j) = ntExit (mnNotifiers m ! j)" for j
    using assms(2-4) by (cases "j = i"; simp)+
  have "subscribers_ok ?m" "sent_ok ?m" "success_ok ?m"
    using parts by (simp_all add: subscribers_ok_def sent_ok_def success_ok_def chan_sent_def nth)
  moreover have "progress_ok (mnChans m) ((mnNotifiers m)[i := n] ! j)" if "j < length (mnNotifiers m)" for j
    using parts assms(5) that by (cases "j = i") simp_all
  ultimately show ?thesis by (simp add: monitor_inv_def)
qed

lemma inv_progress: "monitor_inv m \<Longrightarrow> i < length (mnNotifiers m) \<Longrightarrow> progress_ok (mnChans m) (mnNotifiers m ! i)"
  by (simp add: monitor_inv_def)

lemma round_inv:
  assumes "monitor_inv m" "notify_round i order m = Some m'"
  shows "monitor_inv m'"
proof -
  have i: "i < length (mnNotifiers m)" "set order = set (mnSubscribers m)"
    and m': "m' = m\<lparr>mnNotifiers := (mnNotifiers m)
             [i := (mnNotifiers m ! i)\<lparr>ntTodo := order, ntFailed := 0, ntPhase := NtRound\<rparr>]\<rparr>"
    using assms(2) by (auto simp: notify_round_def getSubscribers_def split: if_splits)
  have "\<forall>c. c \<in> set order \<longleftrightarrow> c < length (mnChans m) \<and> \<not> sbClosed (mnChans m ! c)"
    using assms(1) i(2) by (simp add: monitor_inv_def subscribers_ok_def)
  then show ?thesis
    unfolding m' using assms(1) i(1) inv_progress [OF assms(1) i(1)]
    by (intro notifier_update_inv) (auto simp: progress_ok_def)
qed

lemma end_inv:
  assumes "monitor_inv m" "notify_end i m = Some m'"
  shows "monitor_inv m'"
proof -
  have i: "i < length (mnNotifiers m)" "ntPhase (mnNotifiers m ! i) = NtRound" "ntTodo (mnNotifiers m ! i) = []"
    and m': "m' = m\<lparr>mnNotifiers := (mnNotifiers m)
             [i := (mnNotifiers m ! i)\<lparr>ntPhase := if ntFailed (mnNotifiers m ! i) = 0 then NtDone else NtLoop\<rparr>]\<rparr>"
    using assms(2) by (auto simp: notify_end_def split: if_splits)
  show ?thesis
    unfolding m' using assms(1) i inv_progress [OF assms(1) i(1)]
    by (intro notifier_update_inv) (auto simp: progress_ok_def)
qed

text \<open>A send: the channel gets the exit, and the \<open>notify\<close> remembers it.\<close>

lemma delivery_inv:
  assumes "monitor_inv m" "i < length (mnNotifiers m)" "c < length (mnChans m)"
    and "c \<notin> set (ntSuccess (mnNotifiers m ! i))" "length (sbBuf (mnChans m ! c)) < reaper_bufferSize"
    and "n = (mnNotifiers m ! i)\<lparr>ntTodo := cs, ntSuccess := c # ntSuccess (mnNotifiers m ! i)\<rparr>"
    and "progress_ok (mnChans m) n"
  shows "monitor_inv (m\<lparr>mnChans := (mnChans m)[c := (mnChans m ! c)\<lparr>sbBuf := sbBuf (mnChans m ! c) @ [(i, ntExit (mnNotifiers m ! i))]\<rparr>],
      mnNotifiers := (mnNotifiers m)[i := n]\<rparr>)" (is "monitor_inv ?m")
proof -
  note parts = assms(1) [unfolded monitor_inv_def]
  have sent: "chan_sent ?m d = chan_sent m d @ (if d = c then [(i, ntExit (mnNotifiers m ! i))] else [])"
    if "d < length (mnChans m)" for d
    using assms(3) that by (simp add: chan_sent_def nth_list_update)
  have closed: "sbClosed (mnChans ?m ! d) = sbClosed (mnChans m ! d)" for d
    using assms(3) by (simp add: nth_list_update)
  have exit: "ntExit (mnNotifiers ?m ! j) = ntExit (mnNotifiers m ! j)" for j
    using assms(2,6) by (cases "j = i") simp_all
  have succ: "d \<in> set (ntSuccess (mnNotifiers ?m ! j)) \<longleftrightarrow> d \<in> set (ntSuccess (mnNotifiers m ! j)) \<or> j = i \<and> d = c" for d j
    using assms(2,6) by (cases "j = i") auto
  have fresh: "i \<notin> fst ` set (chan_sent m c)"
    using parts assms(2-4) by (simp add: success_ok_def)
  have "subscribers_ok ?m" using parts closed by (simp add: subscribers_ok_def)
  moreover have "sent_ok ?m"
    unfolding sent_ok_def
  proof (intro allI impI, goal_cases)
    case (1 d)
    then have d: "d < length (mnChans m)" by simp
    then have "distinct (map fst (chan_sent m d))" "length (sbBuf (mnChans m ! d)) \<le> reaper_bufferSize"
        "\<forall>(j, e) \<in> set (chan_sent m d). j < length (mnNotifiers m) \<and> e = ntExit (mnNotifiers m ! j)"
      using parts by (simp_all add: sent_ok_def)
    moreover have "length (sbBuf (mnChans ?m ! d)) \<le> reaper_bufferSize"
      using calculation(2) assms(3,5) by (auto simp: nth_list_update)
    ultimately show ?case unfolding exit sent [OF d] using assms(2) fresh by (auto simp: image_iff)
  qed
  moreover have "success_ok ?m"
    unfolding success_ok_def
  proof (intro allI impI, goal_cases)
    case (1 j d)
    then have "d \<in> set (ntSuccess (mnNotifiers m ! j)) \<longleftrightarrow> d < length (mnChans m) \<and> j \<in> fst ` set (chan_sent m d)"
      using parts by (simp add: success_ok_def)
    then show ?case unfolding succ using sent [of d] assms(3) by auto
  qed
  moreover have "progress_ok (mnChans ?m) (mnNotifiers ?m ! j)" if "j < length (mnNotifiers m)" for j
  proof (rule progress_ok_mono)
    show "progress_ok (mnChans m) (mnNotifiers ?m ! j)" using parts that assms(7) by (cases "j = i") simp_all
  qed (use closed in simp_all)
  ultimately show ?thesis by (simp add: monitor_inv_def)
qed

lemma send_inv:
  assumes "monitor_inv m" "notify_send i timeout m = Some m'"
  shows "monitor_inv m'"
proof -
  let ?n = "mnNotifiers m ! i"
  obtain c cs where i: "i < length (mnNotifiers m)" "ntPhase ?n = NtRound" "ntTodo ?n = c # cs"
    using assms(2) by (auto simp: notify_send_def Let_def split: if_splits list.splits)
  note p = inv_progress [OF assms(1) i(1)]
  have c: "c < length (mnChans m)" using p i by (simp add: progress_ok_def)
  let ?n1 = "?n\<lparr>ntTodo := cs\<rparr>"
  consider "sbClosed (mnChans m ! c) \<or> c \<in> set (ntSuccess ?n)" "m' = m\<lparr>mnNotifiers := (mnNotifiers m)[i := ?n1]\<rparr>"
    | "m' = m\<lparr>mnNotifiers := (mnNotifiers m)[i := ?n1\<lparr>ntFailed := ntFailed ?n + 1\<rparr>]\<rparr>"
    | "c \<notin> set (ntSuccess ?n)" "length (sbBuf (mnChans m ! c)) < reaper_bufferSize"
      "m' = m\<lparr>mnChans := (mnChans m)[c := (mnChans m ! c)\<lparr>sbBuf := sbBuf (mnChans m ! c) @ [(i, ntExit ?n)]\<rparr>],
              mnNotifiers := (mnNotifiers m)[i := ?n\<lparr>ntTodo := cs, ntSuccess := c # ntSuccess ?n\<rparr>]\<rparr>"
    using assms(2) i by (auto simp: notify_send_def Let_def split: if_splits)
  then show ?thesis
  proof cases
    case 1
    have "progress_ok (mnChans m) ?n1" using 1(1) p i by (auto simp: progress_ok_def)
    then show ?thesis unfolding 1(2) by (intro notifier_update_inv [OF assms(1) i(1)]) simp_all
  next
    case 2
    have "progress_ok (mnChans m) (?n1\<lparr>ntFailed := ntFailed ?n + 1\<rparr>)" using p i by (auto simp: progress_ok_def)
    then show ?thesis unfolding 2 by (intro notifier_update_inv [OF assms(1) i(1)]) simp_all
  next
    case 3
    have "progress_ok (mnChans m) (?n\<lparr>ntTodo := cs, ntSuccess := c # ntSuccess ?n\<rparr>)" using p i by (auto simp: progress_ok_def)
    then show ?thesis unfolding 3(3) by (intro delivery_inv [OF assms(1) i(1) c 3(1,2)]) simp_all
  qed
qed

lemma monitor_act_inv: "monitor_act a m = Some m' \<Longrightarrow> monitor_inv m \<Longrightarrow> monitor_inv m'"
  by (cases a) (auto intro: Subscribe_inv Unsubscribe_inv Start_inv notify_inv round_inv send_inv end_inv receive_inv)

lemma Default_inv: "monitor_inv reaper_Default"
  by (simp add: reaper_Default_def monitor_inv_defs)

interpretation monitor_life: inductive_invariant "\<lambda>m. m = reaper_Default" monitor_step monitor_inv
  by unfold_locales (auto simp: monitor_step_def Default_inv intro: monitor_act_inv)

section \<open>Lemmas\<close>

text \<open>The cases of a step of \<open>notify\<close> at a subscriber.\<close>

lemma notify_sendE:
  assumes "notify_send i timeout m = Some m'"
  obtains (skip) c cs n where "i < length (mnNotifiers m)" "ntTodo (mnNotifiers m ! i) = c # cs"
      "ntExit n = ntExit (mnNotifiers m ! i)" "ntBorn n = ntBorn (mnNotifiers m ! i)"
      "ntSuccess n = ntSuccess (mnNotifiers m ! i)" "m' = m\<lparr>mnNotifiers := (mnNotifiers m)[i := n]\<rparr>"
    | (send) c cs n where "i < length (mnNotifiers m)" "ntTodo (mnNotifiers m ! i) = c # cs"
      "ntExit n = ntExit (mnNotifiers m ! i)" "ntBorn n = ntBorn (mnNotifiers m ! i)"
      "ntSuccess n = c # ntSuccess (mnNotifiers m ! i)"
      "\<not> sbClosed (mnChans m ! c)" "length (sbBuf (mnChans m ! c)) < reaper_bufferSize"
      "m' = m\<lparr>mnChans := (mnChans m)[c := (mnChans m ! c)\<lparr>sbBuf := sbBuf (mnChans m ! c) @ [(i, ntExit n)]\<rparr>],
              mnNotifiers := (mnNotifiers m)[i := n]\<rparr>"
proof -
  let ?n = "mnNotifiers m ! i"
  obtain c cs where i: "i < length (mnNotifiers m)" "ntTodo ?n = c # cs"
    using assms by (auto simp: notify_send_def Let_def split: if_splits list.splits)
  consider "m' = m\<lparr>mnNotifiers := (mnNotifiers m)[i := ?n\<lparr>ntTodo := cs\<rparr>]\<rparr>"
    | "m' = m\<lparr>mnNotifiers := (mnNotifiers m)[i := ?n\<lparr>ntTodo := cs, ntFailed := ntFailed ?n + 1\<rparr>]\<rparr>"
    | "\<not> sbClosed (mnChans m ! c)" "length (sbBuf (mnChans m ! c)) < reaper_bufferSize"
      "m' = m\<lparr>mnChans := (mnChans m)[c := (mnChans m ! c)\<lparr>sbBuf := sbBuf (mnChans m ! c) @ [(i, ntExit ?n)]\<rparr>],
              mnNotifiers := (mnNotifiers m)[i := ?n\<lparr>ntTodo := cs, ntSuccess := c # ntSuccess ?n\<rparr>]\<rparr>"
    using assms i by (auto simp: notify_send_def Let_def split: if_splits)
  then show thesis
  proof cases
    case 1
    show ?thesis by (rule skip [OF i _ _ _ 1]) simp_all
  next
    case 2
    show ?thesis by (rule skip [OF i _ _ _ 2]) simp_all
  next
    case 3
    show ?thesis by (rule send [of c cs "?n\<lparr>ntTodo := cs, ntSuccess := c # ntSuccess ?n\<rparr>"]) (use i 3 in simp_all)
  qed
qed

text \<open>A call of \<open>notify\<close> keeps its exit and the number of channels it found.\<close>

lemma act_notifier_frame:
  assumes "monitor_act a m = Some m'" "i < length (mnNotifiers m)"
  shows "i < length (mnNotifiers m') \<and> ntExit (mnNotifiers m' ! i) = ntExit (mnNotifiers m ! i) \<and>
    ntBorn (mnNotifiers m' ! i) = ntBorn (mnNotifiers m ! i)"
proof (cases a)
  case (ASend j timeout)
  with assms have "notify_send j timeout m = Some m'" by simp
  then show ?thesis using assms(2) by (cases rule: notify_sendE) (auto simp: nth_list_update)
qed (use assms in \<open>auto simp: Monitor_Subscribe_def Monitor_Unsubscribe_def Monitor_Start_def Monitor_notify_def Let_def
    notify_round_def notify_end_def chan_receive_def nth_append nth_list_update split: if_splits option.splits list.splits\<close>)

lemma steps_notifier_frame:
  assumes "monitor_step\<^sup>*\<^sup>* m m'" "i < length (mnNotifiers m)"
  shows "i < length (mnNotifiers m') \<and> ntExit (mnNotifiers m' ! i) = ntExit (mnNotifiers m ! i) \<and>
    ntBorn (mnNotifiers m' ! i) = ntBorn (mnNotifiers m ! i)"
  using assms(1) by (induction rule: rtranclp_induct) (use assms(2) act_notifier_frame in \<open>force simp: monitor_step_def\<close>)+

text \<open>Channels are never forgotten, and a closed channel stays as it is apart from its reader.\<close>

lemma act_channel_frame:
  assumes "monitor_act a m = Some m'" "c < length (mnChans m)"
  shows "c < length (mnChans m') \<and>
    (sbClosed (mnChans m ! c) \<longrightarrow> sbClosed (mnChans m' ! c) \<and> chan_sent m' c = chan_sent m c)"
proof (cases a)
  case (ASend j timeout)
  with assms have "notify_send j timeout m = Some m'" by simp
  then show ?thesis
  proof (cases rule: notify_sendE)
    case (send d cs n)
    then show ?thesis using assms(2) by (cases "d = c") (auto simp: chan_sent_def)
  qed (use assms(2) in \<open>simp add: chan_sent_def\<close>)
next
  case (AUnsubscribe d)
  with assms show ?thesis by (cases "d = c") (auto simp: Monitor_Unsubscribe_def chan_sent_def)
qed (use assms in \<open>auto simp: Monitor_Subscribe_def Monitor_Unsubscribe_def Monitor_Start_def Monitor_notify_def Let_def
    notify_round_def notify_end_def chan_receive_def chan_sent_def nth_append nth_list_update
    split: if_splits option.splits list.splits\<close>)

lemma steps_channel_frame: "monitor_step\<^sup>*\<^sup>* m m' \<Longrightarrow> c < length (mnChans m) \<Longrightarrow> c < length (mnChans m')"
  by (induction rule: rtranclp_induct) (auto simp: monitor_step_def dest: act_channel_frame)

lemma done_delivered:
  assumes "monitor_inv m" "i < length (mnNotifiers m)" "ntPhase (mnNotifiers m ! i) = NtDone"
    and "c < ntBorn (mnNotifiers m ! i)" "\<not> sbClosed (mnChans m ! c)"
  shows "(i, ntExit (mnNotifiers m ! i)) \<in> set (chan_sent m c)"
proof -
  have "c \<in> set (ntSuccess (mnNotifiers m ! i))"
    using assms inv_progress [OF assms(1,2)] by (simp add: progress_ok_def)
  then have c: "c < length (mnChans m)" "i \<in> fst ` set (chan_sent m c)"
    using assms(1,2) by (simp_all add: monitor_inv_def success_ok_def)
  obtain e where e: "(i, e) \<in> set (chan_sent m c)" using c(2) by (auto simp: image_iff)
  have "sent_ok m" using assms(1) by (simp add: monitor_inv_def)
  then have "e = ntExit (mnNotifiers m ! i)" using c(1) e unfolding sent_ok_def by blast
  with e show ?thesis by simp
qed

lemma Wait_finds:
  "\<exists>e \<in> set es. rxPid e = pid \<Longrightarrow> \<forall>e \<in> set es. rxPid e = pid \<longrightarrow> rxStatus e = st \<Longrightarrow>
   Monitor_Wait pid es closed = Some (st, None)"
  by (induction es) auto

text \<open>A full channel that nobody reads and nobody unsubscribes, and a \<open>notify\<close> that has not reached it.\<close>

definition abandoned :: "nat \<Rightarrow> nat \<Rightarrow> monitor \<Rightarrow> bool" where
  "abandoned c i m \<longleftrightarrow> c < length (mnChans m) \<and> \<not> sbClosed (mnChans m ! c) \<and>
     length (sbBuf (mnChans m ! c)) = reaper_bufferSize \<and> i < length (mnNotifiers m) \<and>
     c < ntBorn (mnNotifiers m ! i) \<and> c \<notin> set (ntSuccess (mnNotifiers m ! i))"

lemma abandoned_act:
  assumes "monitor_act a m = Some m'" "a \<noteq> AReceive c" "a \<noteq> AUnsubscribe c" "abandoned c i m"
  shows "abandoned c i m'"
proof (cases a)
  case (ASend j timeout)
  with assms have "notify_send j timeout m = Some m'" by simp
  then show ?thesis
  proof (cases rule: notify_sendE)
    case (send d cs n)
    then have "d \<noteq> c" using assms(4) by (auto simp: abandoned_def)
    with send show ?thesis using assms(4) by (auto simp: nth_list_update abandoned_def)
  qed (use assms(4) in \<open>auto simp: nth_list_update abandoned_def\<close>)
qed (use assms in \<open>auto simp: abandoned_def Monitor_Subscribe_def Monitor_Unsubscribe_def Monitor_Start_def Monitor_notify_def
    Let_def notify_round_def notify_end_def chan_receive_def nth_append nth_list_update
    split: if_splits option.splits list.splits\<close>)

lemma abandoned_run:
  "monitor_run as m = Some m' \<Longrightarrow> AReceive c \<notin> set as \<Longrightarrow> AUnsubscribe c \<notin> set as \<Longrightarrow> abandoned c i m \<Longrightarrow>
   monitor_inv m \<Longrightarrow> abandoned c i m' \<and> monitor_inv m'"
proof (induction as arbitrary: m)
  case (Cons a as)
  then obtain m1 where m1: "monitor_act a m = Some m1" "monitor_run as m1 = Some m'"
    by (auto split: option.splits)
  have "abandoned c i m1" by (rule abandoned_act [OF m1(1)]) (use Cons.prems in auto)
  moreover have "monitor_inv m1" by (rule monitor_act_inv [OF m1(1) Cons.prems(5)])
  ultimately show ?case using Cons.IH [OF m1(2)] Cons.prems(2,3) by simp
qed simp

lemma abandoned_not_done:
  assumes "abandoned c i m" "monitor_inv m"
  shows "ntPhase (mnNotifiers m ! i) \<noteq> NtDone"
  using assms inv_progress [OF assms(2), of i] by (auto simp: abandoned_def progress_ok_def)

lemma monitor_run_steps: "monitor_run as m = Some m' \<Longrightarrow> monitor_step\<^sup>*\<^sup>* m m'"
proof (induction as arbitrary: m)
  case (Cons a as)
  then obtain m1 where m1: "monitor_act a m = Some m1" "monitor_run as m1 = Some m'"
    by (auto split: option.splits)
  then have "monitor_step m m1" by (auto simp: monitor_step_def)
  with Cons.IH [OF m1(2)] show ?case by (rule converse_rtranclp_into_rtranclp [rotated])
qed simp

lemma monitor_run_reachable:
  "monitor_run as reaper_Default = Some m \<Longrightarrow> reachable (\<lambda>m. m = reaper_Default) monitor_step m"
  by (rule reachable_rtranclp [OF reachable.at_start monitor_run_steps]) simp_all

text \<open>Reaping ends when \<open>wait4\<close> finds no more children.\<close>

lemma reap_loop_returns:
  assumes "W k = NoChild"
  shows "n \<le> k \<Longrightarrow> \<exists>x. reap_loop W n exits = Some x"
proof (induction "k - n" arbitrary: n exits)
  case 0
  then show ?case using assms by (subst reap_loop.simps) simp
next
  case (Suc d)
  then have "\<exists>x. reap_loop W (n + 1) ex = Some x" for ex by simp
  then show ?case by (subst reap_loop.simps) (auto split: wait4_result.split)
qed

lemma Reap_returns: "W False k = NoChild \<Longrightarrow> \<exists>as err. Reap W = Some (as, err)"
  using reap_loop_returns [of "W False" k 0 "[]"] by (auto simp: Reap_def reap_def)

subsection \<open>Forwarding\<close>

definition fits_int32 :: "int \<Rightarrow> bool" where
  "fits_int32 x \<longleftrightarrow> - (2 ^ 31) \<le> x \<and> x < 2 ^ 31"

lemma sint_int32: "fits_int32 x \<Longrightarrow> sint (word_of_int x :: 32 word) = x"
  by (simp add: fits_int32_def sint_sbintrunc' signed_take_bit_int_eq_self)

lemma payload_roundtrip: "fits_int32 (rxPid e) \<Longrightarrow> fits_int32 (rxStatus e) \<Longrightarrow> payload_exit (exit_payload e) = e"
  by (simp add: payload_exit_def exit_payload_def sint_int32)

lemma server_forward_all:
  "\<forall>n. sendErr n = None \<Longrightarrow> server_forward sendErr n es = (map exit_payload es, None)"
  by (induction es arbitrary: n) simp_all

lemma client_forward_stream: "client_forward (map Inr ps @ Inl e # rs) eof = (map payload_exit ps, e)"
  by (induction ps) simp_all

text \<open>
  The host receives the exits of the guest in order, as long as the stream works; when it ends, for whatever reason, the
  reason has become the value of \<open>io.EOF\<close>.
\<close>

lemma exits_forwarded:
  assumes "\<forall>e \<in> set es. fits_int32 (rxPid e) \<and> fits_int32 (rxStatus e)" "\<forall>n. sendErr n = None"
    and "Server_SubscribeToReaperExits (Inr es) sendErr = (ps, r)"
  shows "Client_SubscribeToReaperExits None (map Inr ps @ [Inl err]) eof = (Ok es, err)"
proof -
  have "ps = map exit_payload es" using assms(2,3) server_forward_all by (simp add: Server_SubscribeToReaperExits_def)
  then have "map payload_exit ps = es" using assms(1) by (simp add: payload_roundtrip map_idI)
  then show ?thesis by (simp add: Client_SubscribeToReaperExits_def client_forward_stream)
qed

section \<open>Properties\<close>

text \<open>
  C8: Every exit reaches every subscriber exactly once: in every reachable state no channel carries the exit of
  a \<open>notify\<close> twice or anything else, its buffer never holds more than 32 exits, nothing is sent on a closed channel, and
  when a \<open>notify\<close> has ended every channel that existed when it began and is still open has got its exit.
\<close>

theorem exits_delivered_once:
  assumes "reachable (\<lambda>m. m = reaper_Default) monitor_step m" "c < length (mnChans m)"
  shows "distinct (map fst (chan_sent m c)) \<and> length (sbBuf (mnChans m ! c)) \<le> 32 \<and>
    (\<forall>(i, e) \<in> set (chan_sent m c). i < length (mnNotifiers m) \<and> e = ntExit (mnNotifiers m ! i)) \<and>
    (\<forall>a m'. monitor_act a m = Some m' \<and> sbClosed (mnChans m ! c) \<longrightarrow>
       sbClosed (mnChans m' ! c) \<and> chan_sent m' c = chan_sent m c) \<and>
    (\<forall>i < length (mnNotifiers m). ntPhase (mnNotifiers m ! i) = NtDone \<and> c < ntBorn (mnNotifiers m ! i) \<and>
       \<not> sbClosed (mnChans m ! c) \<longrightarrow> (i, ntExit (mnNotifiers m ! i)) \<in> set (chan_sent m c))"
proof -
  have inv: "monitor_inv m" using monitor_life.reachable_inv [OF assms(1)] .
  then have "sent_ok m" by (simp add: monitor_inv_def)
  with assms(2) have "distinct (map fst (chan_sent m c)) \<and> length (sbBuf (mnChans m ! c)) \<le> 32 \<and>
      (\<forall>(i, e) \<in> set (chan_sent m c). i < length (mnNotifiers m) \<and> e = ntExit (mnNotifiers m ! i))"
    by (simp add: sent_ok_def reaper_bufferSize_def)
  then show ?thesis using done_delivered [OF inv] act_channel_frame [OF _ assms(2)] by blast
qed


text \<open>
  C37: A subscriber that goes away without unsubscribing keeps every later \<open>notify\<close> running for ever: when the buffer of
  an open channel is full and nobody receives from it or unsubscribes it, no \<open>notify\<close> called from then on
  ends, whatever else happens.
\<close>

theorem abandoned_subscriber_spins:
  assumes "reachable (\<lambda>m. m = reaper_Default) monitor_step m" "c \<in> set (mnSubscribers m)"
    and "length (sbBuf (mnChans m ! c)) = 32" "Monitor_notify e m = (i, m1)"
    and "monitor_run as m1 = Some m2" "AReceive c \<notin> set as" "AUnsubscribe c \<notin> set as"
  shows "ntPhase (mnNotifiers m2 ! i) \<noteq> NtDone"
proof -
  have inv: "monitor_inv m" using monitor_life.reachable_inv [OF assms(1)] .
  then have "monitor_inv m1" using notify_inv [of m e] assms(4) by simp
  moreover have "c < length (mnChans m) \<and> \<not> sbClosed (mnChans m ! c)"
    using inv assms(2) by (simp add: monitor_inv_def subscribers_ok_def)
  then have "abandoned c i m1" using assms(3,4) by (auto simp: abandoned_def Monitor_notify_def reaper_bufferSize_def)
  ultimately show ?thesis using abandoned_run [OF assms(5-7)] abandoned_not_done by blast
qed

subsection \<open>Executions\<close>

text \<open>A process is killed; a second subscriber comes before its exit and a third after it. The first round times out once.\<close>

definition killed :: runc_exit where
  "killed = \<lparr>rxPid = 7, rxStatus = exitStatus \<lparr>wsSignaled = True, wsSignal = 9, wsExitStatus = - 1\<rparr>\<rparr>"

definition two_rounds :: "monitor_action list" where
  "two_rounds = [ASubscribe, ARound 0 [1, 2, 0], ASend 0 False, ASend 0 False, ASend 0 True, AEnd 0,
     ARound 0 [0, 1, 2], ASend 0 False, ASend 0 False, ASend 0 False, AEnd 0]"

theorem exits_delivered_once_witness:
  "\<exists>m. monitor_run ([AStart None, ASubscribe, ANotify killed] @ two_rounds) reaper_Default = Some m \<and>
     (0, killed) \<in> set (chan_sent m 1) \<and> distinct (map fst (chan_sent m 1))"
proof -
  let ?run = "monitor_run ([AStart None, ASubscribe, ANotify killed] @ two_rounds) reaper_Default"
  have "case ?run of None \<Rightarrow> False | Some m \<Rightarrow> 1 < length (mnChans m) \<and> length (mnNotifiers m) = 1 \<and>
      ntPhase (mnNotifiers m ! 0) = NtDone \<and> ntBorn (mnNotifiers m ! 0) = 2 \<and>
      ntExit (mnNotifiers m ! 0) = killed \<and> \<not> sbClosed (mnChans m ! 1)"
    by code_simp
  then obtain m where m: "?run = Some m" "1 < length (mnChans m)" "length (mnNotifiers m) = 1"
      "ntPhase (mnNotifiers m ! 0) = NtDone" "ntBorn (mnNotifiers m ! 0) = 2"
      "ntExit (mnNotifiers m ! 0) = killed" "\<not> sbClosed (mnChans m ! 1)"
    by (auto split: option.splits)
  from exits_delivered_once [OF monitor_run_reachable [OF m(1)] m(2)] m show ?thesis by auto
qed


text \<open>A channel with 32 exits that nobody has read.\<close>

definition fill :: "nat \<Rightarrow> monitor_action list" where
  "fill n = ASubscribe # concat (map (\<lambda>i. [ANotify killed, ARound i [0], ASend i False, AEnd i]) [0..<n])"

theorem abandoned_subscriber_spins_witness:
  "\<exists>m m2. monitor_run (fill 32) reaper_Default = Some m \<and>
     monitor_run [ARound 32 [0], ASend 32 True, AEnd 32] (snd (Monitor_notify killed m)) = Some m2 \<and>
     ntPhase (mnNotifiers m2 ! 32) \<noteq> NtDone"
proof -
  let ?as = "[ARound 32 [0], ASend 32 True, AEnd 32]"
  have "case monitor_run (fill 32) reaper_Default of None \<Rightarrow> False | Some m \<Rightarrow>
      mnSubscribers m = [0] \<and> length (sbBuf (mnChans m ! 0)) = 32 \<and> length (mnNotifiers m) = 32 \<and>
      monitor_run ?as (snd (Monitor_notify killed m)) \<noteq> None"
    by code_simp
  then obtain m m2 where m: "monitor_run (fill 32) reaper_Default = Some m" "mnSubscribers m = [0]"
      "length (sbBuf (mnChans m ! 0)) = 32" "length (mnNotifiers m) = 32"
      "monitor_run ?as (snd (Monitor_notify killed m)) = Some m2"
    by (auto split: option.splits)
  have n: "Monitor_notify killed m = (32, snd (Monitor_notify killed m))"
    using m(4) by (simp add: Monitor_notify_def)
  have c: "0 \<in> set (mnSubscribers m)" using m(2) by simp
  have "ntPhase (mnNotifiers m2 ! 32) \<noteq> NtDone"
    by (rule abandoned_subscriber_spins [OF monitor_run_reachable [OF m(1)] c m(3) n m(5)]) simp_all
  with m(1,5) show ?thesis by blast
qed

end
