(* ===== verification/VmConfig.thy ===== *)
theory VmConfig
  imports GoStrings "HOL-Library.AList" "HOL-Library.Multiset"
begin

text \<open>
  How the host describes a virtual machine: the virtio devices
  (\<open>core/virt/virtio/virtio.go\<close>), the defaults every Linux machine shares
  (\<open>core/virt/vmm/default.go\<close>), the machine of an OCI container
  (\<open>core/virt/vmm/oci.go\<close>) and the machines of \<open>vmfuse.go\<close> and \<open>empty.go\<close>.
  The operating system, the json encoder, the network stack and the hypervisor are the
  fields of the host record; what was asked of them is kept in a log. A Go map is an
  association list with distinct keys, and the order of a \<open>range\<close> over it is a
  parameter.
\<close>

section \<open>Virtio devices\<close>

record disk_config =
  DevName :: string
  ReadOnly :: bool
  ImagePath :: string

record nbd_config =
  nbd_DevName :: string
  nbd_ReadOnly :: bool
  URI :: string
  DeviceIdentifier :: string
  Timeout_ns :: int
  SynchronizationMode :: string

datatype virtio_device =
    VirtioInput string
  | VirtioGPU bool int int bool
  | VirtioVsock "32 word" string string
  | VirtioBlk disk_config string
  | VirtioFs string string
  | RosettaShare string bool bool
  | NVMExpressController disk_config
  | VirtioRng
  | VirtioSerialLogFile string bool
  | NetworkBlockDevice nbd_config
  | VirtioBalloon
  | USBMassStorage disk_config
  | VirtioNet
  | VirtioGPUResolution int int
  | DirectorySharingConfig string
  | VirtioSerialFifo "64 word"
  | VirtioSerialFifoFile string
  | VirtioSerialStdio nat nat
  | VirtioSerialStdioPipes string string string
  | VirtioSerialFDPipes "64 word" "64 word" "64 word"
  | VirtioSerialPty string bool

text \<open>\<open>VirtioDevicesOfType\<close>: the devices that pass the type assertion, in their order.\<close>

fun VirtioDevicesOfType :: "(virtio_device \<Rightarrow> bool) \<Rightarrow> virtio_device list \<Rightarrow> virtio_device list" where
  "VirtioDevicesOfType is_T [] = []"
| "VirtioDevicesOfType is_T (d # ds) =
     (if is_T d then d # VirtioDevicesOfType is_T ds else VirtioDevicesOfType is_T ds)"

definition VirtioInput_validate :: "string \<Rightarrow> unit res" where
  "VirtioInput_validate ty =
     (if ty \<noteq> ''pointing'' \<and> ty \<noteq> ''keyboard''
      then Fail (ErrNew ''unknown option for virtio-input devices'') else Ok ())"

definition VirtioInputNew :: "string \<Rightarrow> virtio_device res" where
  "VirtioInputNew ty =
     (case VirtioInput_validate ty of
        Fail e \<Rightarrow> Fail e | Panic m \<Rightarrow> Panic m | Ok _ \<Rightarrow> Ok (VirtioInput ty))"

definition VirtioGPUNew :: virtio_device where
  "VirtioGPUNew = VirtioGPU False 800 600 False"

definition VirtioGPU_validate :: "int \<Rightarrow> int \<Rightarrow> unit res" where
  "VirtioGPU_validate width height =
     (if height < 1 \<or> width < 1
      then Fail (ErrNew ''invalid dimensions for virtio-gpu device resolution'') else Ok ())"

definition VirtioRngNew :: virtio_device where
  "VirtioRngNew = VirtioRng"

definition VirtioBalloonNew :: virtio_device where
  "VirtioBalloonNew = VirtioBalloon"

definition nvmExpressControllerNewEmpty :: disk_config where
  "nvmExpressControllerNewEmpty = \<lparr>DevName = ''nvme'', ReadOnly = False, ImagePath = []\<rparr>"

definition NVMExpressControllerNew :: "string \<Rightarrow> virtio_device" where
  "NVMExpressControllerNew path =
     NVMExpressController (nvmExpressControllerNewEmpty\<lparr>ImagePath := path\<rparr>)"

definition virtioBlkNewEmpty :: disk_config where
  "virtioBlkNewEmpty = \<lparr>DevName = ''virtio-blk'', ReadOnly = False, ImagePath = []\<rparr>"

definition VirtioBlkNew :: "string \<Rightarrow> virtio_device" where
  "VirtioBlkNew path = VirtioBlk (virtioBlkNewEmpty\<lparr>ImagePath := path\<rparr>) []"

fun SetDeviceIdentifier :: "string \<Rightarrow> virtio_device \<Rightarrow> virtio_device" where
  "SetDeviceIdentifier i (VirtioBlk d _) = VirtioBlk d i"
| "SetDeviceIdentifier i d = d"

definition VirtioVsockNew :: "64 word \<Rightarrow> string \<Rightarrow> bool \<Rightarrow> virtio_device res" where
  "VirtioVsockNew port url hostServer =
     (if port > 4294967295 then Fail (ErrNew ''invalid vsock port'')
      else Ok (VirtioVsock (ucast port) url
        (if hostServer then ''guest-connects-as-client'' else ''guest-listens-as-server'')))"

definition VirtioFsNew :: "string \<Rightarrow> string \<Rightarrow> virtio_device" where
  "VirtioFsNew sharedDir mountTag = VirtioFs mountTag sharedDir"

definition RosettaShareNew :: "string \<Rightarrow> virtio_device" where
  "RosettaShareNew tag = RosettaShare tag False False"

definition networkBlockDeviceNewEmpty :: nbd_config where
  "networkBlockDeviceNewEmpty =
     \<lparr>nbd_DevName = ''nbd'', nbd_ReadOnly = False, URI = [], DeviceIdentifier = [],
      Timeout_ns = 15000 * 1000000, SynchronizationMode = ''full''\<rparr>"

definition NetworkBlockDeviceNew :: "string \<Rightarrow> 32 word \<Rightarrow> string \<Rightarrow> nbd_config" where
  "NetworkBlockDeviceNew uri t sync =
     networkBlockDeviceNewEmpty\<lparr>URI := uri,
       Timeout_ns := sint (ucast t * 1000000 :: 64 word), SynchronizationMode := sync\<rparr>"

definition USBMassStorageNewEmpty :: virtio_device where
  "USBMassStorageNewEmpty = USBMassStorage \<lparr>DevName = [], ReadOnly = False, ImagePath = []\<rparr>"

definition usbMassStorageNewEmpty :: disk_config where
  "usbMassStorageNewEmpty = \<lparr>DevName = ''usb-mass-storage'', ReadOnly = False, ImagePath = []\<rparr>"

definition USBMassStorageNew :: "string \<Rightarrow> virtio_device" where
  "USBMassStorageNew path = USBMassStorage (usbMassStorageNewEmpty\<lparr>ImagePath := path\<rparr>)"

fun SetReadOnly :: "bool \<Rightarrow> virtio_device \<Rightarrow> virtio_device" where
  "SetReadOnly r (USBMassStorage d) = USBMassStorage (d\<lparr>ReadOnly := r\<rparr>)"
| "SetReadOnly r d = d"

section \<open>The host\<close>

record oci_mount =
  m_Type :: string
  m_Source :: string
  m_Options :: "string list"

record rootfs_mount =
  rm_Type :: string
  rm_Source :: string
  rm_Target :: string
  rm_Options :: "string list"

record oci_spec =
  sp_Mounts :: "oci_mount list"
  sp_Root :: "(string \<times> bool) option"

datatype bootloader = LinuxBootloader string string string

text \<open>\<open>LinuxBootloader\<close> holds the initrd, the kernel and the command line, in this order.\<close>

fun KernelCmdLine :: "bootloader \<Rightarrow> string" where
  "KernelCmdLine (LinuxBootloader initrd vmlinuz cmd) = cmd"

datatype platform = PlatformLinuxARM64 | PlatformOther string

record vm_options =
  Vcpus :: nat
  Memory :: nat
  Devices :: "virtio_device list"
  GuestPlatform :: platform

record gvproxy_config =
  MagicHostPort :: string
  EnableDebug :: bool
  EnableMagicNFSForwarding :: bool
  ExtraHostToGuestTCPPortMappings :: "(16 word \<times> 16 word) list"
  ExtraHostTCPPortsToExposeToGuest :: "(16 word \<times> 16 word) list"

datatype host_op =
    CopyDir string string
  | ReserveTCPPort
  | StartProxy gvproxy_config
  | MakeDir string
  | PutFile string string
  | ListDir string
  | CreateVM string vm_options bootloader

text \<open>
  What the host answers. \<open>range_order n ks\<close> is the order in which the \<open>n\<close>-th
  \<open>range\<close> statement visits a map with the keys \<open>ks\<close>.
\<close>

record vm_host =
  UserCacheDir :: "ext_error + string"
  os_Getenv :: "string \<Rightarrow> string"
  os_Stat :: "string \<Rightarrow> bool option"
  os_Readlink :: "string \<Rightarrow> ext_error + string"
  LoadLocation :: "string \<Rightarrow> ext_error + string"
  host_answer :: "host_op list \<Rightarrow> host_op \<Rightarrow> ext_error option"
  reserved_port :: "ext_error + 16 word"
  json_spec :: "oci_spec \<Rightarrow> ext_error + string"
  json_mounts :: "rootfs_mount list \<Rightarrow> ext_error + string"
  UnixNano :: int
  range_order :: "nat \<Rightarrow> string list \<Rightarrow> string list"

definition ask :: "vm_host \<Rightarrow> host_op \<Rightarrow> host_op list \<Rightarrow> unit res \<times> host_op list" where
  "ask h op l = (of_opt (host_answer h l op), l @ [op])"

definition CacheDirPrefix :: "vm_host \<Rightarrow> string res" where
  "CacheDirPrefix h =
     (case UserCacheDir h of Inl e \<Rightarrow> Fail (Ext e)
      | Inr d \<Rightarrow> Ok (filepath_Join [d, ''ec1'', ''cache'']))"

definition EmphiricalVMCacheDir :: "vm_host \<Rightarrow> string \<Rightarrow> string res" where
  "EmphiricalVMCacheDir h i =
     (case CacheDirPrefix h of
        Ok d \<Rightarrow> Ok (filepath_Join [d, ''vm'', i]) | Fail e \<Rightarrow> Fail e | Panic m \<Rightarrow> Panic m)"

definition PrepareVirtualNetwork ::
  "vm_host \<Rightarrow> (16 word \<times> 16 word) list \<Rightarrow> (16 word \<times> 16 word) list \<Rightarrow>
   host_op list \<Rightarrow> 16 word res \<times> host_op list" where
  "PrepareVirtualNetwork h extra exposed l =
     and_then (wrapping ''reserving port'' (of_sum (reserved_port h), l @ [ReserveTCPPort]))
       (\<lambda>port l. and_then
          (wrapping ''creating gvproxy'' (ask h (StartProxy
             \<lparr>MagicHostPort = ''tcp://127.0.0.1:'' @ nat_digits (unat port), EnableDebug = False,
              EnableMagicNFSForwarding = True, ExtraHostToGuestTCPPortMappings = extra,
              ExtraHostTCPPortsToExposeToGuest = exposed\<rparr>) l))
          (\<lambda>_ l. (Ok port, l)))"

section \<open>Default configuration\<close>

record DefaultVMConfig =
  WorkingDir :: string
  defDevices :: "virtio_device list"
  defMagicHostPort :: "16 word"
  Timezone :: string
  StartTime :: int
  MshareDirTags :: "(string \<times> string) list"
  MshareSockPorts :: "(string \<times> 16 word) list"
  HostRuntimeBuildDir :: string

text \<open>The entries of a map in the order of a \<open>range\<close> statement.\<close>

definition map_range :: "(string list \<Rightarrow> string list) \<Rightarrow> (string \<times> 'v) list \<Rightarrow> (string \<times> 'v) list" where
  "map_range ord m = map (\<lambda>k. (k, the (map_of m k))) (ord (map fst m))"

definition MshareDirsWithTags :: "(string list \<Rightarrow> string list) \<Rightarrow> DefaultVMConfig \<Rightarrow> string" where
  "MshareDirsWithTags ord me =
     join_with '','' (map (\<lambda>(dir, tag). tag @ ''|'' @ dir) (map_range ord (MshareDirTags me)))"

definition MshareSocketsWithPorts :: "(string list \<Rightarrow> string list) \<Rightarrow> DefaultVMConfig \<Rightarrow> string" where
  "MshareSocketsWithPorts ord me =
     join_with '','' (map (\<lambda>(sock, port). sock @ ''|'' @ nat_digits (unat port))
                        (map_range ord (MshareSockPorts me)))"

definition StartTimeUnixNanoString :: "DefaultVMConfig \<Rightarrow> string" where
  "StartTimeUnixNanoString me = int_digits (StartTime me)"

text \<open>\<open>fnv.New64a\<close> over the bytes, and \<open>hex.EncodeToString\<close> of the big-endian sum.\<close>

unbundle bit_operations_syntax

definition fnv64a :: "string \<Rightarrow> 64 word" where
  "fnv64a s = foldl (\<lambda>h c. (h XOR of_nat (of_char c)) * 1099511628211) 14695981039346656037 s"

definition hex_char :: "nat \<Rightarrow> char" where
  "hex_char n = (if n < 10 then char_of (48 + n) else char_of (87 + n))"

definition hex64 :: "64 word \<Rightarrow> string" where
  "hex64 w = map (\<lambda>i. hex_char (unat (drop_bit (4 * (15 - i)) w AND 15))) [0..<16]"

definition quickHash :: "string \<Rightarrow> string" where
  "quickHash s = hex64 (fnv64a s)"

definition share_tag :: "string \<Rightarrow> string" where
  "share_tag d = ''mshare-dir-'' @ quickHash d"

definition getHostTimezone :: "vm_host \<Rightarrow> string res" where
  "getHostTimezone h =
     (case os_Readlink h ''/etc/localtime'' of
        Inl e \<Rightarrow> Fail (Wrapf ''reading localtime'' (Ext e))
      | Inr ref \<Rightarrow>
          (case split_str ''zoneinfo/'' [] ref of
             [a, z] \<Rightarrow> (case LoadLocation h z of
                          Inl e \<Rightarrow> Fail (Wrapf ''loading location'' (Ext e)) | Inr loc \<Rightarrow> Ok loc)
           | _ \<Rightarrow> Fail (ErrNew ''invalid localtime reference'')))"

datatype file_content = FileBytes string | FileString string | FileValue "ext_error + string"

text \<open>The bytes of a file of the share; any other value is marshalled.\<close>

fun file_bytes :: "file_content \<Rightarrow> ext_error + string" where
  "file_bytes (FileBytes v) = Inr v"
| "file_bytes (FileString v) = Inr v"
| "file_bytes (FileValue r) = r"

fun marshal_files :: "(string \<times> file_content) list \<Rightarrow> (string \<times> string) list \<Rightarrow>
    (string \<times> string) list res" where
  "marshal_files [] acc = Ok acc"
| "marshal_files ((name, v) # fs) acc =
     (case file_bytes v of
        Inl e \<Rightarrow> Fail (Wrapf ''marshalling file content'' (Ext e))
      | Inr b \<Rightarrow> marshal_files fs (AList.update name b acc))"

fun write_files :: "vm_host \<Rightarrow> string \<Rightarrow> (string \<times> string) list \<Rightarrow> host_op list \<Rightarrow>
    unit res \<times> host_op list" where
  "write_files h dir [] l = (Ok (), l)"
| "write_files h dir ((name, b) # fs) l =
     and_then (wrapping ''writing file to block device'' (ask h (PutFile (filepath_Join [dir, name]) b) l))
       (\<lambda>_ l. write_files h dir fs l)"

definition makeMShareFilesDevice ::
  "vm_host \<Rightarrow> string \<Rightarrow> (string \<times> file_content) list \<Rightarrow> host_op list \<Rightarrow>
   virtio_device res \<times> host_op list" where
  "makeMShareFilesDevice h wrkdir files l =
     (let dir = filepath_Join [wrkdir, ''/mshare''] in
      and_then (wrapping ''creating block device directory'' (ask h (MakeDir dir) l))
        (\<lambda>_ l. and_then (marshal_files (map_range (range_order h 0) files) [], l)
        (\<lambda>fb l. and_then (wrapping ''creating mshare data path'' (ask h (MakeDir dir) l))
        (\<lambda>_ l. and_then (write_files h dir (map_range (range_order h 1) fb) l)
        (\<lambda>_ l. (Ok (VirtioFsNew dir ''mshare''), l))))))"

fun share_dirs :: "vm_host \<Rightarrow> string list \<Rightarrow> DefaultVMConfig \<Rightarrow> host_op list \<Rightarrow>
    DefaultVMConfig res \<times> host_op list" where
  "share_dirs h [] defs l = (Ok defs, l)"
| "share_dirs h (d # ds) defs l =
     (let defs' = defs\<lparr>defDevices := defDevices defs @ [VirtioFsNew d (share_tag d)],
                       MshareDirTags := AList.update d (share_tag d) (MshareDirTags defs)\<rparr>
      in if str_contains d ''/native/snapshots/'' then
           and_then (wrapping ''listing mshare directory'' (ask h (ListDir (filepath_Join [d, ''var''])) l))
             (\<lambda>_ l. share_dirs h ds defs' l)
         else share_dirs h ds defs' l)"

text \<open>\<open>constants.MsockBasePort + uint16(i)\<close>, for the sockets from index \<open>i\<close> on.\<close>

definition msock_port :: "nat \<Rightarrow> 16 word" where
  "msock_port i = 9000 + of_nat i"

fun sock_ports :: "nat \<Rightarrow> string list \<Rightarrow> (string \<times> 16 word) list \<Rightarrow> (string \<times> 16 word) list" where
  "sock_ports i [] m = m"
| "sock_ports i (s # ss) m = sock_ports (Suc i) ss (AList.update s (msock_port i) m)"

definition newDefaultLinuxVM ::
  "vm_host \<Rightarrow> string \<Rightarrow> string \<Rightarrow> (string \<times> file_content) list \<Rightarrow> string list \<Rightarrow> string list \<Rightarrow>
   (16 word \<times> 16 word) list \<Rightarrow> (16 word \<times> 16 word) list \<Rightarrow> host_op list \<Rightarrow>
   DefaultVMConfig res \<times> host_op list" where
  "newDefaultLinuxVM h vmid mbinFile files dirs socks extra exposed l =
     and_then (EmphiricalVMCacheDir h vmid, l) (\<lambda>wd l.
     (let src = os_Getenv h ''LINUX_RUNTIME_BUILD_DIR''; build = filepath_Join [wd, ''build''] in
      if src = [] then (Fail (ErrNew ''LINUX_RUNTIME_BUILD_DIR is not set''), l)
      else and_then (wrapping ''copying build directory'' (ask h (CopyDir build src) l))
        (\<lambda>_ l. and_then (wrapping ''creating net device'' (PrepareVirtualNetwork h extra exposed l))
        (\<lambda>port l. and_then (wrapping ''getting host timezone'' (getHostTimezone h, l))
        (\<lambda>tz l. and_then (wrapping ''creating mshare virtio device'' (makeMShareFilesDevice h wd files l))
        (\<lambda>mshareDev l. and_then (share_dirs h dirs
            \<lparr>WorkingDir = wd,
             defDevices = [VirtioNet, VirtioBalloon, VirtioFsNew ''/etc/ssl'' ''cacerts'',
               VirtioFsNew ''/usr/share/zoneinfo'' ''zoneinfo'',
               VirtioSerialLogFile (filepath_Join [wd, ''console.log'']) False,
               VirtioBlkNew (filepath_Join [build, mbinFile]), mshareDev, VirtioRng,
               VirtioVsock 0 [] []],
             defMagicHostPort = port, Timezone = tz, StartTime = UnixNano h,
             MshareDirTags = [], MshareSockPorts = [], HostRuntimeBuildDir = build\<rparr> l)
        (\<lambda>defs l. (Ok (defs\<lparr>MshareSockPorts := sock_ports 0 socks (MshareSockPorts defs)\<rparr>), l))))))))"

section \<open>The machine of an OCI container\<close>

record OCIVMConfig =
  ID :: string
  Bundle :: string
  RootfsMounts :: "rootfs_mount list"
  Spec :: oci_spec
  StartingMemory :: nat
  VCPUs :: nat
  Platform :: platform

definition is_bind :: "oci_mount \<Rightarrow> bool" where
  "is_bind m = (m_Type m = ''bind'' \<or> m_Type m = ''rbind'' \<or> ''rbind'' \<in> set (m_Options m))"

definition is_sock :: "oci_mount \<Rightarrow> bool" where
  "is_sock m = has_suffix (m_Source m) ''.sock''"

text \<open>The directory to share for a source: the directory of a file, else the source itself.\<close>

definition share_source :: "vm_host \<Rightarrow> oci_mount \<Rightarrow> string" where
  "share_source h m =
     (case os_Stat h (m_Source m) of
        Some False \<Rightarrow> filepath_Dir (m_Source m) | _ \<Rightarrow> m_Source m)"

fun isolate_loop :: "vm_host \<Rightarrow> oci_mount list \<Rightarrow> string list \<Rightarrow> string list \<Rightarrow> string list \<Rightarrow>
    string list \<times> string list" where
  "isolate_loop h [] devs seen socks = (devs, socks)"
| "isolate_loop h (m # ms) devs seen socks =
     (if \<not> is_bind m then isolate_loop h ms devs seen socks
      else if is_sock m then isolate_loop h ms devs seen (socks @ [m_Source m])
      else let src = share_source h m in
        if src \<in> set seen then isolate_loop h ms devs seen socks
        else isolate_loop h ms (devs @ [src]) (src # seen) socks)"

definition isolateMsharesFromOciSpec :: "vm_host \<Rightarrow> oci_spec \<Rightarrow> string list \<times> string list" where
  "isolateMsharesFromOciSpec h spec = isolate_loop h (sp_Mounts spec) [] [] []"

record RunningVM_config =
  vm_bootloader :: bootloader
  vm_portOnHostIP :: "16 word"
  vm_workingDir :: string
  vm_msockBinds :: "(string \<times> 16 word) list"

definition kernel_params :: "string list" where
  "kernel_params = [''console=hvc0'', ''systemd.unified_cgroup_hierarchy=1'', ''vm.compact_memory=1'',
     ''user.max_user_namespaces=15000'', ''pid_max=100000'']"

definition oci_init_args :: "vm_host \<Rightarrow> OCIVMConfig \<Rightarrow> DefaultVMConfig \<Rightarrow> string list" where
  "oci_init_args h cfg defs =
     [''-bundle-source='' @ Bundle cfg, ''-runm-mode=oci'', ''-container-id='' @ ID cfg,
      (if os_Getenv h ''OTEL_EXPORTER_OTLP_ENDPOINT'' \<noteq> [] then ''-enable-otlp'' else []),
      ''-init-mbin-name='' @ ''runm-linux-init'',
      ''-mshare-dir-binds='' @ MshareDirsWithTags (range_order h 2) defs,
      ''-mshare-sock-binds='' @ MshareSocketsWithPorts (range_order h 3) defs,
      ''-timezone='' @ Timezone defs,
      ''-time='' @ StartTimeUnixNanoString defs]"

definition linux_bootloader :: "DefaultVMConfig \<Rightarrow> string list \<Rightarrow> bootloader" where
  "linux_bootloader defs cfgs =
     LinuxBootloader (filepath_Join [HostRuntimeBuildDir defs, ''initramfs.cpio.gz''])
       (filepath_Join [HostRuntimeBuildDir defs, ''kernel'']) (join_with '' '' cfgs)"

definition NewOCIVirtualMachine ::
  "vm_host \<Rightarrow> OCIVMConfig \<Rightarrow> virtio_device list \<Rightarrow> host_op list \<Rightarrow>
   RunningVM_config res \<times> host_op list" where
  "NewOCIVirtualMachine h cfg devs l =
     (if length (ID cfg) < 8 then (Panic ''slice bounds out of range'', l)
      else let vmid = ''vm-oci-'' @ take 8 (ID cfg);
               (shares, socks) = isolateMsharesFromOciSpec h (Spec cfg);
               files = [(''/container-oci-spec.json'', FileValue (json_spec h (Spec cfg))),
                        (''/container-rootfs-mounts.json'', FileValue (json_mounts h (RootfsMounts cfg)))]
      in case RootfsMounts cfg of
           [] \<Rightarrow> (Panic ''index out of range'', l)
         | rm # _ \<Rightarrow>
             and_then (wrapping ''getting VM defaults''
               (newDefaultLinuxVM h vmid ''mbin.squashfs'' files
                  (shares @ [rm_Source rm] @ [Bundle cfg]) socks []
                  [(9091, 9091), (4317, 4317), (4040, 4040)] l))
             (\<lambda>defs l.
               if sp_Root (Spec cfg) = None then (Panic ''nil pointer dereference'', l)
               else if Platform cfg \<noteq> PlatformLinuxARM64 then (Fail (ErrNew ''unsupported OS''), l)
               else let b = linux_bootloader defs (kernel_params @ ''--'' # oci_init_args h cfg defs);
                        opts = \<lparr>Vcpus = VCPUs cfg, Memory = StartingMemory cfg,
                                Devices = defDevices defs @ devs, GuestPlatform = Platform cfg\<rparr>
                    in and_then (wrapping ''creating virtual machine'' (ask h (CreateVM vmid opts b) l))
                      (\<lambda>_ l. (Ok \<lparr>vm_bootloader = b, vm_portOnHostIP = defMagicHostPort defs,
                                  vm_workingDir = WorkingDir defs,
                                  vm_msockBinds = MshareSockPorts defs\<rparr>, l))))"

section \<open>The machines of vmfuse and of a kernel command\<close>

record VMFuseVMConfig =
  fuse_ID :: string
  fuse_Sources :: "string list"
  fuse_Memory :: nat
  fuse_VCPUs :: nat
  fuse_Platform :: platform
  fuse_InitArgs :: "string list"

text \<open>\<open>string(rune(n))\<close> is the UTF-8 encoding of the code point, of U+FFFD for a
  surrogate or a number that is no code point.\<close>

definition rune_string :: "nat \<Rightarrow> string" where
  "rune_string n =
     (if n < 128 then [char_of n]
      else if n < 2048 then [char_of (192 + n div 64), char_of (128 + n mod 64)]
      else if n < 65536 \<and> \<not> (55296 \<le> n \<and> n < 57344)
        then [char_of (224 + n div 4096), char_of (128 + n div 64 mod 64), char_of (128 + n mod 64)]
      else if 65536 \<le> n \<and> n < 1114112
        then [char_of (240 + n div 262144), char_of (128 + n div 4096 mod 64),
              char_of (128 + n div 64 mod 64), char_of (128 + n mod 64)]
      else [char_of (239 :: nat), char_of (191 :: nat), char_of (189 :: nat)])"

definition generateShareTag :: "string \<Rightarrow> nat \<Rightarrow> string" where
  "generateShareTag source i = filepath_Base source @ ''-'' @ rune_string (48 + i)"

fun fuse_shares :: "nat \<Rightarrow> string list \<Rightarrow> virtio_device list" where
  "fuse_shares i [] = []"
| "fuse_shares i (s # ss) = VirtioFsNew s (generateShareTag s i) # fuse_shares (Suc i) ss"

definition newDefaultLinuxVMForVMFuse ::
  "vm_host \<Rightarrow> string \<Rightarrow> VMFuseVMConfig \<Rightarrow> host_op list \<Rightarrow>
   (DefaultVMConfig \<times> 16 word) res \<times> host_op list" where
  "newDefaultLinuxVMForVMFuse h vmid cfg l =
     and_then (wrapping ''reserving port'' (of_sum (reserved_port h), l @ [ReserveTCPPort]))
       (\<lambda>port l. and_then (wrapping ''creating default linux VM''
            (newDefaultLinuxVM h vmid ''mbin-vmfuse.squashfs'' [] (fuse_Sources cfg) []
               [(port, 2049)] [(9091, 9091)] l))
          (\<lambda>defs l. (Ok (defs\<lparr>defDevices := defDevices defs @ fuse_shares 0 (fuse_Sources cfg)\<rparr>, port), l)))"

definition fuse_init_args :: "vm_host \<Rightarrow> VMFuseVMConfig \<Rightarrow> DefaultVMConfig \<Rightarrow> string list" where
  "fuse_init_args h cfg defs =
     [''-runm-mode=vmfuse'',
      ''-mshare-dir-binds='' @ MshareDirsWithTags (range_order h 2) defs,
      ''-timezone='' @ Timezone defs,
      ''-time='' @ StartTimeUnixNanoString defs,
      ''-init-mbin-name='' @ ''vmfuse-init''] @ fuse_InitArgs cfg"

definition NewVMFuseVirtualMachine ::
  "vm_host \<Rightarrow> VMFuseVMConfig \<Rightarrow> virtio_device list \<Rightarrow> host_op list \<Rightarrow>
   (RunningVM_config \<times> 16 word) res \<times> host_op list" where
  "NewVMFuseVirtualMachine h cfg devs l =
     and_then (wrapping ''getting VM defaults'' (newDefaultLinuxVMForVMFuse h (fuse_ID cfg) cfg l))
       (\<lambda>(defs, nfsPort) l.
         if fuse_Platform cfg \<noteq> PlatformLinuxARM64 then (Fail (ErrNew ''unsupported OS''), l)
         else let b = linux_bootloader defs (kernel_params @ ''--'' # fuse_init_args h cfg defs);
                  opts = \<lparr>Vcpus = fuse_VCPUs cfg, Memory = fuse_Memory cfg,
                          Devices = defDevices defs @ devs, GuestPlatform = fuse_Platform cfg\<rparr>
              in and_then (wrapping ''creating virtual machine'' (ask h (CreateVM (fuse_ID cfg) opts b) l))
                (\<lambda>_ l. (Ok (\<lparr>vm_bootloader = b, vm_portOnHostIP = defMagicHostPort defs,
                             vm_workingDir = WorkingDir defs,
                             vm_msockBinds = MshareSockPorts defs\<rparr>, nfsPort), l)))"

record EmptyVMConfig =
  empty_Memory :: nat
  empty_VCPUs :: nat
  empty_Platform :: platform

definition NewEc1BlockDevice :: "string \<Rightarrow> virtio_device" where
  "NewEc1BlockDevice wrkdir = VirtioFsNew (filepath_Join [wrkdir, ''harpoon-runtime-fs-device'']) ''ec1''"

definition NewMbinBlockDevice :: "string \<Rightarrow> virtio_device" where
  "NewMbinBlockDevice wrkdir = VirtioBlkNew (filepath_Join [wrkdir, ''mbin.squashfs''])"

definition empty_cmdline :: string where
  "empty_cmdline = ''console=hvc0 -- runm-mode=empty''"

text \<open>The argument \<open>xid\<close> is the fresh identifier of \<open>xid.New\<close>.\<close>

definition NewKernelCommandVM ::
  "vm_host \<Rightarrow> string \<Rightarrow> EmptyVMConfig \<Rightarrow> host_op list \<Rightarrow> RunningVM_config res \<times> host_op list" where
  "NewKernelCommandVM h xid cfg l =
     (let vmid = ''vm-empty-'' @ xid in
      and_then (EmphiricalVMCacheDir h vmid, l)
       (\<lambda>wd l. and_then (wrapping ''creating working directory'' (ask h (MakeDir wd) l))
       (\<lambda>_ l. let build = os_Getenv h ''LINUX_RUNTIME_BUILD_DIR'' in
         if build = [] then (Fail (ErrNew ''LINUX_RUNTIME_BUILD_DIR is not set''), l)
         else if empty_Platform cfg \<noteq> PlatformLinuxARM64 then (Fail (ErrNew ''unsupported OS''), l)
         else let b = LinuxBootloader (filepath_Join [build, ''initramfs.cpio.gz''])
                        (filepath_Join [build, ''kernel'']) empty_cmdline
              in and_then (wrapping ''creating net device'' (PrepareVirtualNetwork h [] [] l))
                (\<lambda>port l. and_then (wrapping ''creating virtual machine'' (ask h (CreateVM vmid
                    \<lparr>Vcpus = empty_VCPUs cfg, Memory = empty_Memory cfg,
                     Devices = [NewEc1BlockDevice wd,
                       VirtioSerialLogFile (filepath_Join [wd, ''console.log'']) False,
                       VirtioNet, VirtioVsock 0 [] [], VirtioBalloon],
                     GuestPlatform = empty_Platform cfg\<rparr> b) l))
                (\<lambda>_ l. (Ok \<lparr>vm_bootloader = b, vm_portOnHostIP = port, vm_workingDir = wd,
                            vm_msockBinds = []\<rparr>, l))))))"

section \<open>Devices\<close>

lemma VirtioVsockNew_port:
  "VirtioVsockNew p url hs = Ok (VirtioVsock q u d) \<Longrightarrow> unat q = unat p"
  by (auto simp: VirtioVsockNew_def word_less_nat_alt unsigned_ucast_eq take_bit_nat_eq_self_iff
      split: if_splits)

lemma NetworkBlockDeviceNew_timeout:
  "Timeout_ns (NetworkBlockDeviceNew uri t sync) = int (unat t) * 1000000"
proof -
  have b: "int n * 1000000 < 2 ^ 63" if "n < 2 ^ 32" for n :: nat
    using that by simp
  have "unat t < 2 ^ 32" using unsigned_less [of t, where 'a = nat] by simp
  note b = b [OF this]
  have "(ucast t * 1000000 :: 64 word) = of_nat (unat t * 1000000)"
    by simp
  then have "sint (ucast t * 1000000 :: 64 word) = signed_take_bit 63 (int (unat t * 1000000))"
    by (simp only: signed_of_nat) simp
  moreover have "signed_take_bit 63 (int (unat t * 1000000)) = int (unat t * 1000000)"
    by (rule signed_take_bit_int_eq_self) (use b in \<open>simp_all add: order_trans [of _ 0]\<close>)
  ultimately show ?thesis
    by (simp add: NetworkBlockDeviceNew_def)
qed

section \<open>What is shared\<close>

lemma isolate_loop_skip:
  "\<not> is_bind m \<or> (\<not> is_sock m \<and> share_source h m \<in> set seen) \<Longrightarrow>
   isolate_loop h (m # ms) devs seen socks = isolate_loop h ms devs seen socks"
  by (auto simp: Let_def)

lemma isolate_loop_sock:
  "is_bind m \<Longrightarrow> is_sock m \<Longrightarrow>
   isolate_loop h (m # ms) devs seen socks = isolate_loop h ms devs seen (socks @ [m_Source m])"
  by simp

lemma isolate_loop_dir:
  "is_bind m \<Longrightarrow> \<not> is_sock m \<Longrightarrow> share_source h m \<notin> set seen \<Longrightarrow>
   isolate_loop h (m # ms) devs seen socks =
     isolate_loop h ms (devs @ [share_source h m]) (share_source h m # seen) socks"
  by (simp add: Let_def)

lemma isolate_loop_spec:
  assumes "distinct devs" "set seen = set devs"
  shows "distinct (fst (isolate_loop h ms devs seen socks)) \<and>
    set (fst (isolate_loop h ms devs seen socks)) =
      set devs \<union> share_source h ` {m \<in> set ms. is_bind m \<and> \<not> is_sock m} \<and>
    snd (isolate_loop h ms devs seen socks) =
      socks @ map m_Source (filter (\<lambda>m. is_bind m \<and> is_sock m) ms)"
  using assms
proof (induction ms arbitrary: devs seen socks)
  case Nil
  then show ?case by simp
next
  case (Cons m ms)
  consider "\<not> is_bind m \<or> (\<not> is_sock m \<and> share_source h m \<in> set seen)"
    | "is_bind m" "is_sock m"
    | "is_bind m" "\<not> is_sock m" "share_source h m \<notin> set seen" by blast
  then show ?case
  proof cases
    case 1
    show ?thesis
      unfolding isolate_loop_skip [OF 1]
      using Cons.IH [OF Cons.prems, of socks] 1 Cons.prems by auto
  next
    case 2
    show ?thesis
      unfolding isolate_loop_sock [OF 2]
      using Cons.IH [OF Cons.prems, of "socks @ [m_Source m]"] 2 by auto
  next
    case 3
    have "distinct (devs @ [share_source h m])"
      "set (share_source h m # seen) = set (devs @ [share_source h m])"
      using 3 Cons.prems by auto
    from Cons.IH [OF this, of socks] show ?thesis
      unfolding isolate_loop_dir [OF 3] using 3 by auto
  qed
qed

lemma isolate_spec:
  assumes "isolateMsharesFromOciSpec h spec = (ds, ss)"
  shows "distinct ds"
    "set ds = share_source h ` {m \<in> set (sp_Mounts spec). is_bind m \<and> \<not> is_sock m}"
    "ss = map m_Source (filter (\<lambda>m. is_bind m \<and> is_sock m) (sp_Mounts spec))"
  using isolate_loop_spec [of "[]" "[]" h "sp_Mounts spec" "[]"] assms
  by (simp_all add: isolateMsharesFromOciSpec_def)

section \<open>Socket ports\<close>

lemma map_of_sock_ports_notin:
  "s \<notin> set ss \<Longrightarrow> map_of (sock_ports i ss m) s = map_of m s"
  by (induction ss arbitrary: i m) (auto simp: update_conv)

lemma map_of_sock_ports:
  "s \<in> set ss \<Longrightarrow> \<exists>k < length ss. ss ! k = s \<and> map_of (sock_ports i ss m) s = Some (msock_port (i + k))"
proof (induction ss arbitrary: i m)
  case (Cons x xs)
  show ?case
  proof (cases "s \<in> set xs")
    case True
    then obtain k where "k < length xs" "xs ! k = s"
      "map_of (sock_ports (Suc i) xs (AList.update x (msock_port i) m)) s = Some (msock_port (Suc i + k))"
      using Cons.IH by blast
    then show ?thesis by (intro exI [of _ "Suc k"]) simp
  next
    case False
    with Cons.prems show ?thesis
      by (intro exI [of _ 0]) (simp add: map_of_sock_ports_notin update_conv)
  qed
qed simp

lemma distinct_sock_ports:
  "distinct (map fst m) \<Longrightarrow> distinct (map fst (sock_ports i ss m))"
  by (induction ss arbitrary: i m) (auto simp: distinct_update)

lemma unat_msock_port: "k < 56536 \<Longrightarrow> unat (msock_port k) = 9000 + k"
proof -
  assume "k < 56536"
  then have "unat (of_nat k :: 16 word) = k" by (simp add: unat_of_nat)
  then show ?thesis
    using \<open>k < 56536\<close> by (simp add: msock_port_def unat_word_ariths)
qed

text \<open>The next index wraps to port 0, and the ports repeat after 65536 sockets.\<close>

lemma msock_port_wraps: "msock_port 56536 = 0" "msock_port (k + 65536) = msock_port k"
proof -
  show "msock_port 56536 = 0" by (simp add: msock_port_def)
  have "(of_nat (k + 65536) :: 16 word) = of_nat k + 65536"
    by (metis of_nat_add of_nat_numeral)
  also have "\<dots> = of_nat k" by simp
  finally show "msock_port (k + 65536) = msock_port k" by (simp only: msock_port_def)
qed

lemma sock_ports_inj:
  assumes "length ss \<le> 56536" "map_of (sock_ports 0 ss []) s = Some p"
    "map_of (sock_ports 0 ss []) t = Some p"
  shows "s = t \<and> 9000 \<le> unat p"
proof -
  have in_ss: "x \<in> set ss" if "map_of (sock_ports 0 ss []) x = Some p" for x
    using that map_of_sock_ports_notin [of x ss 0 "[]"] by fastforce
  obtain k where k: "k < length ss" "ss ! k = s" "p = msock_port k"
    using map_of_sock_ports [OF in_ss [OF assms(2)], of 0 "[]"] assms(2) by auto
  obtain j where j: "j < length ss" "ss ! j = t" "p = msock_port j"
    using map_of_sock_ports [OF in_ss [OF assms(3)], of 0 "[]"] assms(3) by auto
  have "unat (msock_port k) = 9000 + k" "unat (msock_port j) = 9000 + j"
    using k(1) j(1) assms(1) by (auto intro: unat_msock_port)
  then show ?thesis using k j by auto
qed

section \<open>The default configuration\<close>

definition tags_of :: "string list \<Rightarrow> (string \<times> string) list \<Rightarrow> (string \<times> string) list" where
  "tags_of ds m = foldl (\<lambda>m d. AList.update d (share_tag d) m) m ds"

lemma tags_of_simps [simp]:
  "tags_of [] m = m" "tags_of (d # ds) m = tags_of ds (AList.update d (share_tag d) m)"
  by (simp_all add: tags_of_def)

lemma map_of_tags:
  "map_of (tags_of ds m) d = (if d \<in> set ds then Some (share_tag d) else map_of m d)"
  by (induction ds arbitrary: m) (auto simp: update_conv)

lemma distinct_tags: "distinct (map fst m) \<Longrightarrow> distinct (map fst (tags_of ds m))"
  by (induction ds arbitrary: m) (auto simp: distinct_update)

lemma tags_of_mem: "(d, t) \<in> set (tags_of ds []) \<longleftrightarrow> d \<in> set ds \<and> t = share_tag d"
  using map_of_eq_Some_iff [OF distinct_tags [of "[]" ds], of d t] map_of_tags [of ds "[]" d]
  by (auto split: if_splits)

lemma set_tags: "fst ` set (tags_of ds []) = set ds"
proof (intro set_eqI)
  fix d
  have "d \<in> fst ` set (tags_of ds []) \<longleftrightarrow> map_of (tags_of ds []) d \<noteq> None"
    by (simp add: map_of_eq_None_iff)
  then show "d \<in> fst ` set (tags_of ds []) \<longleftrightarrow> d \<in> set ds"
    by (simp add: map_of_tags)
qed

lemma snd_ask [simp]: "snd (ask h op l) = l @ [op]"
  by (simp add: ask_def)

lemma fst_ask [simp]: "fst (ask h op l) = of_opt (host_answer h l op)"
  by (simp add: ask_def)

lemma ask_eq_Ok [simp]:
  "ask h op l = (Ok u, l') \<longleftrightarrow> host_answer h l op = None \<and> l' = l @ [op]"
  by (auto simp: ask_def)

lemma share_dirs_Ok:
  "share_dirs h ds defs l = (Ok defs', l') \<Longrightarrow>
   defs' = defs\<lparr>defDevices := defDevices defs @ map (\<lambda>d. VirtioFs (share_tag d) d) ds,
               MshareDirTags := tags_of ds (MshareDirTags defs)\<rparr> \<and> prefix l l'"
proof (induction ds arbitrary: defs l)
  case Nil
  then show ?case by auto
next
  case (Cons d ds)
  define d1 where "d1 = defs\<lparr>defDevices := defDevices defs @ [VirtioFsNew d (share_tag d)],
      MshareDirTags := AList.update d (share_tag d) (MshareDirTags defs)\<rparr>"
  obtain l1 where "share_dirs h ds d1 l1 = (Ok defs', l')" "prefix l l1"
    using Cons.prems
    by (auto simp: Let_def d1_def [symmetric] and_then_eq_Ok split: if_splits)
  with Cons.IH [of d1 l1] have "defs' = d1\<lparr>defDevices := defDevices d1 @ map (\<lambda>d. VirtioFs (share_tag d) d) ds,
      MshareDirTags := tags_of ds (MshareDirTags d1)\<rparr>" "prefix l l'"
    by (auto intro: prefix_order.trans)
  then show ?case by (simp add: d1_def VirtioFsNew_def)
qed

lemma write_files_grows: "prefix l (snd (write_files h dir fs l))"
proof (induction fs arbitrary: l)
  case Nil
  then show ?case by simp
next
  case (Cons f fs)
  obtain n b where "f = (n, b)" by force
  moreover have "prefix l (snd (write_files h dir fs (l @ [PutFile (filepath_Join [dir, n]) b])))"
    using Cons prefixI prefix_order.trans by (metis append_prefixD)
  ultimately show ?case by (auto simp: snd_and_then split: res.split)
qed

lemma makeMShareFilesDevice_Ok:
  assumes "makeMShareFilesDevice h wd files l = (Ok d, l')"
  shows "d = VirtioFs ''mshare'' (filepath_Join [wd, ''/mshare'']) \<and> prefix l l'"
proof -
  define dir where "dir = filepath_Join [wd, ''/mshare'']"
  obtain fb m where fb: "d = VirtioFsNew dir ''mshare''"
    "write_files h dir m (l @ [MakeDir dir, MakeDir dir]) = (Ok (), l')"
    using assms by (auto simp: makeMShareFilesDevice_def Let_def and_then_eq_Ok dir_def)
  have "prefix (l @ [MakeDir dir, MakeDir dir]) l'"
    using write_files_grows [of "l @ [MakeDir dir, MakeDir dir]" h dir m] fb(2) by simp
  then show ?thesis
    using fb(1) by (auto simp: VirtioFsNew_def dir_def dest: append_prefixD)
qed

lemma PrepareVirtualNetwork_Ok:
  "PrepareVirtualNetwork h extra exposed l = (Ok p, l') \<Longrightarrow> reserved_port h = Inr p \<and> prefix l l'"
  by (cases "reserved_port h") (auto simp: PrepareVirtualNetwork_def and_then_eq_Ok)

text \<open>
  What a successful call of \<open>newDefaultLinuxVM\<close> returns, and that the build
  directory was copied before anything else was asked of the host.
\<close>

lemma newDefaultLinuxVM_Ok:
  assumes "newDefaultLinuxVM h vmid mbin files dirs socks extra exposed l = (Ok defs, l')"
  shows "\<exists>wd port tz build. EmphiricalVMCacheDir h vmid = Ok wd \<and> getHostTimezone h = Ok tz \<and>
    build = filepath_Join [wd, ''build''] \<and>
    os_Getenv h ''LINUX_RUNTIME_BUILD_DIR'' \<noteq> [] \<and>
    host_answer h l (CopyDir build (os_Getenv h ''LINUX_RUNTIME_BUILD_DIR'')) = None \<and>
    prefix (l @ [CopyDir build (os_Getenv h ''LINUX_RUNTIME_BUILD_DIR'')]) l' \<and>
    defs = \<lparr>WorkingDir = wd,
      defDevices = [VirtioNet, VirtioBalloon, VirtioFsNew ''/etc/ssl'' ''cacerts'',
         VirtioFsNew ''/usr/share/zoneinfo'' ''zoneinfo'',
         VirtioSerialLogFile (filepath_Join [wd, ''console.log'']) False,
         VirtioBlkNew (filepath_Join [build, mbin]), VirtioFs ''mshare'' (filepath_Join [wd, ''/mshare'']),
         VirtioRng, VirtioVsock 0 [] []] @ map (\<lambda>d. VirtioFs (share_tag d) d) dirs,
      defMagicHostPort = port, Timezone = tz, StartTime = UnixNano h,
      MshareDirTags = tags_of dirs [], MshareSockPorts = sock_ports 0 socks [],
      HostRuntimeBuildDir = build\<rparr>"
  using assms
  by (fastforce simp: newDefaultLinuxVM_def Let_def and_then_eq_Ok
      dest!: share_dirs_Ok makeMShareFilesDevice_Ok PrepareVirtualNetwork_Ok
      intro: prefix_order.trans split: if_splits)

text \<open>
  \<open>os.CopyFS\<close> does not overwrite a file: once a directory was copied, copying the same
  directory to the same place again is an error. Nothing in the program removes the copy.
\<close>

definition no_overwrite :: "vm_host \<Rightarrow> bool" where
  "no_overwrite h \<longleftrightarrow>
     (\<forall>l d s rest. host_answer h l (CopyDir d s) = None \<longrightarrow>
        host_answer h (l @ CopyDir d s # rest) (CopyDir d s) \<noteq> None)"

lemma newDefaultLinuxVM_again:
  assumes "no_overwrite h"
    "newDefaultLinuxVM h vmid mbin files dirs socks extra exposed l = (Ok defs, l')"
  shows "\<exists>e l''. newDefaultLinuxVM h vmid mbin' files' dirs' socks' extra' exposed' (l' @ rest) =
    (Fail (Wrapf ''copying build directory'' (Ext e)), l'')"
proof -
  define src where "src = os_Getenv h ''LINUX_RUNTIME_BUILD_DIR''"
  obtain wd where wd: "EmphiricalVMCacheDir h vmid = Ok wd" "src \<noteq> []"
    "host_answer h l (CopyDir (filepath_Join [wd, ''build'']) src) = None"
    "prefix (l @ [CopyDir (filepath_Join [wd, ''build'']) src]) l'"
    using newDefaultLinuxVM_Ok [OF assms(2)] by (auto simp: src_def)
  from wd(4) obtain r where "l' = l @ CopyDir (filepath_Join [wd, ''build'']) src # r"
    by (auto simp: prefix_def)
  with assms(1) wd(3) have "host_answer h (l' @ rest) (CopyDir (filepath_Join [wd, ''build'']) src) \<noteq> None"
    by (simp add: no_overwrite_def)
  then obtain e where "host_answer h (l' @ rest) (CopyDir (filepath_Join [wd, ''build'']) src) = Some e"
    by blast
  with wd(1,2) show ?thesis
    by (simp add: newDefaultLinuxVM_def Let_def src_def [symmetric] ask_def)
qed

lemma NewOCIVirtualMachine_Ok:
  assumes "NewOCIVirtualMachine h cfg devs l = (Ok vm, l')"
  shows "\<exists>rm shares socks defs l1. RootfsMounts cfg \<noteq> [] \<and> rm = hd (RootfsMounts cfg) \<and>
    8 \<le> length (ID cfg) \<and> Platform cfg = PlatformLinuxARM64 \<and>
    isolateMsharesFromOciSpec h (Spec cfg) = (shares, socks) \<and>
    newDefaultLinuxVM h (''vm-oci-'' @ take 8 (ID cfg)) ''mbin.squashfs''
      [(''/container-oci-spec.json'', FileValue (json_spec h (Spec cfg))),
       (''/container-rootfs-mounts.json'', FileValue (json_mounts h (RootfsMounts cfg)))]
      (shares @ [rm_Source rm, Bundle cfg]) socks [] [(9091, 9091), (4317, 4317), (4040, 4040)] l =
        (Ok defs, l1) \<and>
    vm_bootloader vm = linux_bootloader defs (kernel_params @ ''--'' # oci_init_args h cfg defs) \<and>
    vm_msockBinds vm = MshareSockPorts defs \<and>
    l' = l1 @ [CreateVM (''vm-oci-'' @ take 8 (ID cfg))
      \<lparr>Vcpus = VCPUs cfg, Memory = StartingMemory cfg, Devices = defDevices defs @ devs,
       GuestPlatform = Platform cfg\<rparr> (vm_bootloader vm)]"
proof -
  obtain shares socks where i: "isolateMsharesFromOciSpec h (Spec cfg) = (shares, socks)" by force
  obtain rm rms where "RootfsMounts cfg = rm # rms"
    using assms by (cases "RootfsMounts cfg") (auto simp: NewOCIVirtualMachine_def i Let_def split: if_splits)
  with assms i show ?thesis
    by (auto simp: NewOCIVirtualMachine_def Let_def and_then_eq_Ok split: if_splits)
qed

text \<open>
  C38: A virtual machine is refused when one with the same first eight characters of the
  container id was ever created: the working directory depends on these characters only,
  nothing removes it, and \<open>os.CopyFS\<close> does not overwrite the build directory in it.
\<close>

theorem second_machine_refused:
  assumes "no_overwrite h" "NewOCIVirtualMachine h cfg devs l = (Ok vm, l')"
    and "take 8 (ID cfg') = take 8 (ID cfg)" "8 \<le> length (ID cfg')" "RootfsMounts cfg' \<noteq> []"
  shows "\<exists>e l''. NewOCIVirtualMachine h cfg' devs' (l' @ rest) =
    (Fail (Wrapf ''getting VM defaults'' (Wrapf ''copying build directory'' (Ext e))), l'')"
proof -
  obtain files dirs socks defs l1 op where
    "newDefaultLinuxVM h (''vm-oci-'' @ take 8 (ID cfg)) ''mbin.squashfs'' files dirs socks []
       [(9091, 9091), (4317, 4317), (4040, 4040)] l = (Ok defs, l1)" "l' = l1 @ [op]"
    using NewOCIVirtualMachine_Ok [OF assms(2)] by blast
  note again = newDefaultLinuxVM_again [OF assms(1) this(1), where rest = "op # rest"]
  obtain rm rms where rms: "RootfsMounts cfg' = rm # rms"
    using assms(5) by (cases "RootfsMounts cfg'") auto
  obtain shares socks' where i: "isolateMsharesFromOciSpec h (Spec cfg') = (shares, socks')" by force
  obtain e l'' where "newDefaultLinuxVM h (''vm-oci-'' @ take 8 (ID cfg')) ''mbin.squashfs''
      [(''/container-oci-spec.json'', FileValue (json_spec h (Spec cfg'))),
       (''/container-rootfs-mounts.json'', FileValue (json_mounts h (RootfsMounts cfg')))]
      (shares @ [rm_Source rm] @ [Bundle cfg']) socks' [] [(9091, 9091), (4317, 4317), (4040, 4040)]
      (l' @ rest) = (Fail (Wrapf ''copying build directory'' (Ext e)), l'')"
    using again \<open>l' = l1 @ [op]\<close> assms(3) by fastforce
  then show ?thesis
    using assms(4) by (simp add: NewOCIVirtualMachine_def Let_def i rms)
qed

text \<open>A host on which every call succeeds, except that a copy is never overwritten.\<close>

definition demo_host :: vm_host where
  "demo_host =
     \<lparr>UserCacheDir = Inr ''/c'', os_Getenv = (\<lambda>v. if v = ''LINUX_RUNTIME_BUILD_DIR'' then ''/b'' else []),
      os_Stat = (\<lambda>_. Some True), os_Readlink = (\<lambda>_. Inr ''/usr/share/zoneinfo/UTC''),
      LoadLocation = Inr,
      host_answer = (\<lambda>l op. case op of
        CopyDir d s \<Rightarrow> (if op \<in> set l
          then Some \<lparr>ext_text = ''file exists'', ext_wraps = [], ext_is_ESRCH = False\<rparr> else None)
        | _ \<Rightarrow> None),
      reserved_port = Inr 1024, json_spec = (\<lambda>_. Inr ''{}''), json_mounts = (\<lambda>_. Inr ''[]''),
      UnixNano = 42, range_order = (\<lambda>_ ks. ks)\<rparr>"

definition demo_config :: OCIVMConfig where
  "demo_config =
     \<lparr>ID = ''my-container-1'', Bundle = ''/run/b'',
      RootfsMounts = [\<lparr>rm_Type = ''bind'', rm_Source = ''/snap'', rm_Target = ''/run/b/rootfs'', rm_Options = []\<rparr>],
      Spec = \<lparr>sp_Mounts = [\<lparr>m_Type = ''bind'', m_Source = ''/data'', m_Options = []\<rparr>,
                          \<lparr>m_Type = ''bind'', m_Source = ''/run/d.sock'', m_Options = []\<rparr>],
              sp_Root = Some (''rootfs'', False)\<rparr>,
      StartingMemory = 512, VCPUs = 1, Platform = PlatformLinuxARM64\<rparr>"

lemma demo_host_no_overwrite: "no_overwrite demo_host"
  by (simp add: no_overwrite_def demo_host_def)

lemma demo_timezone: "getHostTimezone demo_host = Ok ''UTC''"
  by code_simp

lemma demo_isolate: "isolateMsharesFromOciSpec demo_host (Spec demo_config) = ([''/data''], [''/run/d.sock''])"
  by code_simp

lemma demo_answer [simp]: "host_answer demo_host l op \<noteq> None \<longleftrightarrow> (\<exists>d s. op = CopyDir d s \<and> op \<in> set l)"
  by (cases op) (auto simp: demo_host_def)

lemma demo_ask [simp]:
  "op \<notin> set l \<or> (\<forall>d s. op \<noteq> CopyDir d s) \<Longrightarrow> ask demo_host op l = (Ok (), l @ [op])"
  using demo_answer [of l op] by (auto simp: ask_def)

lemma demo_share_dirs: "is_ok (fst (share_dirs demo_host ds defs l))"
proof (induction ds arbitrary: defs l)
  case (Cons d ds)
  then show ?case by (simp add: Let_def)
qed simp

lemma demo_host_simps [simp]:
  "UserCacheDir demo_host = Inr ''/c''" "os_Getenv demo_host ''LINUX_RUNTIME_BUILD_DIR'' = ''/b''"
  "reserved_port demo_host = Inr 1024" "json_spec demo_host sp = Inr ''{}''"
  "json_mounts demo_host rms = Inr ''[]''" "range_order demo_host n ks = ks"
  by (simp_all add: demo_host_def)

lemma demo_makeMShareFilesDevice:
  "is_ok (fst (makeMShareFilesDevice demo_host wd
     [(''/container-oci-spec.json'', FileValue (Inr x)), (''/container-rootfs-mounts.json'', FileValue (Inr y))] l))"
  by (simp add: makeMShareFilesDevice_def Let_def map_range_def)

lemma demo_config_simps:
  "ID demo_config = ''my-container-1''" "Bundle demo_config = ''/run/b''"
  "RootfsMounts demo_config =
     [\<lparr>rm_Type = ''bind'', rm_Source = ''/snap'', rm_Target = ''/run/b/rootfs'', rm_Options = []\<rparr>]"
  "sp_Root (Spec demo_config) = Some (''rootfs'', False)" "Platform demo_config = PlatformLinuxARM64"
  by (simp_all add: demo_config_def)

lemma demo_defaults:
  "is_ok (fst (newDefaultLinuxVM demo_host vmid mbin
     [(''/container-oci-spec.json'', FileValue (Inr x)), (''/container-rootfs-mounts.json'', FileValue (Inr y))]
     dirs socks extra exposed []))"
  unfolding newDefaultLinuxVM_def Let_def is_ok_and_then
  by (simp add: EmphiricalVMCacheDir_def CacheDirPrefix_def PrepareVirtualNetwork_def demo_timezone
      demo_makeMShareFilesDevice demo_share_dirs is_ok_and_then)

lemma demo_machine_starts:
  "is_ok (fst (NewOCIVirtualMachine demo_host (demo_config\<lparr>Bundle := b\<rparr>) [] []))"
  using demo_defaults
  by (simp add: NewOCIVirtualMachine_def Let_def demo_isolate demo_config_simps is_ok_and_then)

lemma demo_machine:
  obtains vm where "NewOCIVirtualMachine demo_host demo_config [] [] =
      (Ok vm, snd (NewOCIVirtualMachine demo_host demo_config [] []))"
proof -
  have "demo_config\<lparr>Bundle := ''/run/b''\<rparr> = demo_config" by (simp add: demo_config_def)
  then show thesis using demo_machine_starts [of "''/run/b''"] that by (metis is_okE prod.collapse)
qed

theorem second_machine_refused_witness:
  "\<exists>e l''. NewOCIVirtualMachine demo_host (demo_config\<lparr>ID := ''my-container-2''\<rparr>) []
     (snd (NewOCIVirtualMachine demo_host demo_config [] []) @ []) =
     (Fail (Wrapf ''getting VM defaults'' (Wrapf ''copying build directory'' (Ext e))), l'')"
proof -
  obtain vm where "NewOCIVirtualMachine demo_host demo_config [] [] =
      (Ok vm, snd (NewOCIVirtualMachine demo_host demo_config [] []))"
    by (rule demo_machine)
  then show ?thesis
    by (rule second_machine_refused [OF demo_host_no_overwrite]) (simp_all add: demo_config_simps)
qed

end
