(* ===== verification/GuestBoot.thy ===== *)
theory GuestBoot
  imports VmConfig
begin

text \<open>
  How the guest boots from what the host put on the kernel command line: Go's
  \<open>flag\<close> package as far as it is used, the mounter that builds the new root and
  switches to it (\<open>cmd/runm-linux-mounter/main.go\<close>), and the init process
  (\<open>cmd/runm-linux-init/main.go\<close>) that mounts the root file system of the container,
  configures the network and starts the servers. What the guest asks of its kernel is a
  log of operations; the kernel answers each from the log so far.
\<close>

section \<open>The flag package\<close>

datatype flag_kind = StringFlag | BoolFlag

datatype flag_outcome = Flags "(string \<times> string) list" "string list" | FlagExit nat

text \<open>\<open>strconv.ParseBool\<close>.\<close>

definition ParseBool :: "string \<Rightarrow> bool option" where
  "ParseBool s =
     (if s \<in> set [''1'', ''t'', ''T'', ''TRUE'', ''true'', ''True''] then Some True
      else if s \<in> set [''0'', ''f'', ''F'', ''FALSE'', ''false'', ''False''] then Some False
      else None)"

text \<open>The first equals sign after the first byte splits a flag into name and value.\<close>

definition flag_name_value :: "string \<Rightarrow> string \<times> string option" where
  "flag_name_value name =
     (case str_index (CHR ''='') (tl name) of
        None \<Rightarrow> (name, None) | Some i \<Rightarrow> (take (Suc i) name, Some (drop (Suc (Suc i)) name)))"

text \<open>
  \<open>flag.Parse\<close> of the command line with \<open>ExitOnError\<close>: the values set, later
  ones winning, and the remaining arguments; or the exit code.
\<close>

fun flag_Parse :: "(string \<times> flag_kind) list \<Rightarrow> string list \<Rightarrow> (string \<times> string) list \<Rightarrow> flag_outcome" where
  "flag_Parse fl [] m = Flags m []"
| "flag_Parse fl (s # rest) m =
     (if length s < 2 \<or> hd s \<noteq> CHR ''-'' then Flags m (s # rest)
      else if s = ''--'' then Flags m rest
      else let name = (if s ! 1 = CHR ''-'' then drop 2 s else drop 1 s) in
        if name = [] \<or> hd name = CHR ''-'' \<or> hd name = CHR ''='' then FlagExit 2
        else let (nm, val) = flag_name_value name in
          (case map_of fl nm of
             None \<Rightarrow> FlagExit (if nm = ''help'' \<or> nm = ''h'' then 0 else 2)
           | Some BoolFlag \<Rightarrow>
               (case val of
                  None \<Rightarrow> flag_Parse fl rest (AList.update nm ''true'' m)
                | Some v \<Rightarrow> (if ParseBool v = None then FlagExit 2
                             else flag_Parse fl rest (AList.update nm v m)))
           | Some StringFlag \<Rightarrow>
               (case val of
                  Some v \<Rightarrow> flag_Parse fl rest (AList.update nm v m)
                | None \<Rightarrow> (case rest of [] \<Rightarrow> FlagExit 2
                           | v # rest' \<Rightarrow> flag_Parse fl rest' (AList.update nm v m)))))"

definition flag_value :: "(string \<times> string) list \<Rightarrow> string \<Rightarrow> string \<Rightarrow> string" where
  "flag_value m nm dflt = (case map_of m nm of None \<Rightarrow> dflt | Some v \<Rightarrow> v)"

definition flag_bool :: "(string \<times> string) list \<Rightarrow> string \<Rightarrow> bool" where
  "flag_bool m nm = (case map_of m nm of None \<Rightarrow> False | Some v \<Rightarrow> ParseBool v = Some True)"

section \<open>The configuration the guest reads\<close>

record guest_flags =
  containerIdFlag :: string
  runmModeFlag :: string
  bundleSource :: string
  enableOtel :: bool
  initMbinName :: string
  timezone :: string
  timeArg :: string
  mshareDirBinds :: "(string \<times> string) list"
  mshareSockBinds :: "(string \<times> string) list"

text \<open>The \<open>init\<close> function of a guest program ends in its configuration, in
  \<open>os.Exit\<close>, or in a panic.\<close>

datatype boot = Booted guest_flags | BootExit nat | BootPanic string

fun mbind_loop :: "string list \<Rightarrow> (string \<times> string) list \<Rightarrow> (string \<times> string) list option" where
  "mbind_loop [] m = Some m"
| "mbind_loop (b # bs) m =
     (case split_on (CHR ''|'') b of
        p0 # p1 # _ \<Rightarrow> mbind_loop bs (AList.update p0 p1 m) | _ \<Rightarrow> None)"

text \<open>The result \<open>None\<close> is the panic of \<open>parts[1]\<close> on a bind without a separator.\<close>

definition parse_mbinds :: "string \<Rightarrow> (string \<times> string) list option" where
  "parse_mbinds s = (if s \<noteq> [] then mbind_loop (split_on (CHR '','') s) [] else Some [])"

definition mounter_flag_set :: "(string \<times> flag_kind) list" where
  "mounter_flag_set =
     [(''container-id'', StringFlag), (''runm-mode'', StringFlag), (''bundle-source'', StringFlag),
      (''mshare-dir-binds'', StringFlag), (''mshare-sock-binds'', StringFlag), (''enable-otlp'', BoolFlag),
      (''timezone'', StringFlag), (''time'', StringFlag), (''init-mbin-name'', StringFlag),
      (''vmfuse-mount-type'', StringFlag), (''vmfuse-mount-sources'', StringFlag),
      (''vmfuse-mount-target'', StringFlag), (''vmfuse-export-path'', StringFlag),
      (''vmfuse-ready-file'', StringFlag)]"

definition init_flag_set :: "(string \<times> flag_kind) list" where
  "init_flag_set =
     [(''container-id'', StringFlag), (''runm-mode'', StringFlag), (''bundle-source'', StringFlag),
      (''enable-otlp'', BoolFlag), (''mshare-dir-binds'', StringFlag), (''mshare-sock-binds'', StringFlag),
      (''timezone'', StringFlag), (''time'', StringFlag), (''init-mbin-name'', StringFlag)]"

text \<open>The configuration from the flags; \<open>tz\<close> is the default time zone of the program.\<close>

definition read_config :: "string \<Rightarrow> (string \<times> string) list \<Rightarrow> boot" where
  "read_config tz m =
     (case parse_mbinds (flag_value m ''mshare-dir-binds'' []) of
        None \<Rightarrow> BootPanic ''index out of range''
      | Some dirs \<Rightarrow>
          (case parse_mbinds (flag_value m ''mshare-sock-binds'' []) of
             None \<Rightarrow> BootPanic ''index out of range''
           | Some socks \<Rightarrow> Booted
               \<lparr>containerIdFlag = flag_value m ''container-id'' [],
                runmModeFlag = flag_value m ''runm-mode'' [],
                bundleSource = flag_value m ''bundle-source'' [],
                enableOtel = flag_bool m ''enable-otlp'',
                initMbinName = flag_value m ''init-mbin-name'' [],
                timezone = flag_value m ''timezone'' tz,
                timeArg = flag_value m ''time'' ''0'',
                mshareDirBinds = dirs, mshareSockBinds = socks\<rparr>))"

definition mounter_init :: "string list \<Rightarrow> boot" where
  "mounter_init args =
     (case flag_Parse mounter_flag_set args [] of
        FlagExit n \<Rightarrow> BootExit n | Flags m _ \<Rightarrow> read_config ''UTC'' m)"

definition linux_init :: "string list \<Rightarrow> boot" where
  "linux_init args =
     (case flag_Parse init_flag_set args [] of
        FlagExit n \<Rightarrow> BootExit n | Flags m _ \<Rightarrow> read_config [] m)"

section \<open>Operations on the guest kernel\<close>

datatype sysop =
    MkdirAll string
  | RunCmd string string "string list"
  | WriteFile string string
  | CatMounts
  | ExecImage string "string list"
  | Settimeofday int
  | NotifySignals
  | LinkByName string
  | LinkSetUp string
  | AddrAdd string string
  | RouteAdd string string
  | DiagnoseNetwork string
  | StartTask string
  | StartMsockBind string "32 word"
  | Symlink string string
  | ParseIPNet string
  | ReadCaps
  | VsockDial nat "32 word"
  | ConfigureOTel bool
  | StartPyroscope
  | ListenUnix string
  | CopyBoth string "32 word"
  | CopyToWriter string

datatype file_read = ReadOK string | ReadNotExist ext_error | ReadError ext_error

text \<open>The hooks of an OCI specification, by stage; \<open>spec.Hooks\<close> may be nil.\<close>

record oci_hooks =
  Prestart :: "string list"
  CreateRuntime :: "string list"
  CreateContainer :: "string list"
  StartContainer :: "string list"
  Poststart :: "string list"
  Poststop :: "string list"

record guest_env =
  g_answer :: "sysop list \<Rightarrow> sysop \<Rightarrow> ext_error option"
  g_missing :: "sysop list \<Rightarrow> string \<Rightarrow> bool"
  g_read :: "sysop list \<Rightarrow> string \<Rightarrow> file_read"
  g_rootfs_json :: "string \<Rightarrow> ext_error + rootfs_mount list"
  g_hooks_json :: "string \<Rightarrow> ext_error + oci_hooks option"
  g_order :: "string list \<Rightarrow> string list"
  g_wait :: "sysop list \<Rightarrow> ext_error option"

definition sys :: "guest_env \<Rightarrow> sysop \<Rightarrow> sysop list \<Rightarrow> unit res \<times> sysop list" where
  "sys g op l = (of_opt (g_answer g l op), l @ [op])"

text \<open>
  \<open>ExecCmdForwardingStdioChroot\<close>: a command with an absolute path runs itself, any
  other is an applet of busybox. The mounter wraps the error, the init process does not.
\<close>

definition cmd_op :: "string \<Rightarrow> string list \<Rightarrow> sysop" where
  "cmd_op chroot cmds =
     (if prefix ''/'' (hd cmds) then RunCmd chroot (hd cmds) (tl cmds)
      else RunCmd chroot ''/bin/busybox'' cmds)"

definition mounter_ExecCmd :: "guest_env \<Rightarrow> string \<Rightarrow> string list \<Rightarrow> sysop list \<Rightarrow> unit res \<times> sysop list" where
  "mounter_ExecCmd g chroot cmds l =
     (if cmds = [] then (Fail (ErrNew ''no command to execute''), l)
      else wrapping ''running busybox command'' (sys g (cmd_op chroot cmds) l))"

definition init_ExecCmd :: "guest_env \<Rightarrow> string \<Rightarrow> string list \<Rightarrow> sysop list \<Rightarrow> unit res \<times> sysop list" where
  "init_ExecCmd g chroot cmds l =
     (if cmds = [] then (Fail (ErrNew ''no command to execute''), l)
      else sys g (cmd_op chroot cmds) l)"

text \<open>
  A step of a boot sequence: an operation or a command whose error ends the sequence with
  the given context, one whose error is ignored, or a directory made when it is missing.
\<close>

datatype step = Must string sysop | Cmd string string "string list" | Ignore sysop | EnsureDir string

fun do_step :: "(string \<Rightarrow> string list \<Rightarrow> sysop list \<Rightarrow> unit res \<times> sysop list) \<Rightarrow> guest_env \<Rightarrow> step \<Rightarrow>
    sysop list \<Rightarrow> unit res \<times> sysop list" where
  "do_step ex g (Must pre op) l = wrapping pre (sys g op l)"
| "do_step ex g (Cmd pre chroot cmds) l = wrapping pre (ex chroot cmds l)"
| "do_step ex g (Ignore op) l = (Ok (), l @ [op])"
| "do_step ex g (EnsureDir d) l = (Ok (), if g_missing g l d then l @ [MkdirAll d] else l)"

fun run_steps :: "(string \<Rightarrow> string list \<Rightarrow> sysop list \<Rightarrow> unit res \<times> sysop list) \<Rightarrow> guest_env \<Rightarrow> step list \<Rightarrow>
    sysop list \<Rightarrow> unit res \<times> sysop list" where
  "run_steps ex g [] l = (Ok (), l)"
| "run_steps ex g (s # ss) l = and_then (do_step ex g s l) (\<lambda>_ l. run_steps ex g ss l)"

section \<open>The mounter\<close>

definition new_root :: "string \<Rightarrow> string" where
  "new_root p = filepath_Join [''/newroot'', p]"

text \<open>The directories the host shares, each mounted at its own path below the new root.\<close>

definition mbind_steps :: "(string list \<Rightarrow> string list) \<Rightarrow> (string \<times> string) list \<Rightarrow> step list" where
  "mbind_steps ord binds =
     concat (map (\<lambda>(tag, target).
       [EnsureDir (new_root target),
        Cmd ''problem mounting mbind'' [] [''mount'', ''-t'', ''virtiofs'', tag, new_root target]])
       (map_range ord binds))"

definition mount_steps :: "guest_env \<Rightarrow> guest_flags \<Rightarrow> step list" where
  "mount_steps g f =
     [EnsureDir ''/ec1'', Ignore (MkdirAll ''/dev''), Ignore (MkdirAll ''/sys''), Ignore (MkdirAll ''/proc''),
      Ignore (MkdirAll ''/newroot''),
      Cmd ''mounting newroot onto itself'' [] [''mount'', ''-t'', ''tmpfs'', ''tmpfs'', ''/newroot''],
      Cmd ''making newroot private'' [] [''mount'', ''--make-private'', ''/newroot''],
      Cmd ''problem mounting devtmpfs'' [] [''mount'', ''-t'', ''devtmpfs'', ''devtmpfs'', ''/dev''],
      Cmd ''problem mounting sysfs'' []
        [''mount'', ''-t'', ''sysfs'', ''sysfs'', ''/sys'', ''-o'', ''nosuid,noexec,nodev''],
      Cmd ''problem mounting proc'' [] [''mount'', ''-t'', ''proc'', ''proc'', ''/proc''],
      Cmd ''problem setting pid_max'' [] [''sysctl'', ''-w'', ''kernel.pid_max=100000''],
      Cmd ''problem setting user.max_user_namespaces'' [] [''sysctl'', ''-w'', ''user.max_user_namespaces=15000''],
      Cmd ''problem mounting cgroup2'' []
        [''mount'', ''-t'', ''cgroup2'', ''none'', ''/sys/fs/cgroup'', ''-o'', ''nsdelegate''],
      Cmd ''failed to enable memory controller'' []
        [''sh'', ''-c'', ''echo +memory > /sys/fs/cgroup/cgroup.subtree_control'']] @
     (if containerIdFlag f \<noteq> [] then
        [Cmd ''failed to create child cgroup'' [] [''mkdir'', ''-p'', ''/sys/fs/cgroup/'' @ containerIdFlag f]]
      else []) @
     [Must ''failed to create newroot'' (MkdirAll ''/newroot''),
      Must ''failed to create mbin'' (MkdirAll (new_root ''/mbin''))] @
     mbind_steps (g_order g) (mshareDirBinds f) @
     [EnsureDir (new_root ''/mbin''),
      Cmd ''problem mounting mbin'' []
        [''mount'', ''-t'', ''squashfs'', ''-o'', ''ro'', ''/dev/vda'', new_root ''/mbin''],
      Must ''problem listing proc mounts'' CatMounts,
      Ignore (MkdirAll (new_root ''etc'')),
      Must ''problem updating resolve.conf''
        (WriteFile (filepath_Join [''/newroot'', ''etc'', ''resolv.conf'']) ''nameserver 192.168.127.1'')]"

definition switchRoot_steps :: "guest_flags \<Rightarrow> step list" where
  "switchRoot_steps f =
     [Ignore (MkdirAll (new_root ''/mshare'')),
      Cmd ''mounting mshare files'' []
        [''mount'', ''-t'', ''virtiofs'', ''mshare'', new_root ''/mshare'', ''-o'', []],
      Ignore (MkdirAll (new_root ''/usr/share/zoneinfo'')),
      Cmd ''mounting zoneinfo'' []
        [''mount'', ''-t'', ''virtiofs'', ''zoneinfo'', new_root ''/usr/share/zoneinfo'', ''-o'', ''ro''],
      Ignore (MkdirAll (new_root ''/etc/ssl'')),
      Cmd ''mounting ca certs'' []
        [''mount'', ''-t'', ''virtiofs'', ''cacerts'', new_root ''/etc/ssl'', ''-o'', ''ro''],
      Ignore (MkdirAll (new_root ''bin'')),
      Cmd ''copying busybox'' [] [''cp'', ''/bin/busybox'', ''/newroot/bin/busybox''],
      Cmd ''grepping mountinfo'' [] [''grep'', ''/newroot'', ''/proc/self/mountinfo''],
      Ignore (MkdirAll (new_root ''etc'')),
      Cmd ''copying localtime'' ''/newroot''
        [''ln'', ''-sf'', filepath_Join [''/usr/share/zoneinfo'', timezone f], ''/etc/localtime'']]"

text \<open>
  A successful \<open>syscall.Exec\<close> does not return: the process goes on as the new image.
\<close>

datatype handover = ImageReplaced

definition switch_root_argv :: "guest_flags \<Rightarrow> string list \<Rightarrow> string list" where
  "switch_root_argv f args =
     [''/bin/busybox'', ''switch_root'', ''/newroot''] @ (''/mbin/'' @ initMbinName f) # args"

definition switchRoot ::
  "guest_env \<Rightarrow> guest_flags \<Rightarrow> string list \<Rightarrow> sysop list \<Rightarrow> handover res \<times> sysop list" where
  "switchRoot g f args l =
     and_then (run_steps (mounter_ExecCmd g) g (switchRoot_steps f) l)
       (\<lambda>_ l. let op = ExecImage ''/bin/busybox'' (switch_root_argv f args) in
          ((if g_answer g l op = None then Ok ImageReplaced else Fail (ErrNew ''Failed to exec'')), l @ [op]))"

definition mounter_mount ::
  "guest_env \<Rightarrow> guest_flags \<Rightarrow> string list \<Rightarrow> sysop list \<Rightarrow> handover res \<times> sysop list" where
  "mounter_mount g f args l =
     (if runmModeFlag f = [] then (Fail (ErrNew ''runm-mode flag is required''), l)
      else if initMbinName f = [] then (Fail (ErrNew ''init-mbin-name flag is required''), l)
      else and_then (run_steps (mounter_ExecCmd g) g (mount_steps g f) l)
        (\<lambda>_ l. wrapping ''problem switching root'' (switchRoot g f args l)))"

section \<open>The init process\<close>

text \<open>
  Both loaders take a missing file for an error and any other read error for a missing
  file.
\<close>

definition load_json :: "(string \<Rightarrow> ext_error + 'a) \<Rightarrow> 'a \<Rightarrow> file_read \<Rightarrow> ('a \<times> bool) res" where
  "load_json un nil r =
     (case r of
        ReadNotExist e \<Rightarrow> Fail (Wrapf ''reading spec'' (Ext e))
      | ReadError e \<Rightarrow> Ok (nil, False)
      | ReadOK b \<Rightarrow> (case un b of Inl e \<Rightarrow> Fail (Wrapf ''unmarshalling spec'' (Ext e)) | Inr v \<Rightarrow> Ok (v, True)))"

definition loadRootfsMounts :: "guest_env \<Rightarrow> sysop list \<Rightarrow> (rootfs_mount list \<times> bool) res" where
  "loadRootfsMounts g l =
     load_json (g_rootfs_json g) [] (g_read g l (filepath_Join [''/mshare'', ''/container-rootfs-mounts.json'']))"

text \<open>\<open>loadSpec\<close>, as far as its caller reads the specification: the paths of its hooks.\<close>

definition loadSpec :: "guest_env \<Rightarrow> guest_flags \<Rightarrow> sysop list \<Rightarrow> (oci_hooks option \<times> bool) res" where
  "loadSpec g f l =
     load_json (g_hooks_json g) None (g_read g l (filepath_Join [bundleSource f, ''config.json'']))"

definition rootfs_steps :: "guest_flags \<Rightarrow> rootfs_mount list \<Rightarrow> step list" where
  "rootfs_steps f ms =
     map (\<lambda>m. Cmd ''problem mounting bind mount'' []
       [''mount'', ''-o'', join_with '','' (rm_Options m), rm_Source m,
        filepath_Join [bundleSource f, ''rootfs'']]) ms"

definition init_mount_steps :: "step list" where
  "init_mount_steps =
     [Must ''problem creating /dev'' (MkdirAll ''/dev''), Must ''problem creating /sys'' (MkdirAll ''/sys''),
      Must ''problem creating /proc'' (MkdirAll ''/proc''),
      Cmd ''problem mounting proc'' [] [''mount'', ''-t'', ''proc'', ''proc'', ''/proc''],
      Cmd ''problem setting pid_max'' [] [''sysctl'', ''-w'', ''kernel.pid_max=100000''],
      Cmd ''problem setting user.max_user_namespaces'' [] [''sysctl'', ''-w'', ''user.max_user_namespaces=15000''],
      Cmd ''problem mounting devtmpfs'' [] [''mount'', ''-t'', ''devtmpfs'', ''devtmpfs'', ''/dev''],
      Cmd ''problem mounting sysfs'' []
        [''mount'', ''-t'', ''sysfs'', ''sysfs'', ''/sys'', ''-o'', ''nosuid,noexec,nodev''],
      Cmd ''problem mounting cgroup2'' []
        [''mount'', ''-t'', ''cgroup2'', ''none'', ''/sys/fs/cgroup'', ''-o'', ''nsdelegate''],
      Cmd ''failed to enable memory controller'' []
        [''sh'', ''-c'', ''echo +memory > /sys/fs/cgroup/cgroup.subtree_control''],
      Must ''problem listing proc mounts'' CatMounts]"

definition init_mount :: "guest_env \<Rightarrow> guest_flags \<Rightarrow> sysop list \<Rightarrow> unit res \<times> sysop list" where
  "init_mount g f l =
     and_then (run_steps (init_ExecCmd g) g init_mount_steps l)
       (\<lambda>_ l. and_then (wrapping ''problem loading rootfs mounts'' (loadRootfsMounts g l, l))
       (\<lambda>(ms, found) l.
          if \<not> found then (Fail (ErrNew ''rootfs mounts do not exist''), l)
          else run_steps (init_ExecCmd g) g (rootfs_steps f ms) l))"

definition configureNetwork_steps :: "step list" where
  "configureNetwork_steps =
     [Must ''finding eth0 interface'' (LinkByName ''eth0''),
      Must ''bringing up eth0'' (LinkSetUp ''eth0''),
      Must ''parsing IP network'' (ParseIPNet ''192.168.127.2/24''),
      Must ''adding IP address to eth0'' (AddrAdd ''eth0'' ''192.168.127.2/24''),
      Must ''adding default route'' (RouteAdd ''eth0'' ''192.168.127.1'')]"

definition show_network :: "step list" where
  "show_network =
     [Ignore (cmd_op [] [''ip'', ''link'', ''show'']), Ignore (cmd_op [] [''ip'', ''addr'', ''show'']),
      Ignore (cmd_op [] [''ip'', ''route'', ''show''])]"

fun start_msocks :: "(string \<times> string) list \<Rightarrow> sysop list \<Rightarrow> unit res \<times> sysop list" where
  "start_msocks [] l = (Ok (), l)"
| "start_msocks ((target, port) # bs) l =
     (case Atoi port of
        None \<Rightarrow> (Fail (ErrNew ''problem parsing port''), l)
      | Some n \<Rightarrow> start_msocks bs (l @ [StartMsockBind target (word_of_int n)]))"

definition task_steps :: "guest_flags \<Rightarrow> step list" where
  "task_steps f =
     [Ignore (StartTask ''reaper''), Ignore (StartTask ''delim-writer-unix-proxy''),
      Ignore (StartTask ''raw-writer-unix-proxy''), Ignore (StartTask ''grpc-vsock-server''),
      Ignore (StartTask ''pprof-vsock-server'')] @
     (if enableOtel f then [Ignore (StartTask ''cgroup-exporter-vsock-server'')] else [])"

text \<open>\<open>run\<close>, up to the check of the network and from there on.\<close>

definition diagnose_steps :: "step list" where
  "diagnose_steps =
     Ignore (cmd_op [] [''ls'', ''-la'', ''/etc/ssl/'']) # show_network @
     [Must ''problem diagnosing network'' (DiagnoseNetwork ''https://www.google.com/'')]"

definition init_prepare :: "guest_env \<Rightarrow> guest_flags \<Rightarrow> sysop list \<Rightarrow> unit res \<times> sysop list" where
  "init_prepare g f l =
     (case Atoi (timeArg f) of
        None \<Rightarrow> (Fail (ErrNew ''problem parsing time''), l)
      | Some ns \<Rightarrow>
          (if g_answer g l (Settimeofday ns) \<noteq> None
           then (Fail (ErrNew ''unix.Settimeofday failed''), l @ [Settimeofday ns])
           else let l = l @ [Settimeofday ns] in
             if containerIdFlag f = [] then (Fail (ErrNew ''container-id flag is required''), l)
             else and_then (wrapping ''problem mounting rootfs'' (init_mount g f l))
               (\<lambda>_ l. and_then (run_steps (init_ExecCmd g) g (Ignore NotifySignals # show_network) l)
               (\<lambda>_ l. and_then (wrapping ''failed to configure network''
                   (run_steps (init_ExecCmd g) g configureNetwork_steps l))
               (\<lambda>_ l. run_steps (init_ExecCmd g) g diagnose_steps l)))))"

definition init_run :: "guest_env \<Rightarrow> guest_flags \<Rightarrow> sysop list \<Rightarrow> unit res \<times> sysop list" where
  "init_run g f l =
     and_then (init_prepare g f l)
       (\<lambda>_ l. and_then (run_steps (init_ExecCmd g) g (task_steps f) l)
       (\<lambda>_ l. and_then (start_msocks (map_range (g_order g) (mshareSockBinds f)) l)
       (\<lambda>_ l. (of_opt (g_wait g l), l))))"

fun link_hooks :: "string list \<Rightarrow> string list \<Rightarrow> sysop list \<Rightarrow> sysop list" where
  "link_hooks [] made l = l"
| "link_hooks (p # ps) made l =
     (if p \<in> set made then link_hooks ps made l
      else link_hooks ps (p # made)
        (l @ [MkdirAll (filepath_Dir p), Symlink ''/mbin/runm-linux-host-fork-exec-proxy'' p]))"

definition hooks_to_proxy :: "oci_hooks \<Rightarrow> string list" where
  "hooks_to_proxy h = Poststart h @ Poststop h @ CreateRuntime h @ CreateContainer h @ StartContainer h"

definition runProxyHooks :: "guest_env \<Rightarrow> guest_flags \<Rightarrow> sysop list \<Rightarrow> unit res \<times> sysop list" where
  "runProxyHooks g f l =
     and_then (wrapping ''failed to load spec'' (loadSpec g f l, l))
       (\<lambda>(hooks, found) l.
          if \<not> found then (Fail (ErrNew ''spec does not exist''), l)
          else wrapping ''failed to print caps'' (wrapping ''failed to get current caps''
            (sys g ReadCaps
              (case hooks of None \<Rightarrow> l | Some h \<Rightarrow> link_hooks (hooks_to_proxy h) [] l))))"

section \<open>The two programs\<close>

text \<open>\<open>setupLogger\<close> of the mounter and of the init process.\<close>

definition mounter_setupLogger :: "guest_flags \<Rightarrow> step list" where
  "mounter_setupLogger f =
     [Must ''problem dialing vsock for raw writer'' (VsockDial 2 3099),
      Must ''problem dialing vsock for log proxy'' (VsockDial 2 3098),
      Must ''failed to setup OTel SDK'' (ConfigureOTel (enableOtel f))]"

definition init_setupLogger :: "guest_flags \<Rightarrow> step list" where
  "init_setupLogger f =
     [Must ''problem dialing vsock for raw writer'' (VsockDial 2 3099),
      Must ''problem dialing vsock for log proxy'' (VsockDial 2 3098)] @
     (if enableOtel f then
        [Ignore (MkdirAll ''/runc-config-flags''), Ignore (WriteFile ''/runc-config-flags/otel-enabled'' ''1''),
         Must ''failed to setup Pyroscope'' StartPyroscope]
      else []) @
     [Must ''failed to setup OTel SDK'' (ConfigureOTel (enableOtel f))]"

text \<open>\<open>recoveryMain\<close> turns a panic of the goroutine into an error.\<close>

fun recoveryMain :: "'a res \<times> 's \<Rightarrow> 'a res \<times> 's" where
  "recoveryMain (Panic m, s) = (Fail (ErrNew (''panic in main: '' @ m)), s)"
| "recoveryMain (r, s) = (r, s)"

text \<open>
  What becomes of a program: it goes on as another image, or ends with an exit code.
\<close>

datatype program_end = Replaced | Exited nat

definition mounter_main :: "guest_env \<Rightarrow> string list \<Rightarrow> sysop list \<Rightarrow> program_end \<times> sysop list" where
  "mounter_main g args l =
     (case mounter_init args of
        BootExit n \<Rightarrow> (Exited n, l)
      | BootPanic m \<Rightarrow> (Exited 2, l)
      | Booted f \<Rightarrow>
          (case run_steps (mounter_ExecCmd g) g (mounter_setupLogger f) l of
             (Ok _, l) \<Rightarrow>
               (case recoveryMain (mounter_mount g f args l) of
                  (Ok ImageReplaced, l) \<Rightarrow> (Replaced, l) | (_, l) \<Rightarrow> (Exited 1, l))
           | (_, l) \<Rightarrow> (Exited 1, l)))"

definition init_main :: "guest_env \<Rightarrow> string list \<Rightarrow> sysop list \<Rightarrow> program_end \<times> sysop list" where
  "init_main g args l =
     (case linux_init args of
        BootExit n \<Rightarrow> (Exited n, l)
      | BootPanic m \<Rightarrow> (Exited 2, l)
      | Booted f \<Rightarrow>
          (case run_steps (init_ExecCmd g) g (init_setupLogger f) l of
             (Ok _, l) \<Rightarrow>
               (case recoveryMain (init_run g f l) of
                  (Ok _, l) \<Rightarrow> (Exited 0, l) | (_, l) \<Rightarrow> (Exited 1, l))
           | (_, l) \<Rightarrow> (Exited 1, l)))"

section \<open>The socket proxies\<close>

text \<open>
  What the accept loop of a listener sees: an error, or a connection, and with it whether
  the context is done by then.
\<close>

datatype accept = AcceptError ext_error | Accepted bool

text \<open>The loops return only at an error; \<open>None\<close> is the listener waiting for more.\<close>

fun vsock_unix_proxy_loop :: "string \<Rightarrow> accept list \<Rightarrow> sysop list \<Rightarrow> go_error option \<times> sysop list" where
  "vsock_unix_proxy_loop path [] l = (None, l)"
| "vsock_unix_proxy_loop path (AcceptError e # _) l =
     (Some (Wrapf ''problem accepting log proxy connection'' (Ext e)), l)"
| "vsock_unix_proxy_loop path (Accepted done_ctx # as) l =
     (if done_ctx then (Some (ErrNew ''context canceled''), l)
      else vsock_unix_proxy_loop path as (l @ [CopyToWriter path]))"

definition runVsockUnixProxy ::
  "guest_env \<Rightarrow> string \<Rightarrow> accept list \<Rightarrow> sysop list \<Rightarrow> go_error option \<times> sysop list" where
  "runVsockUnixProxy g path as l =
     (case g_answer g l (ListenUnix path) of
        Some e \<Rightarrow> (Some (Wrapf ''problem listening vsock for log proxy'' (Ext e)), l @ [ListenUnix path])
      | None \<Rightarrow> vsock_unix_proxy_loop path as (l @ [ListenUnix path]))"

fun reverse_proxy_loop ::
  "guest_env \<Rightarrow> string \<Rightarrow> 32 word \<Rightarrow> accept list \<Rightarrow> sysop list \<Rightarrow> go_error option \<times> sysop list" where
  "reverse_proxy_loop g path port [] l = (None, l)"
| "reverse_proxy_loop g path port (AcceptError e # _) l =
     (Some (Wrapf ''problem accepting log proxy connection'' (Ext e)), l)"
| "reverse_proxy_loop g path port (Accepted done_ctx # as) l =
     (if done_ctx then (Some (ErrNew ''context canceled''), l)
      else (case g_answer g l (VsockDial 3 port) of
              Some e \<Rightarrow> (Some (Wrapf ''problem dialing vsock for log proxy'' (Ext e)), l @ [VsockDial 3 port])
            | None \<Rightarrow> reverse_proxy_loop g path port as (l @ [VsockDial 3 port, CopyBoth path port])))"

definition runReverseVsockUnixProxy ::
  "guest_env \<Rightarrow> string \<Rightarrow> 32 word \<Rightarrow> accept list \<Rightarrow> sysop list \<Rightarrow> go_error option \<times> sysop list" where
  "runReverseVsockUnixProxy g path port as l =
     (case g_answer g l (ListenUnix path) of
        Some e \<Rightarrow> (Some (Wrapf ''problem listening vsock for log proxy'' (Ext e)), l @ [ListenUnix path])
      | None \<Rightarrow> reverse_proxy_loop g path port as (l @ [ListenUnix path]))"

section \<open>Boot sequences\<close>

text \<open>The operation is in the log, and the kernel answered it without an error.\<close>

definition succeeded :: "guest_env \<Rightarrow> sysop list \<Rightarrow> sysop \<Rightarrow> bool" where
  "succeeded g l op \<longleftrightarrow> (\<exists>l1 l2. l = l1 @ op # l2 \<and> g_answer g l1 op = None)"

lemma succeeded_prefix: "succeeded g l op \<Longrightarrow> prefix l l' \<Longrightarrow> succeeded g l' op"
  unfolding succeeded_def prefix_def by fastforce

lemma succeeded_sys: "fst (sys g op l) = Ok () \<Longrightarrow> succeeded g (snd (sys g op l)) op"
  by (force simp: succeeded_def sys_def)

lemma snd_sys [simp]: "snd (sys g op l) = l @ [op]"
  by (simp add: sys_def)

lemma fst_sys [simp]: "fst (sys g op l) = of_opt (g_answer g l op)"
  by (simp add: sys_def)

text \<open>The one operation that a step asks for.\<close>

fun step_op :: "step \<Rightarrow> sysop" where
  "step_op (Must pre op) = op"
| "step_op (Cmd pre chroot cmds) = cmd_op chroot cmds"
| "step_op (Ignore op) = op"
| "step_op (EnsureDir d) = MkdirAll d"

text \<open>
  What a boot sequence needs of the function that runs its commands: it hands each command
  to the kernel once, fails exactly when the kernel does, and never panics.
\<close>

locale command_runner =
  fixes g :: guest_env
    and ex :: "string \<Rightarrow> string list \<Rightarrow> sysop list \<Rightarrow> unit res \<times> sysop list"
  assumes logs: "cmds \<noteq> [] \<Longrightarrow> snd (ex chroot cmds l) = l @ [cmd_op chroot cmds]"
    and logs_nothing: "snd (ex chroot [] l) = l"
    and ok_iff: "cmds \<noteq> [] \<Longrightarrow> fst (ex chroot cmds l) = Ok () \<longleftrightarrow> g_answer g l (cmd_op chroot cmds) = None"
    and empty_fails: "fst (ex chroot [] l) \<noteq> Ok ()"
    and no_panic: "\<not> is_panic (fst (ex chroot cmds l))"
begin

lemma ex_grows: "prefix l (snd (ex chroot cmds l))"
  by (cases "cmds = []") (simp_all add: logs logs_nothing)

lemma do_step_grows: "prefix l (snd (do_step ex g st l))"
  by (cases st) (simp_all add: ex_grows)

lemma run_steps_grows: "prefix l (snd (run_steps ex g ss l))"
proof (induction ss arbitrary: l)
  case (Cons st ss)
  then show ?case
    using do_step_grows [of l st]
    by (auto simp: snd_and_then split: res.split intro: prefix_order.trans)
qed simp

lemma do_step_ops: "set (snd (do_step ex g st l)) \<subseteq> set l \<union> {step_op st}"
proof (cases st)
  case (Cmd pre chroot cmds)
  then show ?thesis by (cases "cmds = []") (auto simp: logs logs_nothing)
qed auto

lemma run_steps_ops: "set (snd (run_steps ex g ss l)) \<subseteq> set l \<union> step_op ` set ss"
proof (induction ss arbitrary: l)
  case (Cons st ss)
  have "set (snd (run_steps ex g ss (snd (do_step ex g st l)))) \<subseteq> set l \<union> step_op ` set (st # ss)"
    using Cons.IH [of "snd (do_step ex g st l)"] do_step_ops [of st l] by auto
  moreover have "set (snd (do_step ex g st l)) \<subseteq> set l \<union> step_op ` set (st # ss)"
    using do_step_ops [of st l] by auto
  ultimately show ?case by (simp add: snd_and_then split: res.split)
qed simp

lemma do_step_no_panic: "\<not> is_panic (fst (do_step ex g st l))"
  by (cases st) (simp_all add: no_panic)

lemma run_steps_no_panic: "\<not> is_panic (fst (run_steps ex g ss l))"
  by (induction ss arbitrary: l) (simp_all add: is_panic_and_then do_step_no_panic)

lemma run_steps_append:
  "run_steps ex g (ss @ ts) l = and_then (run_steps ex g ss l) (\<lambda>_ l. run_steps ex g ts l)"
proof (induction ss arbitrary: l)
  case (Cons st ss)
  obtain r l1 where "do_step ex g st l = (r, l1)" by force
  then show ?case using Cons by (cases r) simp_all
qed simp

text \<open>A kernel that refuses nothing lets every sequence run to its end.\<close>

lemma run_steps_succeeds:
  assumes "\<And>l op. g_answer g l op = None" "\<And>pre chroot. Cmd pre chroot [] \<notin> set ss"
  shows "fst (run_steps ex g ss l) = Ok ()"
  using assms(2)
proof (induction ss arbitrary: l)
  case (Cons st ss)
  have "fst (do_step ex g st l) = Ok ()"
  proof (cases st)
    case (Cmd pre chroot cmds)
    then show ?thesis using ok_iff [of cmds chroot l] Cons.prems assms(1) by auto
  qed (simp_all add: assms(1))
  moreover have "fst (run_steps ex g ss l1) = Ok ()" for l1
    by (rule Cons.IH) (use Cons.prems in auto)
  ultimately show ?case by (simp add: fst_and_then)
qed simp

lemma do_step_done:
  "do_step ex g (Cmd pre chroot cmds) l = (Ok (), l') \<Longrightarrow> succeeded g l' (cmd_op chroot cmds)"
  "do_step ex g (Must pre op) l = (Ok (), l') \<Longrightarrow> succeeded g l' op"
proof -
  assume a: "do_step ex g (Cmd pre chroot cmds) l = (Ok (), l')"
  then have e: "ex chroot cmds l = (Ok (), l')" by simp
  then have "cmds \<noteq> []" using empty_fails [of chroot l] by force
  with e have "l' = l @ [cmd_op chroot cmds]" "g_answer g l (cmd_op chroot cmds) = None"
    using logs [of cmds chroot l] ok_iff [of cmds chroot l] by simp_all
  then show "succeeded g l' (cmd_op chroot cmds)" by (force simp: succeeded_def)
next
  assume "do_step ex g (Must pre op) l = (Ok (), l')"
  then show "succeeded g l' op" by (force simp: sys_def succeeded_def)
qed

text \<open>A sequence that ends without an error has run each of its commands and operations
  successfully.\<close>

lemma run_steps_done:
  assumes "run_steps ex g ss l = (Ok (), l')"
  shows "Cmd pre chroot cmds \<in> set ss \<Longrightarrow> succeeded g l' (cmd_op chroot cmds)"
    and "Must pre op \<in> set ss \<Longrightarrow> succeeded g l' op"
proof -
  have "(\<forall>pre chroot cmds. Cmd pre chroot cmds \<in> set ss \<longrightarrow> succeeded g l' (cmd_op chroot cmds)) \<and>
        (\<forall>pre op. Must pre op \<in> set ss \<longrightarrow> succeeded g l' op)"
    using assms
  proof (induction ss arbitrary: l)
    case (Cons st ss)
    then obtain l1 where st: "do_step ex g st l = (Ok (), l1)" and ss: "run_steps ex g ss l1 = (Ok (), l')"
      by (auto simp: and_then_eq_Ok)
    have "prefix l1 l'" using run_steps_grows [of l1 ss] ss by simp
    with st have "(\<forall>pre chroot cmds. st = Cmd pre chroot cmds \<longrightarrow> succeeded g l' (cmd_op chroot cmds)) \<and>
        (\<forall>pre op. st = Must pre op \<longrightarrow> succeeded g l' op)"
      using do_step_done succeeded_prefix by metis
    with Cons.IH [OF ss] show ?case by auto
  qed simp
  then show "Cmd pre chroot cmds \<in> set ss \<Longrightarrow> succeeded g l' (cmd_op chroot cmds)"
    "Must pre op \<in> set ss \<Longrightarrow> succeeded g l' op" by blast+
qed

end

interpretation mounter_cmds: command_runner g "mounter_ExecCmd g" for g
  by unfold_locales (simp_all add: mounter_ExecCmd_def)

interpretation init_cmds: command_runner g "init_ExecCmd g" for g
  by unfold_locales (simp_all add: init_ExecCmd_def)

section \<open>Reading the command line\<close>

lemma flag_name_value_eq:
  "nm \<noteq> [] \<Longrightarrow> CHR ''='' \<notin> set nm \<Longrightarrow> flag_name_value (nm @ CHR ''='' # v) = (nm, Some v)"
  by (cases nm) (auto simp: flag_name_value_def str_index_first)

lemma flag_Parse_string:
  assumes "nm \<noteq> []" "CHR ''='' \<notin> set nm" "hd nm \<noteq> CHR ''-''" "map_of fl nm = Some StringFlag"
  shows "flag_Parse fl ((CHR ''-'' # nm @ CHR ''='' # v) # rest) m = flag_Parse fl rest (AList.update nm v m)"
proof -
  obtain c cs where nm: "nm = c # cs" using assms(1) by (cases nm) auto
  have "c \<noteq> CHR ''-''" "c \<noteq> CHR ''=''" using assms(2,3) nm by auto
  with assms flag_name_value_eq [of nm v] show ?thesis by (simp add: nm Let_def)
qed

lemma mbind_loop_pairs:
  assumes "\<And>a b. (a, b) \<in> set ps \<Longrightarrow> CHR ''|'' \<notin> set a \<and> CHR ''|'' \<notin> set b"
  shows "mbind_loop (map (\<lambda>(a, b). a @ ''|'' @ b) ps) m = Some (foldl (\<lambda>m (a, b). AList.update a b m) m ps)"
  using assms
proof (induction ps arbitrary: m)
  case (Cons p ps)
  obtain a b where p: "p = (a, b)" by force
  then have "CHR ''|'' \<notin> set a" "CHR ''|'' \<notin> set b" using Cons.prems by auto
  then have "split_on (CHR ''|'') (a @ CHR ''|'' # b) = [a, b]"
    by (simp add: split_on_append_sep split_on_no_sep)
  moreover have "mbind_loop (map (\<lambda>(a, b). a @ ''|'' @ b) ps) (AList.update a b m) =
      Some (foldl (\<lambda>m (a, b). AList.update a b m) (AList.update a b m) ps)"
    by (rule Cons.IH) (use Cons.prems in auto)
  ultimately show ?case by (simp add: p)
qed simp

lemma map_of_foldl_update:
  "distinct (map fst ps) \<Longrightarrow> fst ` set ps \<inter> fst ` set m = {} \<Longrightarrow>
   map_of (foldl (\<lambda>m (a, b). AList.update a b m) m ps) k =
     (case map_of ps k of None \<Rightarrow> map_of m k | Some v \<Rightarrow> Some v)"
proof (induction ps arbitrary: m)
  case (Cons p ps)
  obtain a b where p: "p = (a, b)" by force
  have "fst ` set ps \<inter> fst ` set (AList.update a b m) = {}"
    using Cons.prems p by (auto simp: dom_update)
  moreover have "map_of ps a = None"
    using Cons.prems p by (simp add: map_of_eq_None_iff)
  ultimately show ?case
    using Cons.IH [of "AList.update a b m"] Cons.prems p
    by (auto simp: update_conv split: option.splits)
qed simp

text \<open>A printed list of pairs reads back as the map it was printed from.\<close>

lemma parse_mbinds_join:
  assumes "\<And>a b. (a, b) \<in> set ps \<Longrightarrow>
      CHR ''|'' \<notin> set a \<and> CHR ''|'' \<notin> set b \<and> CHR '','' \<notin> set a \<and> CHR '','' \<notin> set b"
    and "distinct (map fst ps)"
  shows "\<exists>m. parse_mbinds (join_with '','' (map (\<lambda>(a, b). a @ ''|'' @ b) ps)) = Some m \<and>
    map_of m = map_of ps"
proof (cases "ps = []")
  case True
  then show ?thesis by (simp add: parse_mbinds_def)
next
  case False
  let ?parts = "map (\<lambda>(a, b). a @ ''|'' @ b) ps"
  have "split_on (CHR '','') (join_with '','' ?parts) = ?parts"
    by (rule split_join) (use False assms(1) in auto)
  moreover have "join_with '','' ?parts \<noteq> []"
    using False by (cases ps rule: remdups_adj.cases) (auto split: prod.splits)
  moreover have "mbind_loop ?parts [] = Some (foldl (\<lambda>m (a, b). AList.update a b m) [] ps)"
    by (rule mbind_loop_pairs) (use assms(1) in blast)
  moreover have "map_of (foldl (\<lambda>m (a, b). AList.update a b m) [] ps) = map_of ps"
    using map_of_foldl_update [OF assms(2), of "[]"] by (auto simp: fun_eq_iff split: option.splits)
  ultimately show ?thesis by (simp add: parse_mbinds_def)
qed

lemma mbind_loop_distinct: "mbind_loop bs m = Some m' \<Longrightarrow> distinct (map fst m) \<Longrightarrow> distinct (map fst m')"
  by (induction bs arbitrary: m) (auto simp: distinct_update split: list.splits)

lemma parse_mbinds_distinct: "parse_mbinds s = Some m \<Longrightarrow> distinct (map fst m)"
  by (auto simp: parse_mbinds_def dest: mbind_loop_distinct split: if_splits)

text \<open>A bind without a separator makes the guest panic.\<close>

lemma mbind_loop_None: "b \<in> set bs \<Longrightarrow> CHR ''|'' \<notin> set b \<Longrightarrow> mbind_loop bs m = None"
  by (induction bs arbitrary: m) (auto simp: split_on_no_sep split: list.split)

lemma join_with_mem:
  "x \<in> set xs \<Longrightarrow> \<exists>pre post. join_with [c] xs = pre @ x @ post \<and> (post = [] \<or> (\<exists>r. post = c # r))"
proof (induction xs rule: induct_list012)
  case (2 y)
  then show ?case by (auto intro: exI [of _ "[]"])
next
  case (3 y z zs)
  show ?case
  proof (cases "x = y")
    case True
    then show ?thesis by (auto intro: exI [of _ "[]"])
  next
    case False
    then obtain pre post where "join_with [c] (z # zs) = pre @ x @ post" "post = [] \<or> (\<exists>r. post = c # r)"
      using 3 by auto
    then show ?thesis
      by (intro exI [of _ "y @ [c] @ pre"] exI [of _ post]) simp
  qed
qed simp

lemma parse_mbinds_comma:
  assumes "x \<in> set xs" "x = y @ CHR '','' # d" "CHR '','' \<notin> set d" "CHR ''|'' \<notin> set d"
  shows "parse_mbinds (join_with '','' xs) = None"
proof -
  obtain pre post where j: "join_with '','' xs = pre @ x @ post" "post = [] \<or> (\<exists>r. post = CHR '','' # r)"
    using join_with_mem [OF assms(1)] by blast
  have "d \<in> set (split_on (CHR '','') (d @ post))"
    using j(2) assms(3) by (auto simp: split_on_no_sep split_on_append_sep)
  then have "d \<in> set (split_on (CHR '','') (join_with '','' xs))"
    using split_on_append_sep_gen [of "CHR '',''" "pre @ y" "d @ post"] by (simp add: j(1) assms(2))
  then show ?thesis
    using mbind_loop_None [OF _ assms(4)] by (auto simp: parse_mbinds_def j(1) assms(2))
qed

text \<open>
  What the kernel does with its command line: the words after \<open>--\<close> are the arguments
  of the first process. The words are separated by spaces and hold no quotes; the kernel
  takes at most 2048 bytes and 32 arguments.
\<close>

definition plain_word :: "string \<Rightarrow> bool" where
  "plain_word w = (\<forall>c \<in> set w. 33 \<le> (of_char c :: nat) \<and> (of_char c :: nat) < 127 \<and> c \<noteq> CHR 0x22)"

definition passes_args :: "(string \<Rightarrow> string list) \<Rightarrow> bool" where
  "passes_args kargs \<longleftrightarrow>
     (\<forall>pre args. (\<forall>w \<in> set (pre @ args). plain_word w) \<and> ''--'' \<notin> set pre \<and> length args < 32 \<and>
        length (join_with '' '' (pre @ ''--'' # args)) < 2048 \<longrightarrow>
        kargs (join_with '' '' (pre @ ''--'' # args)) = filter (\<lambda>w. w \<noteq> []) args)"

definition permutes_range :: "(string list \<Rightarrow> string list) \<Rightarrow> bool" where
  "permutes_range ord \<longleftrightarrow> (\<forall>ks. mset (ord ks) = mset ks)"

lemma map_range_set:
  assumes "permutes_range ord" "distinct (map fst m)"
  shows "set (map_range ord m) = set m" "distinct (map fst (map_range ord m))"
proof -
  have k: "mset (ord (map fst m)) = mset (map fst m)" using assms(1) by (simp add: permutes_range_def)
  then have s: "set (ord (map fst m)) = fst ` set m" by (metis set_map set_mset_mset)
  have "distinct (ord (map fst m))" using k assms(2) mset_eq_imp_distinct_iff by blast
  then show "distinct (map fst (map_range ord m))" by (simp add: map_range_def comp_def)
  show "set (map_range ord m) = set m"
  proof (intro set_eqI iffI)
    fix p
    assume "p \<in> set (map_range ord m)"
    then obtain k where "p = (k, the (map_of m k))" "k \<in> fst ` set m" by (auto simp: map_range_def s)
    then show "p \<in> set m" using assms(2) by (auto simp: map_of_eq_Some_iff)
  next
    fix p
    assume "p \<in> set m"
    then have "fst p \<in> set (ord (map fst m))" "map_of m (fst p) = Some (snd p)"
      using assms(2) by (auto simp: s map_of_eq_Some_iff)
    then show "p \<in> set (map_range ord m)" by (force simp: map_range_def)
  qed
qed

section \<open>From the host to the guest\<close>

lemma hex_char_code: "n < 16 \<Longrightarrow> (of_char (hex_char n) :: nat) = (if n < 10 then 48 + n else 87 + n)"
  by (simp add: hex_char_def of_char_of)

lemma quickHash_chars: "c \<in> set (quickHash d) \<Longrightarrow> 48 \<le> (of_char c :: nat) \<and> (of_char c :: nat) < 103"
proof -
  assume "c \<in> set (quickHash d)"
  then obtain w :: "64 word" where c: "c = hex_char (unat (w AND 15))"
    by (auto simp: quickHash_def hex64_def)
  have "w AND 15 \<le> 15" by (rule word_and_le1)
  then have "unat (w AND 15) < 16" by (simp add: word_le_nat_alt)
  then show ?thesis by (simp add: c hex_char_code split: if_splits)
qed

lemma share_tag_chars:
  "plain_word (share_tag d)" "CHR ''|'' \<notin> set (share_tag d)" "CHR '','' \<notin> set (share_tag d)"
proof -
  have q: "c \<noteq> CHR ''|'' \<and> c \<noteq> CHR '','' \<and> c \<noteq> CHR 0x22 \<and> 33 \<le> (of_char c :: nat) \<and> (of_char c :: nat) < 127"
    if "c \<in> set (quickHash d)" for c
    using quickHash_chars [OF that] by auto
  then show "plain_word (share_tag d)" by (auto simp: plain_word_def share_tag_def)
  show "CHR ''|'' \<notin> set (share_tag d)" "CHR '','' \<notin> set (share_tag d)"
    using q by (auto simp: share_tag_def)
qed

lemma nat_digits_chars:
  "plain_word (nat_digits n)" "CHR ''|'' \<notin> set (nat_digits n)" "CHR '','' \<notin> set (nat_digits n)"
proof -
  show "plain_word (nat_digits n)"
    unfolding plain_word_def
  proof
    fix c
    assume "c \<in> set (nat_digits n)"
    then obtain d where "d < 10" "c = digit_char d" using nat_digits_are_digits by blast
    then have "(of_char c :: nat) = 48 + d" "d < 10" using digit_char_code by auto
    then show "33 \<le> (of_char c :: nat) \<and> (of_char c :: nat) < 127 \<and> c \<noteq> CHR 0x22" by auto
  qed
  show "CHR ''|'' \<notin> set (nat_digits n)" "CHR '','' \<notin> set (nat_digits n)"
    by (rule digit_char_not; simp)+
qed

lemma plain_word_append [simp]: "plain_word (a @ b) \<longleftrightarrow> plain_word a \<and> plain_word b"
  by (auto simp: plain_word_def)

lemma plain_word_Nil [simp]: "plain_word []"
  by (simp add: plain_word_def)

lemma plain_word_Cons [simp]:
  "plain_word (c # w) \<longleftrightarrow>
     33 \<le> (of_char c :: nat) \<and> (of_char c :: nat) < 127 \<and> c \<noteq> CHR 0x22 \<and> plain_word w"
  by (auto simp: plain_word_def)

lemma plain_word_join:
  "plain_word sep \<Longrightarrow> (\<And>x. x \<in> set xs \<Longrightarrow> plain_word x) \<Longrightarrow> plain_word (join_with sep xs)"
  by (induction xs rule: induct_list012) auto

lemma plain_int_digits: "plain_word (int_digits i)"
  using nat_digits_chars(1) by (simp add: int_digits_def)

text \<open>The flags that the arguments of an OCI machine set, for either program.\<close>

definition oci_flags :: "vm_host \<Rightarrow> OCIVMConfig \<Rightarrow> DefaultVMConfig \<Rightarrow> (string \<times> string) list" where
  "oci_flags h cfg defs =
     [(''bundle-source'', Bundle cfg), (''runm-mode'', ''oci''), (''container-id'', ID cfg)] @
     (if os_Getenv h ''OTEL_EXPORTER_OTLP_ENDPOINT'' \<noteq> [] then [(''enable-otlp'', ''true'')] else []) @
     [(''init-mbin-name'', ''runm-linux-init''),
      (''mshare-dir-binds'', MshareDirsWithTags (range_order h 2) defs),
      (''mshare-sock-binds'', MshareSocketsWithPorts (range_order h 3) defs),
      (''timezone'', Timezone defs), (''time'', StartTimeUnixNanoString defs)]"

lemma flag_Parse_otlp:
  "map_of fl ''enable-otlp'' = Some BoolFlag \<Longrightarrow>
   flag_Parse fl (''-enable-otlp'' # rest) m = flag_Parse fl rest (AList.update ''enable-otlp'' ''true'' m)"
proof -
  assume "map_of fl ''enable-otlp'' = Some BoolFlag"
  moreover have "flag_name_value ''enable-otlp'' = (''enable-otlp'', None)" by code_simp
  ultimately show ?thesis by (simp add: Let_def)
qed

declare flag_Parse.simps(2) [simp del]

lemmas parse_one = flag_Parse_string [of "''bundle-source''"] flag_Parse_string [of "''runm-mode''"]
  flag_Parse_string [of "''container-id''"] flag_Parse_string [of "''init-mbin-name''"]
  flag_Parse_string [of "''mshare-dir-binds''"] flag_Parse_string [of "''mshare-sock-binds''"]
  flag_Parse_string [of "''timezone''"] flag_Parse_string [of "''time''"]

lemma oci_flags_parsed:
  assumes "fl = mounter_flag_set \<or> fl = init_flag_set"
  shows "flag_Parse fl (filter (\<lambda>w. w \<noteq> []) (oci_init_args h cfg defs)) [] = Flags (oci_flags h cfg defs) []"
proof -
  have fl: "map_of fl ''bundle-source'' = Some StringFlag" "map_of fl ''runm-mode'' = Some StringFlag"
    "map_of fl ''container-id'' = Some StringFlag" "map_of fl ''init-mbin-name'' = Some StringFlag"
    "map_of fl ''mshare-dir-binds'' = Some StringFlag" "map_of fl ''mshare-sock-binds'' = Some StringFlag"
    "map_of fl ''timezone'' = Some StringFlag" "map_of fl ''time'' = Some StringFlag"
    "map_of fl ''enable-otlp'' = Some BoolFlag"
    using assms by (auto simp: mounter_flag_set_def init_flag_set_def)
  show ?thesis
    by (simp add: oci_init_args_def oci_flags_def parse_one [simplified] fl flag_Parse_otlp)
qed

lemma oci_flag_values [simp]:
  "flag_value (oci_flags h cfg defs) ''mshare-dir-binds'' [] = MshareDirsWithTags (range_order h 2) defs"
  "flag_value (oci_flags h cfg defs) ''mshare-sock-binds'' [] = MshareSocketsWithPorts (range_order h 3) defs"
  "flag_value (oci_flags h cfg defs) ''container-id'' [] = ID cfg"
  "flag_value (oci_flags h cfg defs) ''runm-mode'' [] = ''oci''"
  "flag_value (oci_flags h cfg defs) ''bundle-source'' [] = Bundle cfg"
  "flag_value (oci_flags h cfg defs) ''init-mbin-name'' [] = ''runm-linux-init''"
  "flag_value (oci_flags h cfg defs) ''timezone'' tz = Timezone defs"
  "flag_value (oci_flags h cfg defs) ''time'' ''0'' = StartTimeUnixNanoString defs"
  "flag_bool (oci_flags h cfg defs) ''enable-otlp'' = (os_Getenv h ''OTEL_EXPORTER_OTLP_ENDPOINT'' \<noteq> [])"
  by (simp_all add: flag_value_def flag_bool_def oci_flags_def ParseBool_def)

text \<open>The directories and sockets that the machine of a container shares.\<close>

definition shared_dirs :: "vm_host \<Rightarrow> OCIVMConfig \<Rightarrow> string list" where
  "shared_dirs h cfg =
     fst (isolateMsharesFromOciSpec h (Spec cfg)) @ [rm_Source (hd (RootfsMounts cfg)), Bundle cfg]"

definition shared_socks :: "vm_host \<Rightarrow> OCIVMConfig \<Rightarrow> string list" where
  "shared_socks h cfg = snd (isolateMsharesFromOciSpec h (Spec cfg))"

definition plain_words :: "vm_host \<Rightarrow> OCIVMConfig \<Rightarrow> bool" where
  "plain_words h cfg \<longleftrightarrow>
     (\<forall>d \<in> set (shared_dirs h cfg) \<union> set (shared_socks h cfg). plain_word d) \<and> plain_word (ID cfg) \<and>
     (\<forall>tz. getHostTimezone h = Ok tz \<longrightarrow> plain_word tz)"

definition no_separators :: "string \<Rightarrow> bool" where
  "no_separators d \<longleftrightarrow> CHR ''|'' \<notin> set d \<and> CHR '','' \<notin> set d"

lemma MshareDirsWithTags_eq:
  "MshareDirsWithTags ord defs =
     join_with '','' (map (\<lambda>(t, d). t @ ''|'' @ d) (map prod.swap (map_range ord (MshareDirTags defs))))"
  by (simp add: MshareDirsWithTags_def comp_def case_prod_unfold)

lemma MshareSocketsWithPorts_eq:
  "MshareSocketsWithPorts ord defs =
     join_with '','' (map (\<lambda>(s, p). s @ ''|'' @ p)
       (map (\<lambda>(s, p). (s, nat_digits (unat p))) (map_range ord (MshareSockPorts defs))))"
  by (simp add: MshareSocketsWithPorts_def comp_def case_prod_unfold)

lemma set_sock_ports: "fst ` set (sock_ports i ss m) = set ss \<union> fst ` set m"
proof (induction ss arbitrary: i m)
  case (Cons s ss)
  then show ?case by (auto simp: dom_update [simplified])
qed simp

lemma machine_args:
  assumes vm: "NewOCIVirtualMachine h cfg devs l = (Ok vm, l')"
    and k: "passes_args kargs" "\<And>n. permutes_range (range_order h n)" "plain_words h cfg"
      "length (KernelCmdLine (vm_bootloader vm)) < 2048"
  obtains defs where
    "kargs (KernelCmdLine (vm_bootloader vm)) = filter (\<lambda>w. w \<noteq> []) (oci_init_args h cfg defs)"
    "MshareDirTags defs = tags_of (shared_dirs h cfg) []"
    "MshareSockPorts defs = sock_ports 0 (shared_socks h cfg) []"
    "vm_msockBinds vm = MshareSockPorts defs" "StartTime defs = UnixNano h"
    "getHostTimezone h = Ok (Timezone defs)"
    "\<exists>i opts b. last l' = CreateVM i opts b \<and>
       (\<forall>d \<in> set (shared_dirs h cfg). VirtioFs (share_tag d) d \<in> set (Devices opts))"
proof -
  obtain shares socks defs l1 where m: "isolateMsharesFromOciSpec h (Spec cfg) = (shares, socks)"
    "newDefaultLinuxVM h (''vm-oci-'' @ take 8 (ID cfg)) ''mbin.squashfs''
      [(''/container-oci-spec.json'', FileValue (json_spec h (Spec cfg))),
       (''/container-rootfs-mounts.json'', FileValue (json_mounts h (RootfsMounts cfg)))]
      (shares @ [rm_Source (hd (RootfsMounts cfg)), Bundle cfg]) socks []
      [(9091, 9091), (4317, 4317), (4040, 4040)] l = (Ok defs, l1)"
    "vm_bootloader vm = linux_bootloader defs (kernel_params @ ''--'' # oci_init_args h cfg defs)"
    "vm_msockBinds vm = MshareSockPorts defs"
    "l' = l1 @ [CreateVM (''vm-oci-'' @ take 8 (ID cfg))
      \<lparr>Vcpus = VCPUs cfg, Memory = StartingMemory cfg, Devices = defDevices defs @ devs,
       GuestPlatform = Platform cfg\<rparr> (vm_bootloader vm)]"
    using NewOCIVirtualMachine_Ok [OF vm] by blast
  have dirs: "shares @ [rm_Source (hd (RootfsMounts cfg)), Bundle cfg] = shared_dirs h cfg"
    "socks = shared_socks h cfg" using m(1) by (simp_all add: shared_dirs_def shared_socks_def)
  have d: "MshareDirTags defs = tags_of (shared_dirs h cfg) []"
    "MshareSockPorts defs = sock_ports 0 (shared_socks h cfg) []" "StartTime defs = UnixNano h"
    "getHostTimezone h = Ok (Timezone defs)"
    "\<forall>d \<in> set (shared_dirs h cfg). VirtioFs (share_tag d) d \<in> set (defDevices defs)"
    using newDefaultLinuxVM_Ok [OF m(2)] by (auto simp: dirs)
  have pd: "plain_word (MshareDirsWithTags (range_order h 2) defs)"
    unfolding MshareDirsWithTags_def
    using k(3) map_range_set(1) [OF k(2) distinct_tags [of "[]" "shared_dirs h cfg"], of 2] share_tag_chars(1)
    by (auto intro!: plain_word_join simp: d(1) plain_words_def tags_of_mem)
  have "plain_word s" if "(s, p) \<in> set (sock_ports 0 (shared_socks h cfg) [])" for s p
    using that k(3) set_sock_ports [of 0 "shared_socks h cfg" "[]"] by (force simp: plain_words_def)
  then have ps: "plain_word (MshareSocketsWithPorts (range_order h 3) defs)"
    unfolding MshareSocketsWithPorts_def
    using map_range_set(1) [OF k(2) distinct_sock_ports [of "[]" 0 "shared_socks h cfg"], of 3] nat_digits_chars(1)
    by (auto intro!: plain_word_join simp: d(2))
  have "plain_word (Bundle cfg)" using k(3) by (simp add: plain_words_def shared_dirs_def)
  then have "\<forall>w \<in> set (kernel_params @ oci_init_args h cfg defs). plain_word w"
    using pd ps k(3) d(4)
    by (simp add: kernel_params_def oci_init_args_def plain_words_def StartTimeUnixNanoString_def plain_int_digits)
  moreover have "KernelCmdLine (vm_bootloader vm) = join_with '' '' (kernel_params @ ''--'' # oci_init_args h cfg defs)"
    by (simp add: m(3) linux_bootloader_def)
  moreover have "''--'' \<notin> set kernel_params" "length (oci_init_args h cfg defs) < 32"
    by (simp_all add: kernel_params_def oci_init_args_def)
  ultimately have "kargs (KernelCmdLine (vm_bootloader vm)) = filter (\<lambda>w. w \<noteq> []) (oci_init_args h cfg defs)"
    using k(1,4) unfolding passes_args_def by metis
  then show thesis
    using that m(4,5) d by fastforce
qed

text \<open>What either program reads when no path has a separator in it.\<close>

lemma dir_binds_read:
  assumes "permutes_range ord" "MshareDirTags defs = tags_of ds []" "inj_on quickHash (set ds)"
    "\<And>d. d \<in> set ds \<Longrightarrow> no_separators d"
  shows "\<exists>m. parse_mbinds (MshareDirsWithTags ord defs) = Some m \<and>
    (\<forall>t d. map_of m t = Some d \<longleftrightarrow> d \<in> set ds \<and> t = share_tag d)"
proof -
  let ?ps = "map prod.swap (map_range ord (tags_of ds []))"
  have r: "set (map_range ord (tags_of ds [])) = set (tags_of ds [])"
    "distinct (map fst (map_range ord (tags_of ds [])))"
    using map_range_set [OF assms(1) distinct_tags [of "[]" ds]] by simp_all
  have mem: "(t, d) \<in> set ?ps \<longleftrightarrow> d \<in> set ds \<and> t = share_tag d" for t d
    by (simp add: r(1) tags_of_mem)
  have "inj_on snd (set (map_range ord (tags_of ds [])))"
    using assms(3) by (auto simp: r(1) tags_of_mem inj_on_def share_tag_def)
  then have "distinct (map snd (map_range ord (tags_of ds [])))"
    using r(2) by (simp add: distinct_map)
  then have dist: "distinct (map fst ?ps)" by (simp add: comp_def)
  obtain m where "parse_mbinds (join_with '','' (map (\<lambda>(t, d). t @ ''|'' @ d) ?ps)) = Some m" "map_of m = map_of ?ps"
    using parse_mbinds_join [OF _ dist] mem share_tag_chars assms(4) unfolding no_separators_def by metis
  then show ?thesis
    using mem map_of_eq_Some_iff [OF dist] by (auto simp: MshareDirsWithTags_eq assms(2))
qed

lemma sock_binds_read:
  assumes "permutes_range ord" "MshareSockPorts defs = sock_ports 0 ss []"
    "\<And>s. s \<in> set ss \<Longrightarrow> no_separators s"
  shows "\<exists>m. parse_mbinds (MshareSocketsWithPorts ord defs) = Some m \<and>
    (\<forall>s. map_of m s = map_option (\<lambda>p. nat_digits (unat p)) (map_of (MshareSockPorts defs) s))"
proof -
  let ?q = "map_range ord (sock_ports 0 ss [])" and ?f = "\<lambda>(s, p). (s, nat_digits (unat p))"
  have r: "set ?q = set (sock_ports 0 ss [])" "distinct (map fst ?q)"
    using map_range_set [OF assms(1) distinct_sock_ports [of "[]" 0 ss]] by simp_all
  have dist: "distinct (map fst (map ?f ?q))" using r(2) by (simp add: comp_def case_prod_unfold)
  have "no_separators s" if "(s, p) \<in> set (sock_ports 0 ss [])" for s p
    using that assms(3) set_sock_ports [of 0 ss "[]"] by force
  then obtain m where m: "parse_mbinds (join_with '','' (map (\<lambda>(s, p). s @ ''|'' @ p) (map ?f ?q))) = Some m"
    "map_of m = map_of (map ?f ?q)"
    using parse_mbinds_join [OF _ dist] nat_digits_chars r(1) unfolding no_separators_def by fastforce
  have "map_of (map ?f ?q) s = map_option (\<lambda>p. nat_digits (unat p)) (map_of ?q s)" for s
    by (simp add: map_of_map)
  moreover have "map_of ?q = map_of (sock_ports 0 ss [])"
    using r distinct_sock_ports [of "[]" 0 ss] by (intro map_of_eqI) (auto intro: map_of_eqI simp: map_of_eq_Some_iff)
  ultimately show ?thesis
    using m by (simp add: MshareSocketsWithPorts_eq assms(2))
qed

text \<open>
  C4: What the host puts on the kernel command line of a container's machine is what both
  guest programs read from it: the same container id, bundle, mode, time and time zone;
  each tag of a shared directory with its directory, and no other; and each shared socket
  with the port the host chose. The paths must be free of the characters that separate
  the words of a command line and the entries of a list.
\<close>

theorem guest_reads_host_config:
  assumes "NewOCIVirtualMachine h cfg devs l = (Ok vm, l')"
    and "passes_args kargs" "\<And>n. permutes_range (range_order h n)" "plain_words h cfg"
    and "length (KernelCmdLine (vm_bootloader vm)) < 2048"
    and "\<And>d. d \<in> set (shared_dirs h cfg) \<union> set (shared_socks h cfg) \<Longrightarrow> no_separators d"
    and "inj_on quickHash (set (shared_dirs h cfg))"
    and "- (2 ^ 63) \<le> UnixNano h" "UnixNano h < 2 ^ 63"
  shows "\<exists>f. mounter_init (kargs (KernelCmdLine (vm_bootloader vm))) = Booted f \<and>
    linux_init (kargs (KernelCmdLine (vm_bootloader vm))) = Booted f \<and>
    containerIdFlag f = ID cfg \<and> bundleSource f = Bundle cfg \<and> runmModeFlag f = ''oci'' \<and>
    initMbinName f = ''runm-linux-init'' \<and>
    enableOtel f = (os_Getenv h ''OTEL_EXPORTER_OTLP_ENDPOINT'' \<noteq> []) \<and>
    getHostTimezone h = Ok (timezone f) \<and> Atoi (timeArg f) = Some (UnixNano h) \<and>
    (\<forall>t d. map_of (mshareDirBinds f) t = Some d \<longleftrightarrow> d \<in> set (shared_dirs h cfg) \<and> t = share_tag d) \<and>
    (\<forall>s. map_of (mshareSockBinds f) s = map_option (\<lambda>p. nat_digits (unat p)) (map_of (vm_msockBinds vm) s))"
proof -
  obtain defs where d:
    "kargs (KernelCmdLine (vm_bootloader vm)) = filter (\<lambda>w. w \<noteq> []) (oci_init_args h cfg defs)"
    "MshareDirTags defs = tags_of (shared_dirs h cfg) []"
    "MshareSockPorts defs = sock_ports 0 (shared_socks h cfg) []"
    "vm_msockBinds vm = MshareSockPorts defs" "StartTime defs = UnixNano h"
    "getHostTimezone h = Ok (Timezone defs)"
    using machine_args [OF assms(1-5)] by metis
  obtain dirs where dirs: "parse_mbinds (MshareDirsWithTags (range_order h 2) defs) = Some dirs"
    "\<forall>t x. map_of dirs t = Some x \<longleftrightarrow> x \<in> set (shared_dirs h cfg) \<and> t = share_tag x"
    using dir_binds_read [OF assms(3) d(2) assms(7), of 2] assms(6) by blast
  obtain socks where socks: "parse_mbinds (MshareSocketsWithPorts (range_order h 3) defs) = Some socks"
    "\<forall>s. map_of socks s = map_option (\<lambda>p. nat_digits (unat p)) (map_of (MshareSockPorts defs) s)"
    using sock_binds_read [OF assms(3) d(3), of 3] assms(6) by blast
  have "Atoi (StartTimeUnixNanoString defs) = Some (UnixNano h)"
    using Atoi_int_digits [OF assms(8,9)] by (simp add: StartTimeUnixNanoString_def d(5))
  then show ?thesis
    using dirs socks d(4,6)
    by (simp add: mounter_init_def linux_init_def d(1) oci_flags_parsed read_config_def)
qed

text \<open>
  C34: A comma in the path of a shared directory keeps the guest from booting: whatever
  order the entries are printed in, the program at the other end panics before it has done
  anything.
\<close>

theorem comma_path_stops_guest:
  assumes "NewOCIVirtualMachine h cfg devs l = (Ok vm, l')"
    and "passes_args kargs" "\<And>n. permutes_range (range_order h n)" "plain_words h cfg"
    and "length (KernelCmdLine (vm_bootloader vm)) < 2048"
    and "d \<in> set (shared_dirs h cfg)" "CHR '','' \<in> set d" "CHR ''|'' \<notin> set d"
  shows "mounter_main g (kargs (KernelCmdLine (vm_bootloader vm))) lg = (Exited 2, lg)"
proof -
  obtain defs where a:
    "kargs (KernelCmdLine (vm_bootloader vm)) = filter (\<lambda>w. w \<noteq> []) (oci_init_args h cfg defs)"
    "MshareDirTags defs = tags_of (shared_dirs h cfg) []"
    using machine_args [OF assms(1-5)] by metis
  obtain d1 d2 where d: "d = d1 @ CHR '','' # d2" "CHR '','' \<notin> set d2"
    using split_list_last [OF assms(7)] by blast
  have "(d, share_tag d) \<in> set (map_range (range_order h 2) (tags_of (shared_dirs h cfg) []))"
    using map_range_set(1) [OF assms(3) distinct_tags [of "[]" "shared_dirs h cfg"]] assms(6)
    by (simp add: tags_of_mem)
  then have "share_tag d @ ''|'' @ d \<in>
      set (map (\<lambda>(dir, tag). tag @ ''|'' @ dir) (map_range (range_order h 2) (tags_of (shared_dirs h cfg) [])))"
    by force
  moreover have "share_tag d @ ''|'' @ d = (share_tag d @ ''|'' @ d1) @ CHR '','' # d2" by (simp add: d(1))
  moreover have "CHR ''|'' \<notin> set d2" using assms(8) d(1) by simp
  ultimately have "parse_mbinds (MshareDirsWithTags (range_order h 2) defs) = None"
    unfolding MshareDirsWithTags_def a(2) using d(2) parse_mbinds_comma by blast
  then show ?thesis
    by (simp add: mounter_main_def mounter_init_def a(1) oci_flags_parsed read_config_def)
qed

section \<open>What the mounter has done when it hands over\<close>

lemma mbind_steps_mem:
  assumes "(tag, target) \<in> set (map_range ord binds)"
  shows "Cmd ''problem mounting mbind'' [] [''mount'', ''-t'', ''virtiofs'', tag, new_root target]
    \<in> set (mbind_steps ord binds)"
  using assms by (force simp: mbind_steps_def)

lemma mbind_steps_in_mount:
  "set (mbind_steps (g_order g) (mshareDirBinds f)) \<subseteq> set (mount_steps g f)"
  unfolding mount_steps_def set_append by blast

lemma switchRoot_Ok:
  assumes "switchRoot g f args l = (Ok r, l')"
  shows "prefix l l' \<and> last l' = ExecImage ''/bin/busybox'' (switch_root_argv f args)"
proof -
  obtain l1 where "run_steps (mounter_ExecCmd g) g (switchRoot_steps f) l = (Ok (), l1)"
    "l' = l1 @ [ExecImage ''/bin/busybox'' (switch_root_argv f args)]"
    using assms by (auto simp: switchRoot_def and_then_eq_Ok Let_def)
  then show ?thesis
    using mounter_cmds.run_steps_grows [of l g "switchRoot_steps f"] by (auto intro: prefix_order.trans)
qed

lemma mounter_mount_Ok:
  assumes "mounter_mount g f args l = (Ok r, l')"
  shows "last l' = ExecImage ''/bin/busybox'' (switch_root_argv f args)"
    and "Cmd pre chroot cmds \<in> set (mount_steps g f) \<Longrightarrow> succeeded g l' (cmd_op chroot cmds)"
proof -
  obtain l1 where l1: "run_steps (mounter_ExecCmd g) g (mount_steps g f) l = (Ok (), l1)"
    "switchRoot g f args l1 = (Ok r, l')"
    using assms by (auto simp: mounter_mount_def and_then_eq_Ok split: if_splits)
  show "last l' = ExecImage ''/bin/busybox'' (switch_root_argv f args)"
    using switchRoot_Ok [OF l1(2)] by simp
  show "succeeded g l' (cmd_op chroot cmds)" if "Cmd pre chroot cmds \<in> set (mount_steps g f)"
    using mounter_cmds.run_steps_done(1) [OF l1(1) that] switchRoot_Ok [OF l1(2)] succeeded_prefix by blast
qed

lemma mounter_main_Replaced:
  assumes "mounter_main g args l = (Replaced, l')"
  obtains f l1 where "mounter_init args = Booted f" "mounter_mount g f args l1 = (Ok ImageReplaced, l')"
proof (cases "mounter_init args")
  case (Booted f)
  obtain u l1 where r: "run_steps (mounter_ExecCmd g) g (mounter_setupLogger f) l = (u, l1)" by force
  obtain v l2 where m: "mounter_mount g f args l1 = (v, l2)" by force
  have "u = Ok ()" using assms Booted r by (cases u) (auto simp: mounter_main_def)
  then have "v = Ok ImageReplaced \<and> l2 = l'"
    using assms Booted r m
    by (cases v) (auto simp: mounter_main_def split: handover.splits)
  then show thesis using that Booted m by simp
qed (use assms in \<open>simp_all add: mounter_main_def\<close>)

text \<open>
  C7: When the mounter hands over to the init process, every directory that the machine of
  the container shares has been mounted below the new root at the path it has on the host,
  from the device of the machine that shares this directory; and the init process gets the
  arguments of the kernel command line.
\<close>

theorem shared_dirs_mounted:
  assumes "NewOCIVirtualMachine h cfg devs l = (Ok vm, l')"
    and "passes_args kargs" "\<And>n. permutes_range (range_order h n)" "plain_words h cfg"
    and "length (KernelCmdLine (vm_bootloader vm)) < 2048"
    and "\<And>d. d \<in> set (shared_dirs h cfg) \<union> set (shared_socks h cfg) \<Longrightarrow> no_separators d"
    and "inj_on quickHash (set (shared_dirs h cfg))"
    and "permutes_range (g_order g)"
    and "mounter_main g (kargs (KernelCmdLine (vm_bootloader vm))) [] = (Replaced, lg)"
    and "d \<in> set (shared_dirs h cfg)"
  shows "(\<exists>i opts b. last l' = CreateVM i opts b \<and> VirtioFs (share_tag d) d \<in> set (Devices opts)) \<and>
    succeeded g lg (RunCmd [] ''/bin/busybox'' [''mount'', ''-t'', ''virtiofs'', share_tag d, new_root d]) \<and>
    last lg = ExecImage ''/bin/busybox'' ([''/bin/busybox'', ''switch_root'', ''/newroot'', ''/mbin/runm-linux-init''] @
      kargs (KernelCmdLine (vm_bootloader vm)))"
proof -
  define args where "args = kargs (KernelCmdLine (vm_bootloader vm))"
  obtain defs where a: "args = filter (\<lambda>w. w \<noteq> []) (oci_init_args h cfg defs)"
    "MshareDirTags defs = tags_of (shared_dirs h cfg) []"
    "MshareSockPorts defs = sock_ports 0 (shared_socks h cfg) []"
    "\<exists>i opts b. last l' = CreateVM i opts b \<and>
       (\<forall>d \<in> set (shared_dirs h cfg). VirtioFs (share_tag d) d \<in> set (Devices opts))"
    using machine_args [OF assms(1-5)] unfolding args_def by metis
  obtain dirs where dirs: "parse_mbinds (MshareDirsWithTags (range_order h 2) defs) = Some dirs"
    "\<forall>t x. map_of dirs t = Some x \<longleftrightarrow> x \<in> set (shared_dirs h cfg) \<and> t = share_tag x"
    using dir_binds_read [OF assms(3) a(2) assms(7), of 2] assms(6) by blast
  obtain f lm where f: "mounter_init args = Booted f" "mounter_mount g f args lm = (Ok ImageReplaced, lg)"
    using mounter_main_Replaced assms(9) unfolding args_def by metis
  have fd: "mshareDirBinds f = dirs" "initMbinName f = ''runm-linux-init''"
    using f(1) dirs(1)
    by (auto simp: mounter_init_def a(1) oci_flags_parsed read_config_def split: option.splits)
  have "distinct (map fst dirs)"
    using dirs(1) by (rule parse_mbinds_distinct)
  then have "(share_tag d, d) \<in> set (map_range (g_order g) dirs)"
    using map_range_set(1) [OF assms(8)] dirs(2) assms(10) by (auto simp: map_of_eq_Some_iff)
  then have "succeeded g lg (cmd_op [] [''mount'', ''-t'', ''virtiofs'', share_tag d, new_root d])"
    using mounter_mount_Ok(2) [OF f(2)] mbind_steps_in_mount [of g f] mbind_steps_mem fd(1) by blast
  moreover have "last lg = ExecImage ''/bin/busybox'' (switch_root_argv f args)"
    using mounter_mount_Ok(1) [OF f(2)] .
  ultimately show ?thesis
    using a(4) assms(10) by (fastforce simp: cmd_op_def switch_root_argv_def fd(2) args_def)
qed

section \<open>What the init process has done when it starts its servers\<close>

definition rootfs_op :: "guest_flags \<Rightarrow> rootfs_mount \<Rightarrow> sysop" where
  "rootfs_op f m = cmd_op [] [''mount'', ''-o'', join_with '','' (rm_Options m), rm_Source m,
     filepath_Join [bundleSource f, ''rootfs'']]"

text \<open>No task of the init process is started on the way from one log to another.\<close>

definition no_task_between :: "sysop list \<Rightarrow> sysop list \<Rightarrow> bool" where
  "no_task_between l l' \<longleftrightarrow> (\<forall>t. StartTask t \<in> set l' \<longrightarrow> StartTask t \<in> set l)"

lemma no_task_trans: "no_task_between l l1 \<Longrightarrow> no_task_between l1 l2 \<Longrightarrow> no_task_between l l2"
  by (simp add: no_task_between_def)

lemma no_task_steps:
  "(\<And>t. StartTask t \<notin> step_op ` set ss) \<Longrightarrow> no_task_between l (snd (run_steps (init_ExecCmd g) g ss l))"
  using init_cmds.run_steps_ops [of g ss l] unfolding no_task_between_def by blast

lemma cmd_op_no_task [simp]: "StartTask t \<noteq> cmd_op chroot cmds" "cmd_op chroot cmds \<noteq> StartTask t"
  by (simp_all add: cmd_op_def)

lemma no_task_and_then:
  "no_task_between l (snd x) \<Longrightarrow> (\<And>v. no_task_between (snd x) (snd (k v (snd x)))) \<Longrightarrow>
   no_task_between l (snd (and_then x k))"
  by (auto simp: snd_and_then intro: no_task_trans split: res.split)

lemma no_task_refl [simp]: "no_task_between l l"
  by (simp add: no_task_between_def)

lemma init_mount_quiet: "no_task_between l (snd (init_mount g f l))"
proof -
  have "no_task_between l (snd (run_steps (init_ExecCmd g) g init_mount_steps l))"
    by (rule no_task_steps) (auto simp: init_mount_steps_def)
  moreover have "no_task_between l1 (snd (run_steps (init_ExecCmd g) g (rootfs_steps f ms) l1))" for l1 ms
    by (rule no_task_steps) (auto simp: rootfs_steps_def)
  ultimately show ?thesis
    unfolding init_mount_def by (intro no_task_and_then) (auto split: prod.split)
qed

lemma init_prepare_quiet: "no_task_between l (snd (init_prepare g f l))"
proof -
  have "no_task_between l1 (snd (run_steps (init_ExecCmd g) g (Ignore NotifySignals # show_network) l1))"
    "no_task_between l1 (snd (run_steps (init_ExecCmd g) g configureNetwork_steps l1))"
    "no_task_between l1 (snd (run_steps (init_ExecCmd g) g diagnose_steps l1))" for l1
    by (rule no_task_steps; auto simp: show_network_def configureNetwork_steps_def diagnose_steps_def)+
  then have "no_task_between l1 (snd (and_then (wrapping ''problem mounting rootfs'' (init_mount g f l1))
               (\<lambda>_ l. and_then (run_steps (init_ExecCmd g) g (Ignore NotifySignals # show_network) l)
               (\<lambda>_ l. and_then (wrapping ''failed to configure network''
                   (run_steps (init_ExecCmd g) g configureNetwork_steps l))
               (\<lambda>_ l. run_steps (init_ExecCmd g) g diagnose_steps l)))))" for l1
    by (intro no_task_and_then) (simp_all add: init_mount_quiet del: run_steps.simps)
  then have "no_task_between l (snd (and_then (wrapping ''problem mounting rootfs'' (init_mount g f (l @ [Settimeofday ns])))
               (\<lambda>_ l. and_then (run_steps (init_ExecCmd g) g (Ignore NotifySignals # show_network) l)
               (\<lambda>_ l. and_then (wrapping ''failed to configure network''
                   (run_steps (init_ExecCmd g) g configureNetwork_steps l))
               (\<lambda>_ l. run_steps (init_ExecCmd g) g diagnose_steps l)))))" for ns
    by (rule no_task_trans [rotated]) (simp add: no_task_between_def)
  then show ?thesis
    by (simp add: init_prepare_def Let_def no_task_between_def del: run_steps.simps split: option.split)
qed

lemma init_mount_Ok:
  assumes "init_mount g f l = (Ok (), l')"
  shows "prefix l l' \<and> (\<exists>ms l1. loadRootfsMounts g l1 = Ok (ms, True) \<and> prefix l l1 \<and> prefix l1 l' \<and>
    (\<forall>m \<in> set ms. succeeded g l' (rootfs_op f m)))"
proof -
  obtain l1 ms where m: "run_steps (init_ExecCmd g) g init_mount_steps l = (Ok (), l1)"
    "loadRootfsMounts g l1 = Ok (ms, True)"
    "run_steps (init_ExecCmd g) g (rootfs_steps f ms) l1 = (Ok (), l')"
    using assms by (auto simp: init_mount_def and_then_eq_Ok split: if_splits)
  have p: "prefix l l1" "prefix l1 l'"
    using init_cmds.run_steps_grows [of l g init_mount_steps] init_cmds.run_steps_grows [of l1 g "rootfs_steps f ms"]
      m by simp_all
  have "succeeded g l' (rootfs_op f x)" if "x \<in> set ms" for x
    unfolding rootfs_op_def
    by (rule init_cmds.run_steps_done(1) [OF m(3)]) (use that in \<open>force simp: rootfs_steps_def\<close>)
  with m(2) p show ?thesis by (blast intro: prefix_order.trans)
qed

lemma init_prepare_Ok:
  assumes "init_prepare g f l = (Ok (), l')"
  shows "\<exists>ms l1. loadRootfsMounts g l1 = Ok (ms, True) \<and> prefix l1 l' \<and>
    (\<forall>m \<in> set ms. succeeded g l' (rootfs_op f m)) \<and>
    succeeded g l' (RouteAdd ''eth0'' ''192.168.127.1'') \<and>
    succeeded g l' (DiagnoseNetwork ''https://www.google.com/'')"
proof -
  obtain l0 l1 l2 l3 where c: "init_mount g f l0 = (Ok (), l1)"
    "run_steps (init_ExecCmd g) g (Ignore NotifySignals # show_network) l1 = (Ok (), l2)"
    "run_steps (init_ExecCmd g) g configureNetwork_steps l2 = (Ok (), l3)"
    "run_steps (init_ExecCmd g) g diagnose_steps l3 = (Ok (), l')"
    using assms
    by (auto simp: init_prepare_def Let_def and_then_eq_Ok simp del: run_steps.simps split: option.splits if_splits)
  have p: "prefix l1 l'" "prefix l3 l'"
    using init_cmds.run_steps_grows [of l1 g "Ignore NotifySignals # show_network"]
      init_cmds.run_steps_grows [of l2 g configureNetwork_steps] init_cmds.run_steps_grows [of l3 g diagnose_steps] c
    by (auto simp del: run_steps.simps intro: prefix_order.trans)
  have "succeeded g l3 (RouteAdd ''eth0'' ''192.168.127.1'')"
    by (rule init_cmds.run_steps_done(2) [OF c(3)]) (simp add: configureNetwork_steps_def)
  moreover have "succeeded g l' (DiagnoseNetwork ''https://www.google.com/'')"
    by (rule init_cmds.run_steps_done(2) [OF c(4), of "''problem diagnosing network''"]) (simp add: diagnose_steps_def)
  ultimately show ?thesis
    using init_mount_Ok [OF c(1)] p succeeded_prefix by (meson prefix_order.trans)
qed

lemma start_msocks_grows: "prefix l (snd (start_msocks bs l))"
proof (induction bs arbitrary: l)
  case (Cons b bs)
  obtain t p where "b = (t, p)" by force
  moreover have "prefix l (snd (start_msocks bs (l @ [x])))" for x
    using Cons [of "l @ [x]"] by (auto dest: append_prefixD)
  ultimately show ?case by (simp split: option.split)
qed simp

text \<open>
  C10: No server of the guest is started before the container's root file system is mounted
  and the network works: when a task was started, the mounts that the host wrote for the
  root file system had been loaded and every one of them had succeeded before, and so had
  the default route and the check of the network.
\<close>

theorem servers_start_after_mounts:
  assumes "init_run g f [] = (r, l')" "StartTask t \<in> set l'"
  shows "\<exists>lb la ms l1. l' = lb @ la \<and> (\<forall>t. StartTask t \<notin> set lb) \<and>
    loadRootfsMounts g l1 = Ok (ms, True) \<and> prefix l1 lb \<and> (\<forall>m \<in> set ms. succeeded g lb (rootfs_op f m)) \<and>
    succeeded g lb (RouteAdd ''eth0'' ''192.168.127.1'') \<and>
    succeeded g lb (DiagnoseNetwork ''https://www.google.com/'')"
proof -
  obtain u lb where prep: "init_prepare g f [] = (u, lb)" by force
  have quiet: "\<forall>t. StartTask t \<notin> set lb"
    using init_prepare_quiet [of "[]" g f] prep by (simp add: no_task_between_def)
  have u: "u = Ok ()" using assms prep quiet by (cases u) (auto simp: init_run_def)
  obtain v l1 where t: "run_steps (init_ExecCmd g) g (task_steps f) lb = (v, l1)" by force
  obtain w l2 where m: "start_msocks (map_range (g_order g) (mshareSockBinds f)) l1 = (w, l2)" by force
  have "prefix lb l1" "prefix l1 l2"
    using init_cmds.run_steps_grows [of lb g "task_steps f"] start_msocks_grows [of l1] t m by (metis snd_conv)+
  moreover have "l' = l1 \<or> l' = l2"
    using assms(1) prep u t m by (cases v; cases w) (auto simp: init_run_def)
  ultimately have "prefix lb l'" by (auto intro: prefix_order.trans)
  then obtain la where "l' = lb @ la" by (auto simp: prefix_def)
  then show ?thesis
    using init_prepare_Ok [of g f "[]" lb] prep u quiet by blast
qed

section \<open>Errors of the guest programs\<close>

text \<open>
  The machine of a kernel command never boots: its command line passes
  \<open>runm-mode=empty\<close> without the dash of a flag, so the mounter finds no mode and ends
  with an error whatever the kernel does.
\<close>

lemma kernel_command_vm_never_boots:
  assumes "passes_args kargs"
  shows "fst (mounter_main g (kargs empty_cmdline) l) = Exited 1"
proof -
  have "kargs empty_cmdline = [''runm-mode=empty'']"
    using assms [unfolded passes_args_def, rule_format, of "[''console=hvc0'']" "[''runm-mode=empty'']"]
    by (simp add: empty_cmdline_def)
  then have "mounter_init (kargs empty_cmdline) = read_config ''UTC'' []"
    by (simp add: mounter_init_def flag_Parse.simps(2))
  moreover obtain f where "read_config ''UTC'' [] = Booted f" "runmModeFlag f = []"
    by (simp add: read_config_def flag_value_def parse_mbinds_def)
  moreover obtain r l1 where "run_steps (mounter_ExecCmd g) g (mounter_setupLogger f) l = (r, l1)" by force
  ultimately show ?thesis
    by (cases r) (simp_all add: mounter_main_def mounter_mount_def del: run_steps.simps)
qed

text \<open>
  The loaders of the init process have the two read errors the wrong way round: a missing
  file is an error, and an unreadable one counts as a file that does not exist.
\<close>

lemma load_json_inverted:
  "load_json un nil (ReadNotExist e) = Fail (Wrapf ''reading spec'' (Ext e))"
  "load_json un nil (ReadError e) = Ok (nil, False)"
  by (simp_all add: load_json_def)

text \<open>
  A connection that cannot be dialled ends the whole proxy: the listener is closed for all
  clients to come.
\<close>

lemma failed_dial_ends_proxy:
  "g_answer g l (VsockDial 3 port) = Some e \<Longrightarrow>
   reverse_proxy_loop g path port (Accepted False # later) l =
     (Some (Wrapf ''problem dialing vsock for log proxy'' (Ext e)), l @ [VsockDial 3 port])"
  by simp

text \<open>The proxy for the sockets of the host dials the guest itself, context id 3, and never
  the host, context id 2.\<close>

lemma reverse_proxy_dials_guest:
  "VsockDial cid p \<in> set (snd (reverse_proxy_loop g path port as l)) \<Longrightarrow>
   VsockDial cid p \<notin> set l \<Longrightarrow> cid = 3 \<and> p = port"
  by (induction g path port as l rule: reverse_proxy_loop.induct) (auto split: if_splits option.splits)

text \<open>Each hook is linked once, and hooks of the \<open>prestart\<close> stage are not linked at all.\<close>

lemma link_hooks_once:
  "count_list (link_hooks ps made l) (Symlink ''/mbin/runm-linux-host-fork-exec-proxy'' p) =
     count_list l (Symlink ''/mbin/runm-linux-host-fork-exec-proxy'' p) +
     (if p \<in> set ps \<and> p \<notin> set made then 1 else 0)"
  by (induction ps arbitrary: made l) auto

lemma prestart_not_proxied: "hooks_to_proxy (h\<lparr>Prestart := ps\<rparr>) = hooks_to_proxy h"
  by (simp add: hooks_to_proxy_def)

section \<open>A boot that succeeds\<close>

definition kernel_words :: "string \<Rightarrow> string list" where
  "kernel_words s =
     filter (\<lambda>w. w \<noteq> []) (tl (dropWhile (\<lambda>w. w \<noteq> ''--'') (split_on (CHR '' '') s)))"

lemma kernel_words_pass: "passes_args kernel_words"
  unfolding passes_args_def
proof (intro allI impI)
  fix pre args
  assume a: "(\<forall>w \<in> set (pre @ args). plain_word w) \<and> ''--'' \<notin> set pre \<and> length args < 32 \<and>
    length (join_with '' '' (pre @ ''--'' # args)) < 2048"
  have "CHR '' '' \<notin> set w" if "plain_word w" for w
    using that by (force simp: plain_word_def)
  with a have "split_on (CHR '' '') (join_with '' '' (pre @ ''--'' # args)) = pre @ ''--'' # args"
    by (intro split_join) auto
  moreover have "dropWhile (\<lambda>w. w \<noteq> ''--'') (pre @ ''--'' # args) = ''--'' # args"
    using a by (subst dropWhile_append2) auto
  ultimately show "kernel_words (join_with '' '' (pre @ ''--'' # args)) = filter (\<lambda>w. w \<noteq> []) args"
    by (simp add: kernel_words_def)
qed


lemma demo_shared_dirs:
  "shared_dirs demo_host (demo_config\<lparr>Bundle := b\<rparr>) = [''/data'', ''/snap'', b]"
  "shared_socks demo_host (demo_config\<lparr>Bundle := b\<rparr>) = [''/run/d.sock'']"
  using demo_isolate by (simp_all add: shared_dirs_def shared_socks_def demo_config_simps)

lemma demo_plain: "plain_word b \<Longrightarrow> plain_words demo_host (demo_config\<lparr>Bundle := b\<rparr>)"
  by (simp add: plain_words_def demo_shared_dirs demo_timezone demo_config_simps)

lemma demo_order: "permutes_range (range_order demo_host n)"
  by (simp add: permutes_range_def)

lemma length_share_tag: "length (share_tag d) = 27"
  by (simp add: share_tag_def quickHash_def hex64_def)

lemma demo_cmdline_short:
  assumes "NewOCIVirtualMachine demo_host (demo_config\<lparr>Bundle := b\<rparr>) [] [] = (Ok vm, l')"
    "b = ''/run/b'' \<or> b = ''/run/a,b''"
  shows "length (KernelCmdLine (vm_bootloader vm)) < 2048"
proof -
  let ?cfg = "demo_config\<lparr>Bundle := b\<rparr>"
  obtain shares socks defs l1 where m: "isolateMsharesFromOciSpec demo_host (Spec ?cfg) = (shares, socks)"
    "newDefaultLinuxVM demo_host (''vm-oci-'' @ take 8 (ID ?cfg)) ''mbin.squashfs''
      [(''/container-oci-spec.json'', FileValue (json_spec demo_host (Spec ?cfg))),
       (''/container-rootfs-mounts.json'', FileValue (json_mounts demo_host (RootfsMounts ?cfg)))]
      (shares @ [rm_Source (hd (RootfsMounts ?cfg)), Bundle ?cfg]) socks []
      [(9091, 9091), (4317, 4317), (4040, 4040)] [] = (Ok defs, l1)"
    "vm_bootloader vm = linux_bootloader defs (kernel_params @ ''--'' # oci_init_args demo_host ?cfg defs)"
    using NewOCIVirtualMachine_Ok [OF assms(1)] by blast
  have s: "shares = [''/data'']" "socks = [''/run/d.sock'']" using m(1) demo_isolate by auto
  have d: "MshareDirTags defs = tags_of [''/data'', ''/snap'', b] []"
    "MshareSockPorts defs = sock_ports 0 [''/run/d.sock''] []" "Timezone defs = ''UTC''" "StartTime defs = UnixNano demo_host"
    using newDefaultLinuxVM_Ok [OF m(2)] by (auto simp: s demo_config_simps demo_timezone)
  have "length (MshareDirsWithTags (range_order demo_host 2) defs) < 200"
    using assms(2) by (auto simp: MshareDirsWithTags_def map_range_def d(1) length_share_tag)
  moreover have "length (nat_digits (unat (msock_port 0))) = 4"
    by (simp add: unat_msock_port nat_digits.simps)
  then have "length (MshareSocketsWithPorts (range_order demo_host 3) defs) < 30"
    by (simp add: MshareSocketsWithPorts_def map_range_def d(2))
  moreover have "length (int_digits 42) = 2" by (simp add: int_digits_def nat_digits.simps)
  then have "length (StartTimeUnixNanoString defs) = 2"
    by (simp add: StartTimeUnixNanoString_def d(4) demo_host_def)
  ultimately show ?thesis
    using assms(2)
    by (auto simp: m(3) linux_bootloader_def kernel_params_def oci_init_args_def demo_config_simps d(3) demo_host_def)
qed

lemma demo_hashes: "distinct (map quickHash [''/data'', ''/snap'', ''/run/b''])"
  by code_simp

lemma demo_bundle: "demo_config\<lparr>Bundle := ''/run/b''\<rparr> = demo_config"
  by (simp add: demo_config_def)

lemma demo_inj: "inj_on quickHash (set (shared_dirs demo_host demo_config))"
  using demo_hashes demo_shared_dirs(1) [of "''/run/b''"] by (simp add: demo_bundle distinct_map)

lemma demo_separators:
  "d \<in> set (shared_dirs demo_host demo_config) \<union> set (shared_socks demo_host demo_config) \<Longrightarrow> no_separators d"
  using demo_shared_dirs [of "''/run/b''"] by (auto simp: demo_bundle no_separators_def)

text \<open>With a kernel that refuses nothing the mounter hands over.\<close>

lemma mounter_hands_over:
  assumes "\<And>l op. g_answer g l op = None" "mounter_init args = Booted f"
    "runmModeFlag f \<noteq> []" "initMbinName f \<noteq> []"
  shows "fst (mounter_main g args l) = Replaced"
proof -
  have "fst (run_steps (mounter_ExecCmd g) g (mounter_setupLogger f) l) = Ok ()" for l
    by (rule mounter_cmds.run_steps_succeeds) (auto simp: assms(1) mounter_setupLogger_def)
  moreover have "fst (run_steps (mounter_ExecCmd g) g (mount_steps g f) l) = Ok ()" for l
    by (rule mounter_cmds.run_steps_succeeds) (auto simp: assms(1) mount_steps_def mbind_steps_def)
  moreover have "fst (run_steps (mounter_ExecCmd g) g (switchRoot_steps f) l) = Ok ()" for l
    by (rule mounter_cmds.run_steps_succeeds) (auto simp: assms(1) switchRoot_steps_def)
  ultimately have "fst (mounter_mount g f args l) = Ok ImageReplaced"
    "fst (run_steps (mounter_ExecCmd g) g (mounter_setupLogger f) l) = Ok ()" for l
    using assms by (simp_all add: mounter_mount_def switchRoot_def fst_and_then Let_def)
  then obtain l1 l2 where "run_steps (mounter_ExecCmd g) g (mounter_setupLogger f) l = (Ok (), l1)"
    "mounter_mount g f args l1 = (Ok ImageReplaced, l2)"
    by (metis prod.collapse)
  then show ?thesis
    by (simp add: mounter_main_def assms(2))
qed

lemma init_starts_servers:
  assumes "\<And>l op. g_answer g l op = None" "Atoi (timeArg f) = Some ns" "containerIdFlag f \<noteq> []"
    "\<And>l. loadRootfsMounts g l = Ok (ms, True)"
  shows "StartTask ''reaper'' \<in> set (snd (init_run g f []))"
proof -
  have r: "fst (run_steps (init_ExecCmd g) g ss l) = Ok ()" if "\<And>pre chroot. Cmd pre chroot [] \<notin> set ss" for ss l
    by (rule init_cmds.run_steps_succeeds) (use assms(1) that in auto)
  have "fst (run_steps (init_ExecCmd g) g init_mount_steps l) = Ok ()"
    "fst (run_steps (init_ExecCmd g) g (rootfs_steps f ms) l) = Ok ()"
    "fst (run_steps (init_ExecCmd g) g (Ignore NotifySignals # show_network) l) = Ok ()"
    "fst (run_steps (init_ExecCmd g) g configureNetwork_steps l) = Ok ()"
    "fst (run_steps (init_ExecCmd g) g diagnose_steps l) = Ok ()" for l
    by (rule r; force simp: init_mount_steps_def rootfs_steps_def show_network_def configureNetwork_steps_def
        diagnose_steps_def)+
  then have "fst (init_prepare g f []) = Ok ()"
    using assms
    by (simp add: init_prepare_def init_mount_def Let_def fst_and_then case_prod_beta del: run_steps.simps)
  then obtain lb where lb: "init_prepare g f [] = (Ok (), lb)" by (metis prod.collapse)
  obtain l1 where t: "run_steps (init_ExecCmd g) g (task_steps f) lb = (Ok (), l1)" "StartTask ''reaper'' \<in> set l1"
    by (cases "enableOtel f") (simp_all add: task_steps_def)
  have "set l1 \<subseteq> set (snd (init_run g f []))"
    using start_msocks_grows [of l1] lb t(1)
    by (auto simp: init_run_def snd_and_then del: run_steps.simps dest!: set_mono_prefix split: res.split)
  then show ?thesis using t(2) by blast
qed

theorem guest_reads_host_config_witness:
  "\<exists>vm f. fst (NewOCIVirtualMachine demo_host demo_config [] []) = Ok vm \<and>
     linux_init (kernel_words (KernelCmdLine (vm_bootloader vm))) = Booted f \<and>
     containerIdFlag f = ''my-container-1'' \<and> map_of (mshareDirBinds f) (share_tag ''/data'') = Some ''/data''"
proof -
  obtain vm where vm: "NewOCIVirtualMachine demo_host demo_config [] [] =
      (Ok vm, snd (NewOCIVirtualMachine demo_host demo_config [] []))"
    by (rule demo_machine)
  have "length (KernelCmdLine (vm_bootloader vm)) < 2048"
    using demo_cmdline_short [of "''/run/b''"] vm by (simp add: demo_bundle)
  moreover have "plain_words demo_host demo_config"
    using demo_plain [of "''/run/b''"] by (simp add: demo_bundle)
  moreover have "- (2 ^ 63) \<le> UnixNano demo_host" "UnixNano demo_host < 2 ^ 63"
    by (simp_all add: demo_host_def)
  ultimately obtain f where f: "linux_init (kernel_words (KernelCmdLine (vm_bootloader vm))) = Booted f"
    "containerIdFlag f = ID demo_config"
    "\<forall>t d. map_of (mshareDirBinds f) t = Some d \<longleftrightarrow> d \<in> set (shared_dirs demo_host demo_config) \<and> t = share_tag d"
    using guest_reads_host_config [OF vm kernel_words_pass demo_order _ _ demo_separators demo_inj] by blast
  have "''/data'' \<in> set (shared_dirs demo_host demo_config)"
    using demo_shared_dirs(1) [of "''/run/b''"] by (simp add: demo_bundle)
  then show ?thesis
    using f arg_cong [OF vm, of fst] by (intro exI [of _ vm] exI [of _ f]) (simp add: demo_config_simps)
qed

theorem comma_path_stops_guest_witness:
  "\<exists>vm. fst (NewOCIVirtualMachine demo_host (demo_config\<lparr>Bundle := ''/run/a,b''\<rparr>) [] []) = Ok vm \<and>
     (\<forall>g lg. mounter_main g (kernel_words (KernelCmdLine (vm_bootloader vm))) lg = (Exited 2, lg))"
proof -
  obtain vm l' where vm: "NewOCIVirtualMachine demo_host (demo_config\<lparr>Bundle := ''/run/a,b''\<rparr>) [] [] = (Ok vm, l')"
    using demo_machine_starts [of "''/run/a,b''"] by (metis is_okE prod.collapse)
  have short: "length (KernelCmdLine (vm_bootloader vm)) < 2048"
    using demo_cmdline_short [OF vm] by simp
  have plain: "plain_words demo_host (demo_config\<lparr>Bundle := ''/run/a,b''\<rparr>)" by (rule demo_plain) simp
  have "''/run/a,b'' \<in> set (shared_dirs demo_host (demo_config\<lparr>Bundle := ''/run/a,b''\<rparr>))"
    by (simp add: demo_shared_dirs)
  from comma_path_stops_guest [OF vm kernel_words_pass demo_order plain short this] vm show ?thesis
    by auto
qed

text \<open>A guest kernel that refuses nothing, with the root file system of the host's share.\<close>

definition demo_guest :: guest_env where
  "demo_guest =
     \<lparr>g_answer = \<lambda>_ _. None, g_missing = \<lambda>_ _. True, g_read = \<lambda>_ _. ReadOK ''[]'',
      g_rootfs_json = \<lambda>_. Inr (RootfsMounts demo_config), g_hooks_json = \<lambda>_. Inr None,
      g_order = rev, g_wait = \<lambda>_. None\<rparr>"

theorem shared_dirs_mounted_witness:
  "\<exists>vm lg. fst (NewOCIVirtualMachine demo_host demo_config [] []) = Ok vm \<and>
     mounter_main demo_guest (kernel_words (KernelCmdLine (vm_bootloader vm))) [] = (Replaced, lg) \<and>
     succeeded demo_guest lg (RunCmd [] ''/bin/busybox''
       [''mount'', ''-t'', ''virtiofs'', share_tag ''/data'', new_root ''/data''])"
proof -
  obtain vm where vm: "NewOCIVirtualMachine demo_host demo_config [] [] =
      (Ok vm, snd (NewOCIVirtualMachine demo_host demo_config [] []))"
    by (rule demo_machine)
  have short: "length (KernelCmdLine (vm_bootloader vm)) < 2048"
    using demo_cmdline_short [of "''/run/b''"] vm by (simp add: demo_bundle)
  have plain: "plain_words demo_host demo_config"
    using demo_plain [of "''/run/b''"] by (simp add: demo_bundle)
  obtain defs where a: "kernel_words (KernelCmdLine (vm_bootloader vm)) = filter (\<lambda>w. w \<noteq> []) (oci_init_args demo_host demo_config defs)"
    "MshareDirTags defs = tags_of (shared_dirs demo_host demo_config) []"
    "MshareSockPorts defs = sock_ports 0 (shared_socks demo_host demo_config) []"
    using machine_args [OF vm kernel_words_pass demo_order plain short] by metis
  obtain ds where ds: "parse_mbinds (MshareDirsWithTags (range_order demo_host 2) defs) = Some ds"
    using dir_binds_read [OF demo_order a(2) demo_inj, of 2] demo_separators by blast
  obtain ss where ss: "parse_mbinds (MshareSocketsWithPorts (range_order demo_host 3) defs) = Some ss"
    using sock_binds_read [OF demo_order a(3), of 3] demo_separators by blast
  obtain f where f: "mounter_init (kernel_words (KernelCmdLine (vm_bootloader vm))) = Booted f"
    "runmModeFlag f \<noteq> []" "initMbinName f \<noteq> []"
    using ds ss
    by (simp add: mounter_init_def a(1) oci_flags_parsed read_config_def)
  have "fst (mounter_main demo_guest (kernel_words (KernelCmdLine (vm_bootloader vm))) []) = Replaced"
    by (rule mounter_hands_over [OF _ f]) (simp add: demo_guest_def)
  then obtain lg where lg: "mounter_main demo_guest (kernel_words (KernelCmdLine (vm_bootloader vm))) [] = (Replaced, lg)"
    by (metis prod.collapse)
  have "permutes_range (g_order demo_guest)" by (simp add: permutes_range_def demo_guest_def)
  moreover have "''/data'' \<in> set (shared_dirs demo_host demo_config)"
    using demo_shared_dirs(1) [of "''/run/b''"] by (simp add: demo_bundle)
  ultimately have "succeeded demo_guest lg (RunCmd [] ''/bin/busybox''
       [''mount'', ''-t'', ''virtiofs'', share_tag ''/data'', new_root ''/data''])"
    using shared_dirs_mounted [OF vm kernel_words_pass demo_order plain short demo_separators demo_inj _ lg] by blast
  then show ?thesis
    using lg arg_cong [OF vm, of fst] by (intro exI [of _ vm] exI [of _ lg]) simp
qed

definition demo_flags :: guest_flags where
  "demo_flags =
     \<lparr>containerIdFlag = ''my-container-1'', runmModeFlag = ''oci'', bundleSource = ''/run/b'', enableOtel = False,
      initMbinName = ''runm-linux-init'', timezone = ''UTC'', timeArg = ''0'', mshareDirBinds = [], mshareSockBinds = []\<rparr>"

theorem servers_start_after_mounts_witness:
  "\<exists>lb la ms l1. snd (init_run demo_guest demo_flags []) = lb @ la \<and>
     loadRootfsMounts demo_guest l1 = Ok (ms, True) \<and> (\<forall>m \<in> set ms. succeeded demo_guest lb (rootfs_op demo_flags m))"
proof -
  have "Atoi (timeArg demo_flags) = Some 0"
    by (simp add: demo_flags_def Atoi_def digit_val_def)
  moreover have "loadRootfsMounts demo_guest l = Ok (RootfsMounts demo_config, True)" for l
    by (simp add: loadRootfsMounts_def load_json_def demo_guest_def)
  ultimately have "StartTask ''reaper'' \<in> set (snd (init_run demo_guest demo_flags []))"
    by (intro init_starts_servers) (simp_all add: demo_guest_def demo_flags_def)
  from servers_start_after_mounts [OF prod.collapse [symmetric] this] show ?thesis by blast
qed

end
