(* ===== verification/RunningVM.thy ===== *)
theory RunningVM
  imports VsockManager VmConfig
begin

text \<open>
  A machine on the host (\<open>core/virt/vmm/runningvm.go\<close>, \<open>vsock.go\<close>, \<open>hypervisor.go\<close>,
  \<open>hostservice.go\<close>): starting and closing it, the monitor of its state with the callers
  that wait for its end, the loops of the vsock proxies, and the file descriptors of the
  proxies. Loops are functions of the turn they are in, as in \<open>VsockManager\<close>.
\<close>

section \<open>Loops over listeners\<close>

datatype copy = CopyToWriterFrom nat | CopyFromWriterTo nat

partial_function (option) proxy_server_loop ::
  "(nat \<Rightarrow> ext_error + nat) \<Rightarrow> bool \<Rightarrow> nat \<Rightarrow> copy list \<Rightarrow> (unit res \<times> copy list) option" where
  "proxy_server_loop acc readable n copies =
     (case acc n of
        Inl e \<Rightarrow> proxy_server_loop acc readable (n + 1) copies
      | Inr c \<Rightarrow> proxy_server_loop acc readable (n + 1)
          (copies @ [CopyToWriterFrom c] @ (if readable then [CopyFromWriterTo c] else [])))"

text \<open>\<open>writer\<close> is \<open>None\<close> for a nil writer, else it says whether the writer is a reader too.\<close>

definition RunVsockProxyServer ::
  "ext_error option \<Rightarrow> bool option \<Rightarrow> (nat \<Rightarrow> ext_error + nat) \<Rightarrow> (unit res \<times> copy list) option" where
  "RunVsockProxyServer listen writer acc =
     (case listen of
        Some e \<Rightarrow> Some (Fail (Wrapf ''listening on vsock'' (Ext e)), [])
      | None \<Rightarrow>
          (case writer of
             None \<Rightarrow> Some (Fail (ErrNew ''writer is nil''), [])
           | Some readable \<Rightarrow> proxy_server_loop acc readable 0 []))"

partial_function (option) RunVsockProxyClient ::
  "(nat \<Rightarrow> ext_error + nat) \<Rightarrow> (nat \<Rightarrow> ext_error + nat) \<Rightarrow> nat \<Rightarrow> (nat \<times> nat) list \<Rightarrow>
   (unit res \<times> (nat \<times> nat) list) option" where
  "RunVsockProxyClient acc connect n pairs =
     (case acc n of
        Inl e \<Rightarrow> RunVsockProxyClient acc connect (n + 1) pairs
      | Inr c \<Rightarrow>
          (case connect n of
             Inl e \<Rightarrow> Some (Fail (Wrapf ''listening on vsock'' (Ext e)), pairs)
           | Inr v \<Rightarrow> RunVsockProxyClient acc connect (n + 1) (pairs @ [(c, v)])))"

text \<open>\<open>strings.TrimPrefix\<close>.\<close>

definition TrimPrefix :: "string \<Rightarrow> string \<Rightarrow> string" where
  "TrimPrefix s p = (if prefix p s then drop (length p) s else s)"

definition otel_endpoint :: "string \<Rightarrow> string" where
  "otel_endpoint e = TrimPrefix (TrimPrefix (TrimPrefix e ''dns://'') ''http://'') ''https://''"

partial_function (option) otel_loop ::
  "(nat \<Rightarrow> bool) \<Rightarrow> (nat \<Rightarrow> ext_error + nat) \<Rightarrow> nat \<Rightarrow> nat list \<Rightarrow> (unit res \<times> nat list) option" where
  "otel_loop ctx_done acc n served =
     (if ctx_done n then Some (Fail (ErrNew ''context canceled''), served)
      else (case acc n of
              Inl e \<Rightarrow> Some (Fail (Wrapf ''vsock accept'' (Ext e)), served)
            | Inr c \<Rightarrow> otel_loop ctx_done acc (n + 1) (served @ [c])))"

definition SetupOtelForwarder ::
  "ext_error option \<Rightarrow> (string \<Rightarrow> ext_error option) \<Rightarrow> string \<Rightarrow> (nat \<Rightarrow> bool) \<Rightarrow> (nat \<Rightarrow> ext_error + nat) \<Rightarrow>
   (unit res \<times> nat list) option" where
  "SetupOtelForwarder listen dial endpoint ctx_done acc =
     (case listen of
        Some e \<Rightarrow> Some (Fail (Wrapf ''listening on vsock'' (Ext e)), [])
      | None \<Rightarrow>
          (case dial (otel_endpoint endpoint) of
             Some e \<Rightarrow> Some (Fail (Wrapf ''dialing unix socket'' (Ext e)), [])
           | None \<Rightarrow> otel_loop ctx_done acc 0 []))"

datatype retry_event = RetryTick "ext_error + nat" | RetryTimeout | RetryDone

partial_function (option) connect_retry_loop ::
  "(nat \<Rightarrow> retry_event) \<Rightarrow> nat \<Rightarrow> go_error \<Rightarrow> nat res option" where
  "connect_retry_loop ev n lastError =
     (case ev n of
        RetryTick r \<Rightarrow>
          (case r of Inr c \<Rightarrow> Some (Ok c) | Inl e \<Rightarrow> connect_retry_loop ev (n + 1) (Ext e))
      | RetryTimeout \<Rightarrow> Some (Fail (Wrapf ''timeout waiting for guest service connection'' lastError))
      | RetryDone \<Rightarrow> Some (Fail (ErrNew ''context canceled'')))"

definition connectToVsockWithRetry :: "(nat \<Rightarrow> retry_event) \<Rightarrow> nat res option" where
  "connectToVsockWithRetry ev = connect_retry_loop ev 0 (ErrNew ''initial error'')"

section \<open>Descriptors of the vsock proxies\<close>

text \<open>
  What is open: sockets, files, listeners, connections and proxies are handles, numbered in
  the order they are created.
\<close>

record fd_table =
  fd_next :: nat
  fd_open :: "nat list"

definition fd_acquire :: "ext_error option \<Rightarrow> fd_table \<Rightarrow> nat res \<times> fd_table" where
  "fd_acquire err t =
     (case err of
        Some e \<Rightarrow> (Fail (Ext e), t)
      | None \<Rightarrow> (Ok (fd_next t), t\<lparr>fd_next := Suc (fd_next t), fd_open := fd_open t @ [fd_next t]\<rparr>))"

definition fd_close :: "nat list \<Rightarrow> fd_table \<Rightarrow> fd_table" where
  "fd_close hs t = t\<lparr>fd_open := filter (\<lambda>h. h \<notin> set hs) (fd_open t)\<rparr>"

text \<open>The errors of the calls of one proxy: socket, file listener, vsock connect, vsock
  listen, proxy start.\<close>

record expose_env =
  ee_socket :: "ext_error option"
  ee_file_listener :: "ext_error option"
  ee_connect :: "ext_error option"
  ee_listen :: "ext_error option"
  ee_start :: "ext_error option"

text \<open>The results are the handles that the returned close function closes.\<close>

definition ExposeConnectVsockProxy :: "expose_env \<Rightarrow> fd_table \<Rightarrow> nat list res \<times> fd_table" where
  "ExposeConnectVsockProxy E t =
     and_then (wrapping ''creating unix socket'' (fd_acquire (ee_socket E) t))
       (\<lambda>file t. and_then (wrapping ''creating vsock listener'' (fd_acquire (ee_file_listener E) t))
       (\<lambda>listener t. and_then (wrapping ''connecting to vsock'' (fd_acquire (ee_connect E) t))
       (\<lambda>connz t. and_then (wrapping ''starting proxy'' (fd_acquire (ee_start E) t))
       (\<lambda>proxy t. (Ok [proxy, file, listener, connz], t)))))"

definition ExposeListenVsockProxy :: "expose_env \<Rightarrow> fd_table \<Rightarrow> nat list res \<times> fd_table" where
  "ExposeListenVsockProxy E t =
     and_then (wrapping ''creating unix socket'' (fd_acquire (ee_socket E) t))
       (\<lambda>file t. and_then (wrapping ''connecting to vsock'' (fd_acquire (ee_connect E) t))
       (\<lambda>connz t. and_then (wrapping ''listening to vsock'' (fd_acquire (ee_listen E) t))
       (\<lambda>listener t. and_then (wrapping ''starting proxy'' (fd_acquire (ee_start E) t))
       (\<lambda>proxy t. (Ok [proxy, file, listener, connz], t)))))"

definition ExposeVsock :: "expose_env \<Rightarrow> string \<Rightarrow> fd_table \<Rightarrow> nat list res \<times> fd_table" where
  "ExposeVsock E direction t =
     (if direction = ''guest-listens-as-server'' then ExposeConnectVsockProxy E t
      else ExposeListenVsockProxy E t)"

text \<open>
  The loop over the vsock devices of a machine, and at its end the deferred close
  functions. \<open>env port\<close> has the errors of the calls for a port.
\<close>

fun start_vsock_loop ::
  "(32 word \<Rightarrow> expose_env) \<Rightarrow> virtio_device list \<Rightarrow> nat list list \<Rightarrow> fd_table \<Rightarrow> nat list list \<times> fd_table" where
  "start_vsock_loop env [] closers t = (closers, t)"
| "start_vsock_loop env (VirtioVsock port url direction # ds) closers t =
     (if url = [] then start_vsock_loop env ds closers t
      else (case ExposeVsock (env port) direction t of
              (Ok hs, t') \<Rightarrow> start_vsock_loop env ds (hs # closers) t'
            | (_, t') \<Rightarrow> start_vsock_loop env ds closers t'))"
| "start_vsock_loop env (_ # ds) closers t = start_vsock_loop env ds closers t"

fun run_closers :: "nat list list \<Rightarrow> fd_table \<Rightarrow> fd_table" where
  "run_closers [] t = t"
| "run_closers (hs # closers) t = run_closers closers (fd_close hs t)"

definition is_vsock :: "virtio_device \<Rightarrow> bool" where
  "is_vsock d = (case d of VirtioVsock _ _ _ \<Rightarrow> True | _ \<Rightarrow> False)"

definition StartVSockDevices ::
  "(32 word \<Rightarrow> expose_env) \<Rightarrow> virtio_device list \<Rightarrow> fd_table \<Rightarrow> unit res \<times> fd_table" where
  "StartVSockDevices env devices t =
     (let (closers, t') = start_vsock_loop env (VirtioDevicesOfType is_vsock devices) [] t
      in (Ok (), run_closers closers t'))"

text \<open>
  \<open>NewVSockStreamFileProxy\<close>: a socket pair, a connection made from one end (a duplicate of
  its descriptor), and the connection to the guest. The result is the other end and what the
  close function closes.
\<close>

record stream_env =
  se_pair :: "ext_error option"
  se_file_conn :: "ext_error option"
  se_connect :: "ext_error option"
  se_host_conn :: "ext_error option"

definition NewVSockStreamFileProxy :: "stream_env \<Rightarrow> fd_table \<Rightarrow> (nat \<times> nat list) res \<times> fd_table" where
  "NewVSockStreamFileProxy E t =
     and_then (wrapping ''creating socket pair'' (fd_acquire (se_pair E) t))
       (\<lambda>hostFile t. and_then (fd_acquire None t)
       (\<lambda>vmFile t.
         (case fd_acquire (se_file_conn E) t of
            (Ok internal, t) \<Rightarrow>
              (case fd_acquire (se_connect E) t of
                 (Ok guest, t) \<Rightarrow> (Ok (hostFile, [internal, guest]), t)
               | (Fail e, t) \<Rightarrow> (Fail (Wrapf ''connecting to guest VSock port'' e), fd_close [internal] t)
               | (Panic m, t) \<Rightarrow> (Panic m, t))
          | (Fail e, t) \<Rightarrow> (Fail (Wrapf ''creating internalConnToVmFile from file'' e), fd_close [vmFile] t)
          | (Panic m, t) \<Rightarrow> (Panic m, t))))"

definition NewVSockStreamConnection :: "stream_env \<Rightarrow> fd_table \<Rightarrow> (nat \<times> nat list) res \<times> fd_table" where
  "NewVSockStreamConnection E t =
     and_then (wrapping ''creating unix socket stream connection'' (NewVSockStreamFileProxy E t))
       (\<lambda>(fd, hs) t. and_then (wrapping ''creating host side connection'' (fd_acquire (se_host_conn E) t))
       (\<lambda>hostSide t. (Ok (hostSide, fd # hs), t)))"

text \<open>\<open>dialMsockBind\<close>: both connections are closed by the deferred calls before the
  caller gets the first.\<close>

definition dialMsockBind :: "ext_error option \<Rightarrow> ext_error option \<Rightarrow> fd_table \<Rightarrow> nat res \<times> fd_table" where
  "dialMsockBind dial connect t =
     and_then (wrapping ''dialing msock bind source'' (fd_acquire dial t))
       (\<lambda>conn t.
         (case fd_acquire connect t of
            (Ok v, t) \<Rightarrow> (Ok conn, fd_close [v, conn] t)
          | (Fail e, t) \<Rightarrow> (Fail (Wrapf ''connecting to vsock port'' e), fd_close [conn] t)
          | (Panic m, t) \<Rightarrow> (Panic m, fd_close [conn] t)))"

section \<open>Requests to the guest and from it\<close>

text \<open>\<open>strings.Fields\<close> on ASCII text: the maximal runs of bytes that are no white space.\<close>

fun fields_loop :: "string \<Rightarrow> string \<Rightarrow> string list" where
  "fields_loop [] acc = (if acc = [] then [] else [rev acc])"
| "fields_loop (c # cs) acc =
     (if is_space c then (if acc = [] then fields_loop cs [] else rev acc # fields_loop cs [])
      else fields_loop cs (c # acc))"

definition Fields :: "string \<Rightarrow> string list" where
  "Fields s = fields_loop s []"

record command_reply =
  cr_stdout :: string
  cr_stderr :: string
  cr_exit :: int

definition RunCommandSimple ::
  "ext_error option \<Rightarrow> (string \<Rightarrow> string list \<Rightarrow> ext_error + command_reply) \<Rightarrow> string \<Rightarrow> command_reply res" where
  "RunCommandSimple service run command =
     (case service of
        Some e \<Rightarrow> Fail (Wrapf ''getting guest service'' (Ext e))
      | None \<Rightarrow>
          (case Fields command of
             [] \<Rightarrow> Panic ''index out of range''
           | argc # argv \<Rightarrow> of_sum (run argc argv)))"

text \<open>The outcome of \<open>cmd.Run\<close>: it ran with an exit code, or it could not be run.\<close>

datatype cmd_run = CmdExited int string string | CmdNotRun ext_error

definition ForkExecProxy :: "cmd_run \<Rightarrow> command_reply res" where
  "ForkExecProxy r =
     (case r of
        CmdExited code out err \<Rightarrow>
          Ok \<lparr>cr_stdout = out, cr_stderr = err, cr_exit = sint (word_of_int code :: 32 word)\<rparr>
      | CmdNotRun e \<Rightarrow> Fail (Ext e))"

section \<open>Starting and closing a machine\<close>

record vm_env =
  ve_NewClient :: "ext_error option"
  ve_vmStart :: "ext_error option"
  ve_current :: VirtualMachineStateType
  ve_states :: "nat \<Rightarrow> vm_event"
  ve_console :: "ext_error + string"
  ve_default_writer :: "(ext_error option) option"
  ve_otel :: bool
  ve_timesync :: "nat \<Rightarrow> ext_error option"
  ve_order :: "string list \<Rightarrow> string list"

text \<open>
  A machine. Contexts and task groups carry the number of the \<open>Start\<close> that made them;
  \<open>rv_tasks\<close> lists the tasks with it, \<open>rv_canceled\<close> the contexts that were cancelled.
\<close>

record running_vm =
  rv_cached :: bool
  rv_starts :: nat
  rv_closeCancel :: "nat option"
  rv_taskGroup :: "nat option"
  rv_tasks :: "(nat \<times> string) list"
  rv_canceled :: "nat list"
  rv_raw :: bool
  rv_delim :: bool
  rv_workingDir :: string
  rv_msockBinds :: "(string \<times> 16 word) list"
  rv_console :: string
  rv_syncs :: nat
  rv_hardStops :: nat

definition GuestVsockConn :: "vm_env \<Rightarrow> running_vm \<Rightarrow> unit res" where
  "GuestVsockConn E r =
     (if rv_cached r then Ok () else wrap_err ''building guest grpc conn'' (of_opt (ve_NewClient E)))"

definition GuestService :: "vm_env \<Rightarrow> running_vm \<Rightarrow> unit res" where
  "GuestService E r = wrap_err ''getting guest vsock conn'' (GuestVsockConn E r)"

definition GoWithName :: "string \<Rightarrow> running_vm \<Rightarrow> running_vm" where
  "GoWithName name r = r\<lparr>rv_tasks := rv_tasks r @ [(rv_starts r, name)]\<rparr>"

text \<open>The text is framed and copied to the default writer, when there is one.\<close>

definition TryAppendingConsoleLog :: "vm_env \<Rightarrow> running_vm \<Rightarrow> unit res \<times> running_vm" where
  "TryAppendingConsoleLog E r =
     (case ve_console E of
        Inl e \<Rightarrow> (Fail (Wrapf ''opening console log file'' (Ext e)), r)
      | Inr dat \<Rightarrow>
          (case ve_default_writer E of
             None \<Rightarrow> (Ok (), r)
           | Some (Some e) \<Rightarrow> (Fail (Wrapf ''copying console log'' (Ext e)), r)
           | Some None \<Rightarrow>
               (Ok (), r\<lparr>rv_console := rv_console r @ [CHR 0x0A, CHR 0x0A] @ replicate 32 (CHR ''-'') @
                  [CHR 0x0A, CHR 0x0A] @ filepath_Join [rv_workingDir r, ''console.log''] @
                  [CHR 0x0A, CHR 0x0A] @ dat @ [CHR 0x0A] @ replicate 32 (CHR ''-'') @ [CHR 0x0A, CHR 0x0A]\<rparr>)))"

text \<open>What \<open>TailConsoleLog\<close> prints of the file as it is at the start.\<close>

definition tail_console :: "string \<Rightarrow> string" where
  "tail_console dat = concat (map (\<lambda>line. line @ [CHR 0x0A]) (split_on (CHR 0x0A) dat))"

definition bootVM :: "vm_env \<Rightarrow> unit res option" where
  "bootVM E =
     (case ve_vmStart E of
        Some e \<Rightarrow> Some (Fail (Wrapf ''starting virtual machine'' (Ext e)))
      | None \<Rightarrow> map_option (wrap_err ''waiting for virtual machine to start'')
          (WaitForVMState (ve_states E) (ve_current E) VmRunning))"

definition RunInitalTimesyncRequests :: "vm_env \<Rightarrow> running_vm \<Rightarrow> unit res \<times> running_vm" where
  "RunInitalTimesyncRequests E r =
     (case GuestService E r of
        Fail e \<Rightarrow> (Fail (Wrapf ''failed to get guest service'' e), r)
      | Panic m \<Rightarrow> (Panic m, r)
      | Ok _ \<Rightarrow>
          (case ve_timesync E 0 of
             Some e \<Rightarrow> (Fail (Wrapf ''failed to time sync'' (Ext e)), r\<lparr>rv_syncs := rv_syncs r + 1\<rparr>)
           | None \<Rightarrow> (wrap_err ''failed to time sync'' (of_opt (ve_timesync E 1)), r\<lparr>rv_syncs := rv_syncs r + 2\<rparr>)))"

text \<open>The tasks after the boot, in the order they are started.\<close>

definition service_tasks :: "vm_env \<Rightarrow> running_vm \<Rightarrow> string list" where
  "service_tasks E r =
     [''vsock-raw-writer-proxy'', ''vsock-delimited-writer-proxy'', ''vsock-debug-proxy'', ''vsock-pprof-proxy''] @
     (if ve_otel E then [''otel-forwarder''] else []) @
     [''vm-background-tasks'', ''host-service'', ''tail-console-log''] @
     map (\<lambda>(source, port). ''msock-bind-'' @ nat_digits (unat port)) (map_range (ve_order E) (rv_msockBinds r))"

definition RunningVM_Start :: "vm_env \<Rightarrow> running_vm \<Rightarrow> (unit res \<times> running_vm) option" where
  "RunningVM_Start E r =
     (let k = Suc (rv_starts r);
          r1 = r\<lparr>rv_starts := k, rv_closeCancel := Some k, rv_raw := True, rv_delim := True, rv_taskGroup := Some k\<rparr>
      in if \<not> rv_cached r1 \<and> ve_NewClient E \<noteq> None then
           Some (wrap_err ''building guest grpc conn'' (GuestVsockConn E r1), r1)
         else
           let r2 = GoWithName ''vm-state-monitor'' (GoWithName ''netdev-wait'' (r1\<lparr>rv_cached := True\<rparr>))
           in (case bootVM E of
                 None \<Rightarrow> None
               | Some (Fail e) \<Rightarrow>
                   Some (Fail (Wrapf ''booting virtual machine'' e), snd (TryAppendingConsoleLog E r2))
               | Some (Panic m) \<Rightarrow> Some (Panic m, r2)
               | Some (Ok _) \<Rightarrow>
                   Some (wrapping ''running initial timesync requests''
                     (RunInitalTimesyncRequests E (fold GoWithName (service_tasks E r2) r2)))))"

text \<open>
  \<open>Close\<close>. \<open>tg_wait\<close> says whether the wait for the task group returns, and with which
  error, which is only logged, as is the error of restoring stderr.
\<close>

record close_env =
  ce_tg_wait :: "(ext_error option) option"
  ce_state :: VirtualMachineStateType
  ce_hardStop :: "ext_error option"

definition RunningVM_Close :: "close_env \<Rightarrow> running_vm \<Rightarrow> (unit res \<times> running_vm) option" where
  "RunningVM_Close E r =
     (case rv_closeCancel r of
        None \<Rightarrow> Some (Panic ''nil pointer dereference'', r)
      | Some k \<Rightarrow>
          let r1 = r\<lparr>rv_canceled := rv_canceled r @ [k]\<rparr> in
          if rv_taskGroup r \<noteq> None \<and> ce_tg_wait E = None then None
          else if ce_state E = VmStopped then Some (Ok (), r1)
          else Some (wrap_err ''hard stopping vm'' (of_opt (ce_hardStop E)), r1\<lparr>rv_hardStops := rv_hardStops r1 + 1\<rparr>))"

section \<open>The monitor of the state and the callers that wait\<close>

text \<open>
  The channel \<open>wait\<close> has one place. The state counts the callers of \<open>Wait\<close> and
  \<open>WaitOnVmStopped\<close> that have not returned and lists what the others got; \<open>None\<close> is the
  nil error of a machine that stopped.
\<close>

record wait_sys =
  ws_chan :: "go_error option list"
  ws_monitor :: bool
  ws_ctx_done :: bool
  ws_pending :: "VirtualMachineStateType list"
  ws_waiting :: nat
  ws_got :: "go_error option list"

definition monitor_receive :: "VirtualMachineStateType \<Rightarrow> wait_sys \<Rightarrow> wait_sys" where
  "monitor_receive st s =
     (if st = VmError then s\<lparr>ws_chan := ws_chan s @ [Some (ErrNew ''VM entered error state'')], ws_monitor := False\<rparr>
      else if st = VmStopped then s\<lparr>ws_chan := ws_chan s @ [None], ws_monitor := False\<rparr>
      else s)"

inductive wait_start :: "wait_sys \<Rightarrow> bool" where
  "wait_start \<lparr>ws_chan = [], ws_monitor = True, ws_ctx_done = False, ws_pending = [], ws_waiting = 0, ws_got = []\<rparr>"

text \<open>The monitor takes a notification or, when its context is done, may return instead.
  A send waits for room in the channel.\<close>

inductive wait_step :: "wait_sys \<Rightarrow> wait_sys \<Rightarrow> bool" where
  change: "wait_step s (s\<lparr>ws_pending := ws_pending s @ [st]\<rparr>)"
| cancel: "wait_step s (s\<lparr>ws_ctx_done := True\<rparr>)"
| monitor: "ws_monitor s \<Longrightarrow> ws_pending s = st # rest \<Longrightarrow> length (ws_chan s) < 1 \<or> st \<notin> {VmError, VmStopped} \<Longrightarrow>
    wait_step s (monitor_receive st (s\<lparr>ws_pending := rest\<rparr>))"
| monitor_done: "ws_monitor s \<Longrightarrow> ws_ctx_done s \<Longrightarrow> wait_step s (s\<lparr>ws_monitor := False\<rparr>)"
| wait_call: "wait_step s (s\<lparr>ws_waiting := Suc (ws_waiting s)\<rparr>)"
| wait_return: "ws_waiting s = Suc n \<Longrightarrow> ws_chan s = v # rest \<Longrightarrow>
    wait_step s (s\<lparr>ws_waiting := n, ws_chan := rest, ws_got := ws_got s @ [v]\<rparr>)"

inductive_cases wait_stepE: "wait_step s t"

definition one_result :: "wait_sys \<Rightarrow> bool" where
  "one_result s \<longleftrightarrow> length (ws_chan s) + length (ws_got s) \<le> 1 \<and>
     (ws_monitor s \<longrightarrow> ws_chan s = [] \<and> ws_got s = [])"

lemma one_result_step: "wait_step s t \<Longrightarrow> one_result s \<Longrightarrow> one_result t"
  by (erule wait_stepE) (auto simp: one_result_def monitor_receive_def)

interpretation waiters: inductive_invariant wait_start wait_step one_result
proof unfold_locales
  show "one_result s" if "wait_start s" for s
    using that by (auto simp: one_result_def wait_start.simps)
qed (blast intro: one_result_step)

definition no_result :: "wait_sys \<Rightarrow> bool" where
  "no_result s \<longleftrightarrow> \<not> ws_monitor s \<and> ws_chan s = [] \<and> ws_got s = []"

interpretation forgotten: inductive_invariant no_result wait_step no_result
  by unfold_locales (auto simp: no_result_def monitor_receive_def elim!: wait_stepE)

text \<open>
  C25: At most one of the callers that wait for the end of a machine ever gets a result; and
  when the monitor ends because its context was cancelled, as \<open>Close\<close> does, none ever
  does.
\<close>

theorem waiters_share_one_result:
  assumes "reachable wait_start wait_step s"
  shows "length (ws_got s) \<le> 1 \<and>
    (\<not> ws_monitor s \<and> ws_chan s = [] \<and> ws_got s = [] \<longrightarrow> (\<forall>t. wait_step\<^sup>*\<^sup>* s t \<longrightarrow> ws_got t = []))"
  using waiters.reachable_inv [OF assms] forgotten.steps_inv
  by (auto simp: one_result_def no_result_def)

section \<open>Loops that never return\<close>

lemma proxy_server_loop_None: "proxy_server_loop acc readable n copies = None"
proof -
  have False if "proxy_server_loop acc readable n copies = Some y" for y
    by (rule proxy_server_loop.raw_induct [where P = "\<lambda>_ _ _ _ _. False", OF _ that])
      (auto split: sum.splits)
  then show ?thesis by (metis option.exhaust)
qed

lemma RunVsockProxyServer_never_returns: "RunVsockProxyServer None (Some readable) acc = None"
  by (simp add: RunVsockProxyServer_def proxy_server_loop_None)

lemma RunVsockProxyClient_never_returns:
  assumes "\<And>n c e. acc n = Inr c \<Longrightarrow> connect n \<noteq> Inl e"
  shows "RunVsockProxyClient acc connect n pairs = None"
proof -
  have False if "RunVsockProxyClient acc connect n pairs = Some y" for y
    by (rule RunVsockProxyClient.raw_induct [where P = "\<lambda>a c _ _ _. a \<noteq> acc \<or> c \<noteq> connect", OF _ that, simplified])
      (use assms in \<open>auto split: sum.splits\<close>)
  then show ?thesis by (metis option.exhaust)
qed

lemma RunVsockProxyClient_returns:
  "acc (n + k) = Inr c \<Longrightarrow> connect (n + k) = Inl e \<Longrightarrow> \<exists>x. RunVsockProxyClient acc connect n pairs = Some x"
proof (induction k arbitrary: n pairs)
  case 0
  then show ?case by (subst RunVsockProxyClient.simps) simp
next
  case (Suc k)
  then have "\<exists>x. RunVsockProxyClient acc connect (n + 1) ps = Some x" for ps by simp
  then show ?case by (subst RunVsockProxyClient.simps) (auto split: sum.split)
qed

lemma otel_loop_returns: "ctx_done (n + k) \<Longrightarrow> \<exists>x. otel_loop ctx_done acc n served = Some x"
proof (induction k arbitrary: n served)
  case 0
  then show ?case by (subst otel_loop.simps) simp
next
  case (Suc k)
  then have "\<exists>x. otel_loop ctx_done acc (n + 1) sv = Some x" for sv by simp
  then show ?case by (subst otel_loop.simps) (auto split: sum.split)
qed

lemma connect_retry_returns: "ev (n + k) = RetryTimeout \<Longrightarrow> \<exists>x. connect_retry_loop ev n le = Some x"
proof (induction k arbitrary: n le)
  case 0
  then show ?case by (subst connect_retry_loop.simps) simp
next
  case (Suc k)
  then have "\<exists>x. connect_retry_loop ev (n + 1) le' = Some x" for le' by simp
  then show ?case by (subst connect_retry_loop.simps) (auto split: sum.split retry_event.split)
qed

section \<open>Closing a machine\<close>

lemma fold_GoWithName: "fold GoWithName names r = r\<lparr>rv_tasks := rv_tasks r @ map (Pair (rv_starts r)) names\<rparr>"
  by (induction names arbitrary: r) (auto simp: GoWithName_def)

lemma TryAppendingConsoleLog_fields [simp]:
  "rv_tasks (snd (TryAppendingConsoleLog E r)) = rv_tasks r"
  "rv_canceled (snd (TryAppendingConsoleLog E r)) = rv_canceled r"
  "rv_starts (snd (TryAppendingConsoleLog E r)) = rv_starts r"
  by (auto simp: TryAppendingConsoleLog_def split: sum.split option.split)

lemma timesync_fields [simp]:
  "rv_tasks (snd (RunInitalTimesyncRequests E r)) = rv_tasks r"
  "rv_canceled (snd (RunInitalTimesyncRequests E r)) = rv_canceled r"
  "rv_starts (snd (RunInitalTimesyncRequests E r)) = rv_starts r"
  "rv_closeCancel (snd (RunInitalTimesyncRequests E r)) = rv_closeCancel r"
  "rv_taskGroup (snd (RunInitalTimesyncRequests E r)) = rv_taskGroup r"
  by (auto simp: RunInitalTimesyncRequests_def split: res.split option.split)

lemma Start_fields:
  assumes "RunningVM_Start E r = Some (x, r')"
  shows "rv_starts r' = Suc (rv_starts r)" "rv_canceled r' = rv_canceled r"
    "ve_NewClient E = None \<or> rv_cached r \<Longrightarrow>
       (rv_starts r', ''netdev-wait'') \<in> set (rv_tasks r') \<and> (rv_starts r', ''vm-state-monitor'') \<in> set (rv_tasks r')"
    "x = Ok () \<Longrightarrow> rv_closeCancel r' = Some (rv_starts r') \<and> rv_taskGroup r' = Some (rv_starts r') \<and>
       (rv_starts r', ''vsock-raw-writer-proxy'') \<in> set (rv_tasks r')"
  using assms
  by (auto simp: RunningVM_Start_def Let_def GoWithName_def fold_GoWithName service_tasks_def GuestVsockConn_def
      prod_eq_iff split: if_splits option.splits res.splits)



text \<open>Closing a machine that was not started calls a nil function.\<close>

lemma Close_before_Start: "rv_closeCancel r = None \<Longrightarrow> RunningVM_Close C r = Some (Panic ''nil pointer dereference'', r)"
  by (simp add: RunningVM_Close_def)

text \<open>A second \<open>Start\<close> replaces the context of the first, which \<open>Close\<close> then cannot cancel.\<close>

lemma Close_cancels_last_start:
  assumes "RunningVM_Close C r = Some (Ok (), r')" "rv_closeCancel r = Some k"
  shows "rv_canceled r' = rv_canceled r @ [k]"
  using assms by (auto simp: RunningVM_Close_def Let_def split: if_splits)

section \<open>Commands and the console\<close>

lemma fields_loop_blank: "(\<forall>c \<in> set s. is_space c) \<Longrightarrow> fields_loop s [] = []"
  by (induction s) auto

lemma RunCommandSimple_blank_panics:
  "(\<forall>c \<in> set s. is_space c) \<Longrightarrow> RunCommandSimple None run s = Panic ''index out of range''"
  by (simp add: RunCommandSimple_def Fields_def fields_loop_blank)

text \<open>Fields have no white space and are not empty, and printing words apart by single spaces
  gives them back.\<close>

lemma fields_loop_word:
  "(\<forall>c \<in> set w. \<not> is_space c) \<Longrightarrow> fields_loop (w @ rest) acc = fields_loop rest (rev w @ acc)"
  by (induction w arbitrary: acc) auto

lemma Fields_join:
  "(\<And>w. w \<in> set ws \<Longrightarrow> w \<noteq> [] \<and> (\<forall>c \<in> set w. \<not> is_space c)) \<Longrightarrow> Fields (join_with '' '' ws) = ws"
proof (induction ws rule: induct_list012)
  case (2 w)
  then show ?case using fields_loop_word [of w "[]" "[]"] by (simp add: Fields_def)
next
  case (3 w v ws)
  have "is_space (CHR '' '')" by (simp add: is_space_def)
  moreover have "Fields (join_with '' '' (v # ws)) = v # ws" by (rule 3(2)) (use 3(3) in auto)
  ultimately show ?case
    using fields_loop_word [of w "CHR '' '' # join_with '' '' (v # ws)" "[]"] 3(3) [of w] by (simp add: Fields_def)
qed (simp add: Fields_def)

text \<open>The console log is printed with one line feed more than it has.\<close>

lemma tail_console_eq: "tail_console dat = dat @ [CHR 0x0A]"
proof -
  have "concat (map (\<lambda>line. line @ [c]) ls) = join_with [c] ls @ [c]" if "ls \<noteq> []" for ls :: "string list" and c
    using that by (induction ls rule: induct_list012) auto
  then show ?thesis by (simp add: tail_console_def join_split)
qed

section \<open>Descriptors\<close>

definition no_errors :: "expose_env \<Rightarrow> bool" where
  "no_errors E \<longleftrightarrow> ee_socket E = None \<and> ee_file_listener E = None \<and> ee_connect E = None \<and>
     ee_listen E = None \<and> ee_start E = None"

lemma run_closers_open: "fd_open (run_closers cl t) = filter (\<lambda>h. h \<notin> set (concat cl)) (fd_open t)"
  by (induction cl arbitrary: t) (auto simp: fd_close_def intro: filter_cong)

lemma ExposeVsock_ok:
  "no_errors E \<Longrightarrow> \<exists>hs t'. ExposeVsock E d t = (Ok hs, t') \<and> set hs = {fd_next t..<fd_next t + 4} \<and>
     fd_open t' = fd_open t @ [fd_next t..<fd_next t + 4] \<and> fd_next t' = fd_next t + 4"
  by (auto simp: no_errors_def ExposeVsock_def ExposeConnectVsockProxy_def ExposeListenVsockProxy_def
      fd_acquire_def upt_rec)

lemma start_vsock_loop_open:
  assumes "\<And>p. no_errors (env p)" "\<forall>h \<in> set (fd_open t) \<union> set (concat cl). h < fd_next t"
    "start_vsock_loop env ds cl t = (cl', t')"
  shows "filter (\<lambda>h. h \<notin> set (concat cl')) (fd_open t') = filter (\<lambda>h. h \<notin> set (concat cl)) (fd_open t)"
  using assms(2,3)
proof (induction ds arbitrary: cl t)
  case (Cons d ds)
  show ?case
  proof (cases "is_vsock d \<and> (\<forall>port url direction. d = VirtioVsock port url direction \<longrightarrow> url \<noteq> [])")
    case False
    then have "start_vsock_loop env ds cl t = (cl', t')"
      using Cons.prems(2) by (cases d) (auto simp: is_vsock_def)
    with Cons show ?thesis by blast
  next
    case True
    then obtain port url direction where d: "d = VirtioVsock port url direction" "url \<noteq> []"
      by (cases d) (auto simp: is_vsock_def)
    obtain hs t1 where e: "ExposeVsock (env port) direction t = (Ok hs, t1)" "set hs = {fd_next t..<fd_next t + 4}"
      "fd_open t1 = fd_open t @ [fd_next t..<fd_next t + 4]" "fd_next t1 = fd_next t + 4"
      using ExposeVsock_ok [OF assms(1)] by metis
    have "start_vsock_loop env ds (hs # cl) t1 = (cl', t')" using Cons.prems(2) d e(1) by simp
    moreover have "\<forall>h \<in> set (fd_open t1) \<union> set (concat (hs # cl)). h < fd_next t1"
    proof
      fix h
      assume "h \<in> set (fd_open t1) \<union> set (concat (hs # cl))"
      then consider "h \<in> set (fd_open t) \<union> set (concat cl)" | "h \<in> {fd_next t..<fd_next t + 4}"
        by (auto simp: e(2,3))
      then show "h < fd_next t1" using Cons.prems(1) by cases (auto simp: e(4) intro: trans_less_add1)
    qed
    ultimately have "filter (\<lambda>h. h \<notin> set (concat cl')) (fd_open t') =
        filter (\<lambda>h. h \<notin> set (concat (hs # cl))) (fd_open t1)"
      using Cons.IH by blast
    also have "\<dots> = filter (\<lambda>h. h \<notin> set (concat cl)) (fd_open t)"
    proof -
      have "filter (\<lambda>h. h \<notin> set (concat (hs # cl))) [fd_next t..<fd_next t + 4] = []"
        using e(2) by (simp add: filter_empty_conv)
      moreover have "filter (\<lambda>h. h \<notin> set (concat (hs # cl))) (fd_open t) = filter (\<lambda>h. h \<notin> set (concat cl)) (fd_open t)"
        using e(2) Cons.prems(1) by (intro filter_cong) (auto simp: not_less [symmetric])
      ultimately show ?thesis by (simp only: e(3) filter_append append_Nil2)
    qed
    finally show ?thesis .
  qed
qed simp

text \<open>
  \<open>StartVSockDevices\<close> leaves no vsock device exposed: the close functions it defers run
  when it returns, so that after it succeeded exactly the descriptors that were open before
  are open, and none of the proxies it started.
\<close>

lemma vsock_devices_closed_at_return:
  assumes "\<And>p. no_errors (env p)" "\<forall>h \<in> set (fd_open t). h < fd_next t"
  shows "fst (StartVSockDevices env devices t) = Ok () \<and> fd_open (snd (StartVSockDevices env devices t)) = fd_open t"
proof -
  obtain cl t' where l: "start_vsock_loop env (VirtioDevicesOfType is_vsock devices) [] t = (cl, t')" by force
  then have "filter (\<lambda>h. h \<notin> set (concat cl)) (fd_open t') = filter (\<lambda>h. h \<notin> set (concat [])) (fd_open t)"
    by (rule start_vsock_loop_open [OF assms(1), rotated]) (use assms(2) in simp)
  then show ?thesis by (simp add: StartVSockDevices_def l run_closers_open)
qed

text \<open>A proxy that cannot be set up keeps its socket open.\<close>

lemma ExposeVsock_failure_leaks:
  assumes "ee_socket E = None" "ExposeVsock E d t = (Fail e, t')"
  shows "fd_next t \<in> set (fd_open t')"
  using assms
  by (auto simp: ExposeVsock_def ExposeConnectVsockProxy_def ExposeListenVsockProxy_def fd_acquire_def
      split: if_splits option.splits)

text \<open>A stream that cannot be connected to the guest keeps both ends of its socket pair open.\<close>

lemma NewVSockStreamFileProxy_leaks:
  assumes "se_pair E = None" "se_file_conn E = None" "se_connect E = Some e" "\<forall>h \<in> set (fd_open t). h < fd_next t"
  shows "fd_open (snd (NewVSockStreamFileProxy E t)) = fd_open t @ [fd_next t, Suc (fd_next t)]"
  using assms by (auto simp: NewVSockStreamFileProxy_def fd_acquire_def fd_close_def filter_id_conv)

text \<open>The connection that \<open>dialMsockBind\<close> returns is closed already.\<close>

lemma dialMsockBind_closed:
  "dialMsockBind d c t = (Ok h, t') \<Longrightarrow> h \<notin> set (fd_open t')"
  by (auto simp: dialMsockBind_def fd_acquire_def fd_close_def split: option.splits)

section \<open>Executions\<close>

definition demo_vm_env :: vm_env where
  "demo_vm_env =
     \<lparr>ve_NewClient = None, ve_vmStart = None, ve_current = VmRunning, ve_states = (\<lambda>_. VmTimeout),
      ve_console = Inr [], ve_default_writer = None, ve_otel = False, ve_timesync = (\<lambda>_. None), ve_order = (\<lambda>ks. ks)\<rparr>"

definition new_vm :: running_vm where
  "new_vm =
     \<lparr>rv_cached = False, rv_starts = 0, rv_closeCancel = None, rv_taskGroup = None, rv_tasks = [], rv_canceled = [],
      rv_raw = False, rv_delim = False, rv_workingDir = ''/w'', rv_msockBinds = [], rv_console = [], rv_syncs = 0,
      rv_hardStops = 0\<rparr>"

lemma demo_start: "\<exists>r'. RunningVM_Start demo_vm_env new_vm = Some (Ok (), r')"
  by (simp add: RunningVM_Start_def demo_vm_env_def new_vm_def Let_def bootVM_def WaitForVMState_def GoWithName_def
      RunInitalTimesyncRequests_def GuestService_def GuestVsockConn_def fold_GoWithName)




theorem waiters_share_one_result_witness:
  "\<exists>s. reachable wait_start wait_step s \<and> ws_waiting s = 1 \<and> (\<forall>t. wait_step\<^sup>*\<^sup>* s t \<longrightarrow> ws_got t = [])"
proof -
  let ?s0 = "\<lparr>ws_chan = [], ws_monitor = True, ws_ctx_done = False, ws_pending = [], ws_waiting = 0, ws_got = []\<rparr>"
  have "reachable wait_start wait_step ?s0" by (intro reachable.intros wait_start.intros)
  from reachable.intros(2) [OF this wait_step.wait_call]
  have "reachable wait_start wait_step (?s0\<lparr>ws_waiting := 1\<rparr>)" by simp
  from reachable.intros(2) [OF this wait_step.cancel]
  have "reachable wait_start wait_step (?s0\<lparr>ws_waiting := 1, ws_ctx_done := True\<rparr>)" by simp
  from reachable.intros(2) [OF this wait_step.monitor_done]
  have "reachable wait_start wait_step (?s0\<lparr>ws_waiting := 1, ws_ctx_done := True, ws_monitor := False\<rparr>)" by simp
  from waiters_share_one_result [OF this] this show ?thesis by (intro exI conjI) auto
qed

end
