(* ===== verification/ProcWatch.thy ===== *)
theory ProcWatch
  imports GoStrings
begin

text \<open>
  Watching processes through the process connector of the kernel (\<open>pkg/psnotify\<close>): the
  messages byte by byte, the table of watched processes, the dispatch of events, and the
  consumer in the guest (\<open>cmd/runm-linux-init/psnotify.go\<close>). The bytes come from the
  kernel; the system calls of the socket are arguments.
\<close>

section \<open>Fixed-size data\<close>

datatype byte_order = LittleEndian | BigEndian

text \<open>\<open>GetEndian\<close> looks at the first byte of the number 1 in memory.\<close>

definition GetEndian :: "8 word \<Rightarrow> byte_order" where
  "GetEndian first = (if first = 0 then BigEndian else LittleEndian)"

fun nat_bytes :: "nat \<Rightarrow> nat \<Rightarrow> 8 word list" where
  "nat_bytes 0 n = []"
| "nat_bytes (Suc k) n = of_nat (n mod 256) # nat_bytes k (n div 256)"

fun bytes_nat :: "8 word list \<Rightarrow> nat" where
  "bytes_nat [] = 0"
| "bytes_nat (b # bs) = unat b + 256 * bytes_nat bs"

definition put_uint :: "byte_order \<Rightarrow> nat \<Rightarrow> nat \<Rightarrow> 8 word list" where
  "put_uint bo k n = (case bo of LittleEndian \<Rightarrow> nat_bytes k n | BigEndian \<Rightarrow> rev (nat_bytes k n))"

definition get_uint :: "byte_order \<Rightarrow> 8 word list \<Rightarrow> nat" where
  "get_uint bo bs = (case bo of LittleEndian \<Rightarrow> bytes_nat bs | BigEndian \<Rightarrow> bytes_nat (rev bs))"

text \<open>
  A struct of unsigned integers is the list of the sizes of its fields. \<open>binary.Read\<close>
  reads as many bytes as the struct has; when the buffer has fewer it takes what there is,
  reports an error, which the caller ignores, and leaves the struct zero.
\<close>

fun get_fields :: "byte_order \<Rightarrow> nat list \<Rightarrow> 8 word list \<Rightarrow> nat list" where
  "get_fields bo [] bs = []"
| "get_fields bo (k # ks) bs = get_uint bo (take k bs) # get_fields bo ks (drop k bs)"

fun put_fields :: "byte_order \<Rightarrow> nat list \<Rightarrow> nat list \<Rightarrow> 8 word list" where
  "put_fields bo (k # ks) (n # ns) = put_uint bo k n @ put_fields bo ks ns"
| "put_fields bo _ _ = []"

definition binary_Read :: "byte_order \<Rightarrow> nat list \<Rightarrow> 8 word list \<Rightarrow> nat list \<times> 8 word list" where
  "binary_Read bo ks bs =
     (if length bs < sum_list ks then (replicate (length ks) 0, [])
      else (get_fields bo ks bs, drop (sum_list ks) bs))"

text \<open>The sizes of the structs: \<open>cnMsg\<close>, \<open>procEventHeader\<close>, the events, and the netlink
  header.\<close>

definition cnMsg :: "nat list" where "cnMsg = [4, 4, 4, 4, 2, 2]"

definition procEventHeader :: "nat list" where "procEventHeader = [4, 4, 8]"

definition forkProcEvent :: "nat list" where "forkProcEvent = [4, 4, 4, 4]"

definition execProcEvent :: "nat list" where "execProcEvent = [4, 4]"

definition exitProcEvent :: "nat list" where "exitProcEvent = [4, 4, 4, 4]"

definition NlMsghdr :: "nat list" where "NlMsghdr = [4, 2, 2, 4, 4]"

section \<open>The watch table\<close>

unbundle bit_operations_syntax

definition PROC_EVENT_FORK :: "32 word" where "PROC_EVENT_FORK = 0x00000001"

definition PROC_EVENT_EXEC :: "32 word" where "PROC_EVENT_EXEC = 0x00000002"

definition PROC_EVENT_EXIT :: "32 word" where "PROC_EVENT_EXIT = 0x80000000"

definition PROC_EVENT_ALL :: "32 word" where
  "PROC_EVENT_ALL = PROC_EVENT_FORK OR PROC_EVENT_EXEC OR PROC_EVENT_EXIT"

text \<open>An event sent to the consumer, with the time it was read; the exit carries the raw
  status of the process.\<close>

datatype notice = NoticeFork nat nat int | NoticeExec nat int | NoticeExit nat nat int

record watcher =
  watches :: "nat \<rightharpoonup> 32 word"
  isClosed :: bool
  sent :: "notice list"

definition new_watches :: watcher where
  "new_watches = \<lparr>watches = Map.empty, isClosed = False, sent = []\<rparr>"

definition Watch :: "nat \<Rightarrow> 32 word \<Rightarrow> watcher \<Rightarrow> unit res \<times> watcher" where
  "Watch pid flags w =
     (if isClosed w then (Fail (ErrNew ''psnotify watcher is closed''), w)
      else (Ok (), w\<lparr>watches := (watches w)(pid \<mapsto>
        (case watches w pid of Some old \<Rightarrow> old OR flags | None \<Rightarrow> flags))\<rparr>))"

definition RemoveWatch :: "nat \<Rightarrow> watcher \<Rightarrow> unit res \<times> watcher" where
  "RemoveWatch pid w =
     (if watches w pid = None then (Fail (ErrNew ''watch for pid does not exist''), w)
      else (Ok (), w\<lparr>watches := (watches w)(pid := None)\<rparr>))"

text \<open>\<open>Close\<close> empties the table; the order of the removals does not show.\<close>

definition Close_watches :: "watcher \<Rightarrow> watcher" where
  "Close_watches w = (if isClosed w then w else w\<lparr>isClosed := True, watches := Map.empty\<rparr>)"

definition isWatching :: "nat \<Rightarrow> 32 word \<Rightarrow> watcher \<Rightarrow> bool" where
  "isWatching pid event w =
     (case watches w pid of Some flags \<Rightarrow> flags AND event = event | None \<Rightarrow> False)"

definition send_notice :: "notice \<Rightarrow> watcher \<Rightarrow> watcher" where
  "send_notice n w = w\<lparr>sent := sent w @ [n]\<rparr>"

text \<open>What the dispatcher does with an event: fork with parent and child, exec, exit with
  thread, process and status.\<close>

definition on_fork :: "int \<Rightarrow> nat \<Rightarrow> nat \<Rightarrow> watcher \<Rightarrow> watcher" where
  "on_fork now ppid pid w =
     (let w1 = (if isWatching ppid PROC_EVENT_EXEC w then snd (Watch pid (the (watches w ppid)) w) else w)
      in if isWatching ppid PROC_EVENT_FORK w1 then send_notice (NoticeFork ppid pid now) w1 else w1)"

definition on_exec :: "int \<Rightarrow> nat \<Rightarrow> watcher \<Rightarrow> watcher" where
  "on_exec now pid w =
     (if isWatching pid PROC_EVENT_EXEC w then send_notice (NoticeExec pid now) w else w)"

definition on_exit :: "int \<Rightarrow> nat \<Rightarrow> nat \<Rightarrow> nat \<Rightarrow> watcher \<Rightarrow> watcher" where
  "on_exit now tid pid status w =
     (if isWatching pid PROC_EVENT_EXIT w \<and> pid = tid
      then send_notice (NoticeExit pid status now) (snd (RemoveWatch pid w)) else w)"

definition handleEvent :: "byte_order \<Rightarrow> int \<Rightarrow> 8 word list \<Rightarrow> watcher \<Rightarrow> watcher" where
  "handleEvent bo now data w =
     (let (msg, buf) = binary_Read bo cnMsg data;
          (hdr, buf) = binary_Read bo procEventHeader buf;
          what = hd hdr
      in if what = unat PROC_EVENT_FORK then
           let (event, _) = binary_Read bo forkProcEvent buf in on_fork now (event ! 1) (event ! 3) w
         else if what = unat PROC_EVENT_EXEC then
           let (event, _) = binary_Read bo execProcEvent buf in on_exec now (event ! 1) w
         else if what = unat PROC_EVENT_EXIT then
           let (event, _) = binary_Read bo exitProcEvent buf in on_exit now (event ! 0) (event ! 1) (event ! 2) w
         else w)"

definition getSignal :: "32 word \<Rightarrow> nat" where
  "getSignal s = (if s = NOT 0 then 0 else unat s)"

section \<open>Control messages\<close>

record netlinkListener =
  nl_open :: bool
  nl_seq :: "32 word"
  nl_sent :: "8 word list list"

definition control_message :: "byte_order \<Rightarrow> nat \<Rightarrow> 32 word \<Rightarrow> nat \<Rightarrow> 8 word list" where
  "control_message bo pid seq op =
     (let plen = sum_list cnMsg + 4 in
      put_fields bo NlMsghdr [16 + plen, 3, 0, unat seq, pid] @
      put_fields bo cnMsg [1, 1, 0, 0, 4, 0] @ put_uint bo 4 op)"

definition listener_send ::
  "byte_order \<Rightarrow> nat \<Rightarrow> (8 word list \<Rightarrow> ext_error option) \<Rightarrow> nat \<Rightarrow> netlinkListener \<Rightarrow> unit res \<times> netlinkListener" where
  "listener_send bo pid sendto op nl =
     (let seq = nl_seq nl + 1; m = control_message bo pid seq op
      in (of_opt (sendto m), nl\<lparr>nl_seq := seq, nl_sent := nl_sent nl @ [m]\<rparr>))"

definition listener_bind ::
  "byte_order \<Rightarrow> nat \<Rightarrow> ext_error option \<Rightarrow> ext_error option \<Rightarrow> (8 word list \<Rightarrow> ext_error option) \<Rightarrow>
   netlinkListener \<Rightarrow> unit res \<times> netlinkListener" where
  "listener_bind bo pid socket bind_err sendto nl =
     and_then (of_opt socket, nl) (\<lambda>_ nl. and_then (of_opt bind_err, nl\<lparr>nl_open := True\<rparr>)
       (\<lambda>_ nl. listener_send bo pid sendto 1 nl))"

definition listener_close ::
  "byte_order \<Rightarrow> nat \<Rightarrow> (8 word list \<Rightarrow> ext_error option) \<Rightarrow> netlinkListener \<Rightarrow> unit res \<times> netlinkListener" where
  "listener_close bo pid sendto nl =
     (let (r, nl') = listener_send bo pid sendto 2 nl in (r, nl'\<lparr>nl_open := False\<rparr>))"

text \<open>\<open>NewWatcher\<close> also says what is left of the listener.\<close>

definition NewWatcher ::
  "byte_order \<Rightarrow> nat \<Rightarrow> ext_error option \<Rightarrow> ext_error option \<Rightarrow> (8 word list \<Rightarrow> ext_error option) \<Rightarrow>
   watcher res \<times> netlinkListener" where
  "NewWatcher bo pid socket bind_err sendto =
     and_then (listener_bind bo pid socket bind_err sendto \<lparr>nl_open = False, nl_seq = 0, nl_sent = []\<rparr>)
       (\<lambda>_ nl. (Ok new_watches, nl))"

section \<open>The reader and closing it\<close>

text \<open>
  The goroutine of \<open>readEvents\<close> is at the top of its loop, in \<open>Recvfrom\<close>, sending an
  event or an error on a channel without a buffer, or has returned. \<open>wd_done\<close> is the one
  place of the channel \<open>done\<close>, \<open>wd_consumer\<close> says whether someone still receives.
\<close>

datatype reader = AtLoop | InRecv | SendingError | SendingEvents "notice list" | ReaderDone

record watcher_sys =
  wd_reader :: reader
  wd_done :: nat
  wd_closed :: bool
  wd_socket_open :: bool
  wd_consumer :: bool
  wd_channels_open :: bool

inductive reader_step :: "watcher_sys \<Rightarrow> watcher_sys \<Rightarrow> bool" where
  see_done: "wd_reader s = AtLoop \<Longrightarrow> wd_done s = Suc n \<Longrightarrow>
    reader_step s (s\<lparr>wd_done := n, wd_channels_open := False, wd_reader := ReaderDone\<rparr>)"
| enter_recv: "wd_reader s = AtLoop \<Longrightarrow> wd_done s = 0 \<Longrightarrow> reader_step s (s\<lparr>wd_reader := InRecv\<rparr>)"
| recv_error: "wd_reader s = InRecv \<Longrightarrow> reader_step s (s\<lparr>wd_reader := SendingError\<rparr>)"
| recv_events: "wd_reader s = InRecv \<Longrightarrow> wd_socket_open s \<Longrightarrow> reader_step s (s\<lparr>wd_reader := SendingEvents ns\<rparr>)"
| sent_error: "wd_reader s = SendingError \<Longrightarrow> wd_consumer s \<Longrightarrow> reader_step s (s\<lparr>wd_reader := AtLoop\<rparr>)"
| sent_event: "wd_reader s = SendingEvents (n # ns) \<Longrightarrow> wd_consumer s \<Longrightarrow>
    reader_step s (s\<lparr>wd_reader := SendingEvents ns\<rparr>)"
| sent_all: "wd_reader s = SendingEvents [] \<Longrightarrow> reader_step s (s\<lparr>wd_reader := AtLoop\<rparr>)"
| close_watcher: "\<not> wd_closed s \<Longrightarrow> wd_done s = 0 \<Longrightarrow>
    reader_step s (s\<lparr>wd_closed := True, wd_done := 1, wd_socket_open := False\<rparr>)"
| stop_consuming: "reader_step s (s\<lparr>wd_consumer := False\<rparr>)"

inductive_cases reader_stepE: "reader_step s t"

section \<open>The consumer in the guest\<close>

text \<open>\<open>bufio.Scanner\<close> over lines: a last line without a line feed counts unless it is
  empty, a carriage return before the line feed goes, and a line of 64 KiB ends the scan.\<close>

definition drop_cr :: "string \<Rightarrow> string" where
  "drop_cr l = (if l \<noteq> [] \<and> last l = CHR 0x0D then butlast l else l)"

definition scan_lines :: "string \<Rightarrow> string list" where
  "scan_lines s =
     (let parts = split_on CHR 0x0A s;
          parts = (if last parts = [] then butlast parts else parts)
      in map drop_cr (takeWhile (\<lambda>l. length l < 65536) parts))"

text \<open>\<open>strings.SplitN\<close> with a separator of one byte and a positive bound.\<close>

fun split_n :: "nat \<Rightarrow> char \<Rightarrow> string \<Rightarrow> string list" where
  "split_n 0 c s = []"
| "split_n (Suc 0) c s = [s]"
| "split_n (Suc (Suc n)) c s =
     (case str_index c s of None \<Rightarrow> [s]
      | Some i \<Rightarrow> take i s # split_n (Suc n) c (drop (Suc i) s))"

text \<open>The files of \<open>/proc\<close> as they are when a handler reads them.\<close>

record proc_view =
  pv_cgroup :: "nat \<Rightarrow> string option"
  pv_cmdline :: "nat \<Rightarrow> string option"
  pv_exe :: "nat \<Rightarrow> string option"

record pidInfo =
  pi_pid :: nat
  pi_cgroup :: string
  pi_argv :: "string list"
  pi_argc :: string
  pi_parent :: "nat option"
  pi_children :: "nat list"
  pi_exit :: "(nat \<times> int) option"
  pi_exec :: "int option"
  pi_fork :: "(nat \<times> nat \<times> int) option"

fun first_cgroup :: "string list \<Rightarrow> string" where
  "first_cgroup [] = []"
| "first_cgroup (line # ls) =
     (if line = [] then first_cgroup ls
      else let parts = split_n 3 CHR '':'' line in
        if length parts \<noteq> 3 then first_cgroup ls else parts ! 2)"

definition getCgroupFromProc :: "proc_view \<Rightarrow> nat \<Rightarrow> string option" where
  "getCgroupFromProc pv pid =
     (case pv_cgroup pv pid of None \<Rightarrow> None | Some data \<Rightarrow> Some (first_cgroup (split_on CHR 0x0A data)))"

definition getArgvFromProc :: "proc_view \<Rightarrow> nat \<Rightarrow> string list" where
  "getArgvFromProc pv pid =
     (case pv_cmdline pv pid of None \<Rightarrow> []
      | Some data \<Rightarrow> concat (map (split_on CHR 0x00) (scan_lines data)))"

definition getExePath :: "proc_view \<Rightarrow> nat \<Rightarrow> string option" where
  "getExePath pv pid = pv_exe pv pid"

definition or_empty :: "string option \<Rightarrow> string" where
  "or_empty x = (case x of None \<Rightarrow> [] | Some v \<Rightarrow> v)"

definition resolvePidData :: "proc_view \<Rightarrow> pidInfo \<Rightarrow> pidInfo" where
  "resolvePidData pv p =
     (let p = (if pi_cgroup p = [] then p\<lparr>pi_cgroup := or_empty (getCgroupFromProc pv (pi_pid p))\<rparr> else p);
          p = (if pi_argv p = [] then p\<lparr>pi_argv := getArgvFromProc pv (pi_pid p)\<rparr> else p)
      in if pi_argc p = [] then p\<lparr>pi_argc := or_empty (getExePath pv (pi_pid p))\<rparr> else p)"

definition getPidInfo :: "proc_view \<Rightarrow> nat \<Rightarrow> pidInfo" where
  "getPidInfo pv pid = resolvePidData pv
     \<lparr>pi_pid = pid, pi_cgroup = [], pi_argv = [], pi_argc = [], pi_parent = None, pi_children = [],
      pi_exit = None, pi_exec = None, pi_fork = None\<rparr>"

definition bracket_pid :: "string \<Rightarrow> nat \<Rightarrow> string" where
  "bracket_pid name pid = name @ ''['' @ nat_digits pid @ '']''"

definition knownRuncNames :: "string list" where
  "knownRuncNames = [''start'', ''create'', ''run'', ''init'', ''exec'', ''kill'']"

definition pidInfo_id :: "pidInfo \<Rightarrow> string" where
  "pidInfo_id p =
     (if pi_pid p = 1 then ''init[1]''
      else if filepath_Base (pi_argc p) = ''busybox'' \<and> pi_argv p \<noteq> [] then
        if pi_argv p ! 0 = pi_argc p then
          if length (pi_argv p) > 1 then bracket_pid (''busybox:'' @ pi_argv p ! 1) (pi_pid p)
          else bracket_pid ''busybox'' (pi_pid p)
        else bracket_pid (''busybox:'' @ pi_argv p ! 0) (pi_pid p)
      else if filepath_Base (pi_argc p) = ''runc'' \<or> filepath_Base (pi_argc p) = ''runc-test'' then
        (case List.find (\<lambda>name. name \<in> set (pi_argv p)) knownRuncNames of
           Some name \<Rightarrow> bracket_pid (''runc:'' @ name) (pi_pid p)
         | None \<Rightarrow> bracket_pid ''runc:unknown'' (pi_pid p))
      else bracket_pid (pi_argc p) (pi_pid p))"

definition ArgvNoFlags :: "pidInfo \<Rightarrow> string list" where
  "ArgvNoFlags p = filter (\<lambda>arg. \<not> prefix ''-'' arg) (pi_argv p)"

text \<open>
  The records live in a heap, a list in which a new record goes to the end, because a record
  stays reachable through \<open>parent\<close> and \<open>children\<close> after its process is gone. The loop over
  the parents follows pointers, so that it ends is a theorem.
\<close>

partial_function (option) parent_chain :: "pidInfo list \<Rightarrow> string list \<Rightarrow> nat option \<Rightarrow> string list option" where
  "parent_chain h acc a =
     (case a of None \<Rightarrow> Some acc
      | Some i \<Rightarrow> parent_chain h (acc @ [pidInfo_id (h ! i)]) (pi_parent (h ! i)))"

record log_value =
  lv_chain :: string
  lv_children :: nat
  lv_exit_dur :: "int option"
  lv_exec_dur :: "int option"

definition LogValue :: "pidInfo list \<Rightarrow> nat \<Rightarrow> log_value res option" where
  "LogValue h i =
     (let p = h ! i in
      case parent_chain h [''init[1]''] (pi_parent p) of None \<Rightarrow> None
      | Some chain \<Rightarrow> Some (
          if (pi_exit p \<noteq> None \<or> pi_exec p \<noteq> None) \<and> pi_fork p = None
          then Panic ''nil pointer dereference''
          else let start = snd (snd (the (pi_fork p))) in
            Ok \<lparr>lv_chain = join_with '' -> '' (chain @ [pidInfo_id p]),
                lv_children = length (pi_children p),
                lv_exit_dur = map_option (\<lambda>e. snd e - start) (pi_exit p),
                lv_exec_dur = map_option (\<lambda>e. e - start) (pi_exec p)\<rparr>))"

record ps_sys =
  ps_watch :: watcher
  ps_heap :: "pidInfo list"
  ps_pids :: "nat \<rightharpoonup> nat"

definition psnotify_fork :: "proc_view \<Rightarrow> nat \<Rightarrow> nat \<Rightarrow> int \<Rightarrow> ps_sys \<Rightarrow> ps_sys" where
  "psnotify_fork pv parent child t s =
     (let parentInfo = ps_pids s parent;
          a = length (ps_heap s);
          info = (getPidInfo pv child)\<lparr>pi_fork := Some (parent, child, t), pi_parent := parentInfo\<rparr>;
          heap = (case parentInfo of None \<Rightarrow> ps_heap s
                  | Some b \<Rightarrow> (ps_heap s)[b := (ps_heap s ! b)\<lparr>pi_children := pi_children (ps_heap s ! b) @ [a]\<rparr>])
      in s\<lparr>ps_heap := heap @ [info], ps_pids := (ps_pids s)(child \<mapsto> a),
           ps_watch := snd (Watch child PROC_EVENT_ALL (ps_watch s))\<rparr>)"

definition psnotify_exit :: "proc_view \<Rightarrow> nat \<Rightarrow> nat \<Rightarrow> int \<Rightarrow> ps_sys \<Rightarrow> ps_sys" where
  "psnotify_exit pv pid status t s =
     (case ps_pids s pid of None \<Rightarrow> s
      | Some a \<Rightarrow> s\<lparr>ps_heap := (ps_heap s)[a := resolvePidData pv ((ps_heap s ! a)\<lparr>pi_exit := Some (status, t)\<rparr>)],
                   ps_watch := snd (RemoveWatch pid (ps_watch s)),
                   ps_pids := (ps_pids s)(pid := None)\<rparr>)"

definition psnotify_exec :: "proc_view \<Rightarrow> nat \<Rightarrow> int \<Rightarrow> ps_sys \<Rightarrow> ps_sys" where
  "psnotify_exec pv pid t s =
     (case ps_pids s pid of None \<Rightarrow> s
      | Some a \<Rightarrow> s\<lparr>ps_heap := (ps_heap s)[a := (resolvePidData pv (ps_heap s ! a))\<lparr>pi_exec := Some t\<rparr>]\<rparr>)"

fun psnotify_handle :: "proc_view \<Rightarrow> notice \<Rightarrow> ps_sys \<Rightarrow> ps_sys" where
  "psnotify_handle pv (NoticeFork p c t) s = psnotify_fork pv p c t s"
| "psnotify_handle pv (NoticeExit p st t) s = psnotify_exit pv p st t s"
| "psnotify_handle pv (NoticeExec p t) s = psnotify_exec pv p t s"

definition ps_start :: "nat \<Rightarrow> ps_sys" where
  "ps_start self = \<lparr>ps_watch = snd (Watch self PROC_EVENT_ALL new_watches), ps_heap = [], ps_pids = Map.empty\<rparr>"

inductive ps_step :: "ps_sys \<Rightarrow> ps_sys \<Rightarrow> bool" where
  "ps_step s (psnotify_handle pv n s)"

section \<open>Messages of the kernel\<close>

lemma bytes_nat_nat_bytes: "bytes_nat (nat_bytes k n) = n mod 256 ^ k"
proof (induction k arbitrary: n)
  case (Suc k)
  have "unat (word_of_nat (n mod 256) :: 8 word) = n mod 256"
    by (simp add: unat_of_nat)
  then show ?case using Suc by (simp add: mod_mult2_eq)
qed simp

lemma length_nat_bytes [simp]: "length (nat_bytes k n) = k"
  by (induction k arbitrary: n) auto

lemma length_put_uint [simp]: "length (put_uint bo k n) = k"
  by (simp add: put_uint_def split: byte_order.split)

lemma get_put_uint: "get_uint bo (put_uint bo k n) = n mod 256 ^ k"
  by (simp add: get_uint_def put_uint_def bytes_nat_nat_bytes split: byte_order.split)

definition fits :: "nat list \<Rightarrow> nat list \<Rightarrow> bool" where
  "fits ks ns = list_all2 (\<lambda>k n. n < 256 ^ k) ks ns"

lemma fits_simps [simp]:
  "fits [] [] = True" "fits (k # ks) (n # ns) = (n < 256 ^ k \<and> fits ks ns)"
  "fits [] (n # ns) = False" "fits (k # ks) [] = False"
  by (simp_all add: fits_def)

lemma length_put_fields: "fits ks ns \<Longrightarrow> length (put_fields bo ks ns) = sum_list ks"
  unfolding fits_def by (induction rule: list_all2_induct) auto

lemma get_put_fields: "fits ks ns \<Longrightarrow> get_fields bo ks (put_fields bo ks ns @ rest) = ns"
  unfolding fits_def by (induction rule: list_all2_induct) (auto simp: get_put_uint)

lemma binary_Read_put:
  "fits ks ns \<Longrightarrow> binary_Read bo ks (put_fields bo ks ns @ rest) = (ns, rest)"
  by (simp add: binary_Read_def length_put_fields get_put_fields)

lemma binary_Read_short:
  "length bs < sum_list ks \<Longrightarrow> binary_Read bo ks bs = (replicate (length ks) 0, [])"
  by (simp add: binary_Read_def)

text \<open>
  The events of the kernel: fork with the thread and the process of the parent and of the
  child, exec, exit with thread, process, status and signal, and the kinds the watcher does
  not read.
\<close>

datatype proc_event =
    EvFork nat nat nat nat
  | EvExec nat nat
  | EvExit nat nat nat nat
  | EvOther nat

fun event_what :: "proc_event \<Rightarrow> nat" where
  "event_what (EvFork _ _ _ _) = 1"
| "event_what (EvExec _ _) = 2"
| "event_what (EvExit _ _ _ _) = 2 ^ 31"
| "event_what (EvOther w) = w"

fun event_layout :: "proc_event \<Rightarrow> nat list" where
  "event_layout (EvFork _ _ _ _) = [4, 4, 4, 4]"
| "event_layout (EvExec _ _) = [4, 4]"
| "event_layout (EvExit _ _ _ _) = [4, 4, 4, 4]"
| "event_layout (EvOther _) = []"

fun event_fields :: "proc_event \<Rightarrow> nat list" where
  "event_fields (EvFork a b c d) = [a, b, c, d]"
| "event_fields (EvExec a b) = [a, b]"
| "event_fields (EvExit a b c d) = [a, b, c, d]"
| "event_fields (EvOther _) = []"

definition wf_event :: "proc_event \<Rightarrow> bool" where
  "wf_event ev = (fits (event_layout ev) (event_fields ev) \<and> event_what ev < 256 ^ 4 \<and>
     (\<forall>w. ev = EvOther w \<longrightarrow> w \<noteq> 1 \<and> w \<noteq> 2 \<and> w \<noteq> 2 ^ 31))"

text \<open>A message: connector header, event header, the event, and the rest of the union.\<close>

definition kernel_message ::
  "byte_order \<Rightarrow> nat list \<Rightarrow> nat \<Rightarrow> nat \<Rightarrow> 8 word list \<Rightarrow> proc_event \<Rightarrow> 8 word list" where
  "kernel_message bo cn cpu ts pad ev =
     put_fields bo [4, 4, 4, 4, 2, 2] cn @ put_fields bo [4, 4, 8] [event_what ev, cpu, ts] @
     put_fields bo (event_layout ev) (event_fields ev) @ pad"

fun watch_event :: "int \<Rightarrow> proc_event \<Rightarrow> watcher \<Rightarrow> watcher" where
  "watch_event now (EvFork _ p _ c) w = on_fork now p c w"
| "watch_event now (EvExec _ p) w = on_exec now p w"
| "watch_event now (EvExit t p st _) w = on_exit now t p st w"
| "watch_event now (EvOther _) w = w"

lemmas layouts = cnMsg_def procEventHeader_def forkProcEvent_def execProcEvent_def exitProcEvent_def

lemma event_numbers:
  "unat PROC_EVENT_FORK = 1" "unat PROC_EVENT_EXEC = 2" "unat PROC_EVENT_EXIT = 2 ^ 31"
  by (simp_all add: PROC_EVENT_FORK_def PROC_EVENT_EXEC_def PROC_EVENT_EXIT_def)

lemma handleEvent_kernel:
  assumes "fits [4, 4, 4, 4, 2, 2] cn" "cpu < 2 ^ 32" "ts < 2 ^ 64" "wf_event ev"
  shows "handleEvent bo now (kernel_message bo cn cpu ts pad ev) w = watch_event now ev w"
proof -
  have hdr: "fits [4, 4, 8] [event_what ev, cpu, ts]"
    using assms by (simp add: wf_event_def)
  have body: "binary_Read bo (event_layout ev) (put_fields bo (event_layout ev) (event_fields ev) @ pad)
    = (event_fields ev, pad)"
    using assms(4) by (intro binary_Read_put) (simp add: wf_event_def)
  have "handleEvent bo now (kernel_message bo cn cpu ts pad ev) w =
    (let what = event_what ev; buf = put_fields bo (event_layout ev) (event_fields ev) @ pad in
     if what = 1 then let (event, _) = binary_Read bo [4, 4, 4, 4] buf in on_fork now (event ! 1) (event ! 3) w
     else if what = 2 then let (event, _) = binary_Read bo [4, 4] buf in on_exec now (event ! 1) w
     else if what = 2 ^ 31 then
       let (event, _) = binary_Read bo [4, 4, 4, 4] buf in on_exit now (event ! 0) (event ! 1) (event ! 2) w
     else w)"
    by (simp only: handleEvent_def kernel_message_def layouts event_numbers Let_def
        binary_Read_put [OF assms(1)] binary_Read_put [OF hdr] prod.case list.sel)
  then show ?thesis
    using body assms(4) by (cases ev) (simp_all add: wf_event_def)
qed

section \<open>Following a family of processes\<close>

text \<open>The processes of a family that live after an event, and what is reported of it.\<close>

fun alive_after :: "proc_event \<Rightarrow> nat set \<Rightarrow> nat set" where
  "alive_after (EvFork _ p _ c) A = (if p \<in> A then insert c A else A)"
| "alive_after (EvExit t p _ _) A = (if t = p then A - {p} else A)"
| "alive_after _ A = A"

fun family_report :: "(int \<times> proc_event) list \<Rightarrow> nat set \<Rightarrow> notice list" where
  "family_report [] A = []"
| "family_report ((now, ev) # evs) A =
     (case ev of
        EvFork _ p _ c \<Rightarrow> (if p \<in> A then [NoticeFork p c now] else [])
      | EvExec _ p \<Rightarrow> (if p \<in> A then [NoticeExec p now] else [])
      | EvExit t p st _ \<Rightarrow> (if p \<in> A \<and> p = t then [NoticeExit p st now] else [])
      | EvOther _ \<Rightarrow> []) @ family_report evs (alive_after ev A)"

definition watching_all :: "nat set \<Rightarrow> watcher \<Rightarrow> bool" where
  "watching_all A w = (\<not> isClosed w \<and> watches w = (\<lambda>p. if p \<in> A then Some PROC_EVENT_ALL else None))"

lemma event_masks [simp]:
  "PROC_EVENT_ALL AND PROC_EVENT_FORK = PROC_EVENT_FORK"
  "PROC_EVENT_ALL AND PROC_EVENT_EXEC = PROC_EVENT_EXEC"
  "PROC_EVENT_ALL AND PROC_EVENT_EXIT = PROC_EVENT_EXIT"
  by (simp_all add: PROC_EVENT_ALL_def PROC_EVENT_FORK_def PROC_EVENT_EXEC_def PROC_EVENT_EXIT_def)

lemma watching_all_isWatching:
  "watching_all A w \<Longrightarrow> e \<in> {PROC_EVENT_FORK, PROC_EVENT_EXEC, PROC_EVENT_EXIT} \<Longrightarrow>
   isWatching p e w \<longleftrightarrow> p \<in> A"
  by (auto simp: watching_all_def isWatching_def)

lemma watching_all_send [simp]: "watching_all A (send_notice n w) = watching_all A w"
  by (simp add: watching_all_def send_notice_def)

lemma sent_send_notice [simp]: "sent (send_notice n w) = sent w @ [n]"
  by (simp add: send_notice_def)

lemma watching_all_Watch:
  "watching_all A w \<Longrightarrow> watching_all (insert c A) (snd (Watch c PROC_EVENT_ALL w)) \<and>
   sent (snd (Watch c PROC_EVENT_ALL w)) = sent w"
  by (auto simp: watching_all_def Watch_def fun_eq_iff)

lemma watching_all_RemoveWatch:
  "watching_all A w \<Longrightarrow> watching_all (A - {p}) (snd (RemoveWatch p w)) \<and>
   sent (snd (RemoveWatch p w)) = sent w"
  by (auto simp: watching_all_def RemoveWatch_def fun_eq_iff)

lemma watch_event_family:
  assumes "watching_all A w"
  shows "watching_all (alive_after ev A) (watch_event now ev w) \<and>
    sent (watch_event now ev w) = sent w @ family_report [(now, ev)] A"
proof (cases ev)
  case (EvFork a p b c)
  show ?thesis
  proof (cases "p \<in> A")
    case True
    then have "the (watches w p) = PROC_EVENT_ALL" using assms by (simp add: watching_all_def)
    then show ?thesis
      using True EvFork watching_all_Watch [OF assms, of c] assms
        watching_all_isWatching [OF conjunct1 [OF watching_all_Watch [OF assms, of c]], of PROC_EVENT_FORK p]
      by (simp add: on_fork_def watching_all_isWatching Let_def)
  qed (use EvFork assms in \<open>simp add: on_fork_def watching_all_isWatching\<close>)
next
  case (EvExit t p st sg)
  then show ?thesis
    using assms watching_all_RemoveWatch [OF assms, of p]
    by (auto simp: on_exit_def watching_all_isWatching)
qed (use assms in \<open>auto simp: on_exec_def watching_all_isWatching\<close>)

text \<open>The bytes of a list of events read one after the other.\<close>

fun read_messages :: "byte_order \<Rightarrow> (int \<times> 8 word list) list \<Rightarrow> watcher \<Rightarrow> watcher" where
  "read_messages bo [] w = w"
| "read_messages bo ((now, data) # ms) w = read_messages bo ms (handleEvent bo now data w)"

definition kernel_messages ::
  "byte_order \<Rightarrow> nat list \<Rightarrow> nat \<Rightarrow> nat \<Rightarrow> 8 word list \<Rightarrow> (int \<times> proc_event) list \<Rightarrow> (int \<times> 8 word list) list" where
  "kernel_messages bo cn cpu ts pad evs = map (\<lambda>(now, ev). (now, kernel_message bo cn cpu ts pad ev)) evs"

lemma read_messages_family:
  assumes "fits [4, 4, 4, 4, 2, 2] cn" "cpu < 2 ^ 32" "ts < 2 ^ 64" "\<forall>(now, ev) \<in> set evs. wf_event ev"
    and "watching_all A w"
  shows "watching_all (fold alive_after (map snd evs) A) (read_messages bo (kernel_messages bo cn cpu ts pad evs) w) \<and>
    sent (read_messages bo (kernel_messages bo cn cpu ts pad evs) w) = sent w @ family_report evs A"
  using assms(4,5)
proof (induction evs arbitrary: A w)
  case (Cons e evs)
  obtain now ev where e: "e = (now, ev)" by (cases e)
  have wf: "wf_event ev" using Cons.prems e by simp
  note step = watch_event_family [OF Cons.prems(2), of ev now]
  have "read_messages bo (kernel_messages bo cn cpu ts pad (e # evs)) w =
    read_messages bo (kernel_messages bo cn cpu ts pad evs) (watch_event now ev w)"
    using handleEvent_kernel [OF assms(1-3) wf] e by (simp add: kernel_messages_def)
  then show ?case
    using Cons.IH [OF _ conjunct1 [OF step]] Cons.prems e step by simp
qed (simp add: kernel_messages_def)



text \<open>The kernel reports a new thread as a fork whose child process is the old process; the
  watcher passes it on as a fork of that process.\<close>

lemma thread_reported_as_fork:
  "watching_all A w \<Longrightarrow> p \<in> A \<Longrightarrow> tid \<noteq> pid \<Longrightarrow>
   sent (watch_event now (EvFork a p tid pid) w) = sent w @ [NoticeFork p pid now]"
  using watch_event_family [of A w "EvFork a p tid pid" now] by simp

text \<open>Without \<open>PROC_EVENT_EXEC\<close> forks are reported and not followed; without
  \<open>PROC_EVENT_EXIT\<close> the entry of a process outlives it.\<close>

lemma fork_not_followed:
  "watches w p = Some PROC_EVENT_FORK \<Longrightarrow> watches (on_fork now p c w) = watches w \<and>
   sent (on_fork now p c w) = sent w @ [NoticeFork p c now]"
  by (simp add: on_fork_def isWatching_def send_notice_def PROC_EVENT_FORK_def PROC_EVENT_EXEC_def)

lemma exit_leaves_entry:
  "watches w p = Some (PROC_EVENT_FORK OR PROC_EVENT_EXEC) \<Longrightarrow> on_exit now p p st w = w"
  by (simp add: on_exit_def isWatching_def PROC_EVENT_FORK_def PROC_EVENT_EXEC_def PROC_EVENT_EXIT_def)

text \<open>A message too short for the headers is dropped without an error.\<close>

lemma short_message_dropped:
  "length data < 36 \<Longrightarrow> handleEvent bo now data w = w"
  by (cases "length data < 20")
    (simp_all add: handleEvent_def layouts event_numbers binary_Read_def)

lemma closed_watcher_silent:
  "watches (Close_watches w) = Map.empty \<or> isClosed w"
  "\<not> isClosed w \<Longrightarrow> handleEvent bo now data (Close_watches w) = Close_watches w"
  by (simp_all add: Close_watches_def handleEvent_def on_fork_def on_exec_def on_exit_def isWatching_def
      Let_def prod.case_eq_if)

section \<open>Control messages\<close>

text \<open>The netlink length of a control message is its real length, and a receiver of the
  same byte order reads the operation back.\<close>

lemma control_message_layout:
  assumes "pid < 2 ^ 32" "op < 2 ^ 32"
  shows "length (control_message bo pid seq op) = 40"
    and "fst (binary_Read bo NlMsghdr (control_message bo pid seq op)) = [40, 3, 0, unat seq, pid]"
    and "fst (binary_Read bo cnMsg (drop 16 (control_message bo pid seq op))) = [1, 1, 0, 0, 4, 0]"
    and "get_uint bo (drop 36 (control_message bo pid seq op)) = op"
proof -
  have h: "fits NlMsghdr [40, 3, 0, unat seq, pid]"
    using assms unsigned_less [of seq] by (simp add: NlMsghdr_def)
  have c: "fits cnMsg [1, 1, 0, 0, 4, 0]" by (simp add: cnMsg_def)
  have m: "control_message bo pid seq op = put_fields bo NlMsghdr [40, 3, 0, unat seq, pid] @
      put_fields bo cnMsg [1, 1, 0, 0, 4, 0] @ put_uint bo 4 op"
    by (simp add: control_message_def cnMsg_def)
  have l: "length (put_fields bo NlMsghdr [40, 3, 0, unat seq, pid]) = 16"
    "length (put_fields bo cnMsg [1, 1, 0, 0, 4, 0]) = 20"
    using length_put_fields [OF h, of bo] length_put_fields [OF c, of bo] by (simp_all add: NlMsghdr_def cnMsg_def)
  show "length (control_message bo pid seq op) = 40" using l by (simp add: m)
  show "fst (binary_Read bo NlMsghdr (control_message bo pid seq op)) = [40, 3, 0, unat seq, pid]"
    by (simp add: m binary_Read_put [OF h])
  show "fst (binary_Read bo cnMsg (drop 16 (control_message bo pid seq op))) = [1, 1, 0, 0, 4, 0]"
    using l by (simp only: m drop_append binary_Read_put [OF c]) (simp add: binary_Read_put [OF c, simplified])
  show "get_uint bo (drop 36 (control_message bo pid seq op)) = op"
    using l assms by (simp add: m get_put_uint)
qed

text \<open>A failed bind keeps the socket open: \<open>NewWatcher\<close> returns the error without the
  listener.\<close>

lemma NewWatcher_leaks_socket:
  "NewWatcher bo pid None (Some e) sendto = (Fail (Ext e), nl) \<Longrightarrow> nl_open nl"
  by (auto simp: NewWatcher_def listener_bind_def)

section \<open>Closing while nobody listens\<close>

definition stranded :: "watcher_sys \<Rightarrow> bool" where
  "stranded s = (wd_channels_open s \<and> \<not> wd_consumer s \<and> wd_closed s \<and> \<not> wd_socket_open s \<and>
     (wd_reader s = InRecv \<or> wd_reader s = SendingError \<or> (\<exists>n ns. wd_reader s = SendingEvents (n # ns))))"

lemma stranded_step: "reader_step s t \<Longrightarrow> stranded s \<Longrightarrow> stranded t"
  by (induction rule: reader_step.induct) (auto simp: stranded_def)

interpretation strand: inductive_invariant stranded reader_step stranded
  by unfold_locales (auto intro: stranded_step)

text \<open>
  Closing a watcher nobody receives from leaves its channels open. When \<open>Close\<close> has
  run and the goroutine is in \<open>Recvfrom\<close> or sends on a channel without a receiver, it never
  comes back to the test for \<open>done\<close>: in every later state the channels are open and the
  goroutine is there.
\<close>

lemma close_strands_reader:
  assumes "wd_channels_open s" "\<not> wd_consumer s" "wd_closed s" "\<not> wd_socket_open s"
    and "wd_reader s \<in> {InRecv, SendingError} \<union> range (\<lambda>(n, ns). SendingEvents (n # ns))"
    and "reader_step\<^sup>*\<^sup>* s t"
  shows "wd_channels_open t \<and> wd_reader t \<noteq> ReaderDone"
proof -
  have "stranded s" using assms(1-5) by (auto simp: stranded_def)
  then have "stranded t" using strand.steps_inv assms(6) by blast
  then show ?thesis by (auto simp: stranded_def)
qed


text \<open>With a receiver the goroutine ends: after the failed receive the error is taken, and
  the test for \<open>done\<close> closes the channels.\<close>

lemma close_with_receiver_ends:
  assumes "wd_reader s = InRecv" "wd_consumer s" "wd_done s = 1"
  shows "\<exists>t. reader_step\<^sup>*\<^sup>* s t \<and> wd_reader t = ReaderDone \<and> \<not> wd_channels_open t"
proof -
  let ?a = "s\<lparr>wd_reader := SendingError\<rparr>" and ?b = "s\<lparr>wd_reader := AtLoop\<rparr>"
  let ?c = "?b\<lparr>wd_done := 0, wd_channels_open := False, wd_reader := ReaderDone\<rparr>"
  have "reader_step s ?a" using assms by (rule_tac reader_step.recv_error)
  moreover have "reader_step ?a ?b" using reader_step.sent_error [of ?a] assms by simp
  moreover have "reader_step ?b ?c" using reader_step.see_done [of ?b 0] assms by simp
  ultimately have "reader_step\<^sup>*\<^sup>* s ?c"
    by (meson rtranclp.rtrancl_into_rtrancl rtranclp.rtrancl_refl)
  then show ?thesis by (intro exI [of _ ?c]) simp
qed

section \<open>The log of the consumer\<close>

definition ps_wf :: "ps_sys \<Rightarrow> bool" where
  "ps_wf s = ((\<forall>a < length (ps_heap s). pi_fork (ps_heap s ! a) \<noteq> None \<and>
       (\<forall>b. pi_parent (ps_heap s ! a) = Some b \<longrightarrow> b < a)) \<and>
     (\<forall>p a. ps_pids s p = Some a \<longrightarrow> a < length (ps_heap s)))"

lemma resolvePidData_keeps [simp]:
  "pi_fork (resolvePidData pv p) = pi_fork p" "pi_parent (resolvePidData pv p) = pi_parent p"
  by (simp_all add: resolvePidData_def Let_def)

lemma ps_wf_handle: "ps_wf s \<Longrightarrow> ps_wf (psnotify_handle pv n s)"
proof (cases n)
  case (NoticeFork p c t)
  assume "ps_wf s"
  then show ?thesis unfolding NoticeFork
    by (auto simp: ps_wf_def psnotify_fork_def Let_def nth_append nth_list_update less_Suc_eq
        split: option.splits)
next
  case (NoticeExec p t)
  assume "ps_wf s"
  then show ?thesis unfolding NoticeExec
    by (auto simp: ps_wf_def psnotify_exec_def nth_list_update split: option.splits)
next
  case (NoticeExit p st t)
  assume "ps_wf s"
  then show ?thesis unfolding NoticeExit
    by (auto simp: ps_wf_def psnotify_exit_def nth_list_update split: option.splits)
qed

interpretation ps_infos: inductive_invariant "\<lambda>s. s = ps_start self" ps_step ps_wf
  by unfold_locales (simp add: ps_wf_def ps_start_def, auto simp: ps_step.simps ps_wf_handle)

lemma parent_chain_ends:
  assumes "\<And>a b. a < length h \<Longrightarrow> pi_parent (h ! a) = Some b \<Longrightarrow> b < a"
  shows "(\<And>i. a = Some i \<Longrightarrow> i < length h) \<Longrightarrow> \<exists>r. parent_chain h acc a = Some r"
proof (induction "case a of None \<Rightarrow> 0 | Some i \<Rightarrow> Suc i" arbitrary: a acc rule: less_induct)
  case less
  show ?case
  proof (cases a)
    case None
    then show ?thesis by (simp add: parent_chain.simps)
  next
    case (Some i)
    have i: "i < length h" using less.prems Some by simp
    have "\<exists>r. parent_chain h (acc @ [pidInfo_id (h ! i)]) (pi_parent (h ! i)) = Some r"
      using assms [OF i] i Some
      by (intro less.hyps) (auto split: option.split dest: order.strict_trans)
    then show ?thesis using Some by (simp add: parent_chain.simps [of h acc "Some i"])
  qed
qed

text \<open>
  Writing a record to the log always ends and never dereferences a missing event. In
  every state the consumer can reach, from whatever events and whatever \<open>/proc\<close> shows, the
  loop over the parents of a record ends, because a parent is older than its child, also
  when a process id is used again; and a record with an exit or an exec has its fork.
\<close>

lemma log_of_process_ends:
  assumes "reachable (\<lambda>s. s = ps_start self) ps_step s" "a < length (ps_heap s)"
  shows "\<exists>v. LogValue (ps_heap s) a = Some (Ok v)"
proof -
  have wf: "ps_wf s" using assms(1) by (rule ps_infos.reachable_inv)
  then have "\<exists>r. parent_chain (ps_heap s) [''init[1]''] (pi_parent (ps_heap s ! a)) = Some r"
    using assms(2) by (intro parent_chain_ends) (auto simp: ps_wf_def dest: order.strict_trans)
  then show ?thesis using wf assms(2) by (auto simp: LogValue_def ps_wf_def Let_def)
qed


text \<open>The cgroup of version 2 is the rest of the line, colons included.\<close>

lemma cgroup_v2_path:
  assumes "CHR 0x0A \<notin> set path"
  shows "first_cgroup (split_on CHR 0x0A (''0::'' @ path @ [CHR 0x0A])) = path"
proof -
  have "split_on CHR 0x0A ((''0::'' @ path) @ CHR 0x0A # []) = (''0::'' @ path) # split_on CHR 0x0A []"
    using assms by (intro split_on_append_sep) simp
  then show ?thesis by (simp add: numeral_eq_Suc)
qed

end
