(* ===== verification/ShimManager.thy ===== *)
theory ShimManager
  imports Container
begin

text \<open>
  Starting and stopping shim processes (\<open>cmd/containerd-shim-runm-v2/manager/manager.go\<close>):
  the command line, the grouping of containers, the sockets with their clean-up, and the
  \<open>delete\<close> call that kills the process of a bundle. The functions of containerd's shim
  package and the system calls are answered by the environment, which may look at all
  earlier calls.
\<close>

section \<open>Environment\<close>

record command =
  cmd_Path :: string
  cmd_Args :: "string list"
  cmd_Dir :: string
  cmd_Env :: "string list"
  cmd_ExtraFiles :: "string list"
  cmd_Setpgid :: bool

datatype shim_op =
    NewSocket string
  | CanConnect string
  | RemoveSocket string
  | SocketFile string
  | CloseListener string
  | CloseFile string
  | LockThread
  | UnlockThread
  | StartCmd command
  | AdjustOOMScore
  | KillCmd

text \<open>\<open>sh_answer l op\<close> is the error of the call \<open>op\<close> after the calls \<open>l\<close>; for
  \<open>CanConnect\<close> no error means that the connection was made.\<close>

record shim_host =
  sh_Namespace :: "ext_error + string"
  sh_Executable :: "ext_error + string"
  sh_Getwd :: "ext_error + string"
  sh_Environ :: "string list"
  sh_config_json :: "ext_error + (string \<times> string) list"
  sh_SocketAddress :: "string \<Rightarrow> string \<Rightarrow> bool \<Rightarrow> ext_error + string"
  sh_Eaddrinuse :: "ext_error \<Rightarrow> bool"
  sh_answer :: "shim_op list \<Rightarrow> shim_op \<Rightarrow> ext_error option"

definition sh_ok :: "shim_host \<Rightarrow> shim_op list \<Rightarrow> shim_op \<Rightarrow> bool" where
  "sh_ok h l op = (sh_answer h l op = None)"

section \<open>Command and grouping\<close>

definition newCommand :: "shim_host \<Rightarrow> string \<Rightarrow> string \<Rightarrow> bool \<Rightarrow> command res" where
  "newCommand h cid containerdAddress debug =
     fst (and_then (of_sum (sh_Namespace h), ()) (\<lambda>ns _.
       and_then (of_sum (sh_Executable h), ()) (\<lambda>self _.
       and_then (of_sum (sh_Getwd h), ()) (\<lambda>cwd _.
         (Ok \<lparr>cmd_Path = self,
              cmd_Args = [''-namespace'', ns, ''-id'', cid, ''-address'', containerdAddress] @
                (if debug then [''-debug''] else []),
              cmd_Dir = cwd,
              cmd_Env = sh_Environ h @ [''GOMAXPROCS=4'', ''OTEL_SERVICE_NAME=containerd-shim-'' @ cid],
              cmd_ExtraFiles = [], cmd_Setpgid = True\<rparr>, ())))))"

definition groupLabels :: "string list" where
  "groupLabels = [''io.containerd.runc.v2.group'', ''io.kubernetes.cri.sandbox-id'']"

fun grouping_loop :: "(string \<times> string) list \<Rightarrow> string list \<Rightarrow> string \<Rightarrow> string" where
  "grouping_loop annotations [] grouping = grouping"
| "grouping_loop annotations (label # labels) grouping =
     (case map_of annotations label of
        Some groupID \<Rightarrow> groupID
      | None \<Rightarrow> grouping_loop annotations labels grouping)"

definition manager_readSpec :: "shim_host \<Rightarrow> (string \<times> string) list res" where
  "manager_readSpec h = of_sum (sh_config_json h)"

section \<open>Sockets\<close>

record shimSocket =
  ss_addr :: string
  ss_s :: bool
  ss_f :: bool

definition shimSocket_Close :: "shimSocket \<Rightarrow> shim_op list \<Rightarrow> shim_op list" where
  "shimSocket_Close s l =
     l @ (if ss_s s then [CloseListener (ss_addr s)] else []) @
       (if ss_f s then [CloseFile (ss_addr s)] else []) @ [RemoveSocket (ss_addr s)]"

text \<open>A socket, the address of a shim that answers there already with \<open>ErrAlreadyExists\<close>, or
  an error without a socket.\<close>

datatype socket_result = NewSock shimSocket | InUse string | SockErr go_error

definition socket_file :: "shim_host \<Rightarrow> string \<Rightarrow> shim_op list \<Rightarrow> socket_result \<times> shim_op list" where
  "socket_file h address l =
     (let s = \<lparr>ss_addr = address, ss_s = True, ss_f = False\<rparr> in
      case sh_answer h l (SocketFile address) of
        Some e \<Rightarrow> (SockErr (Ext e), shimSocket_Close s (l @ [SocketFile address]))
      | None \<Rightarrow> (NewSock (s\<lparr>ss_f := True\<rparr>), l @ [SocketFile address]))"

text \<open>The address is in use: a shim that answers there is shared, anything else is a left-over
  and removed.\<close>

definition retry_socket ::
  "shim_host \<Rightarrow> bool \<Rightarrow> string \<Rightarrow> shim_op list \<Rightarrow> socket_result \<times> shim_op list" where
  "retry_socket h debug address l =
     (let l2 = (if debug then l else l @ [CanConnect address]); l3 = l2 @ [RemoveSocket address] in
      if \<not> debug \<and> sh_ok h l (CanConnect address) then (InUse address, l2)
      else case sh_answer h l2 (RemoveSocket address) of
          Some e \<Rightarrow> (SockErr (Wrapf ''removing pre-existing socket'' (Ext e)), l3)
        | None \<Rightarrow>
            (case sh_answer h l3 (NewSocket address) of
               Some e \<Rightarrow> (SockErr (Wrapf ''creating new shim socket on retry'' (Ext e)), l3 @ [NewSocket address])
             | None \<Rightarrow> socket_file h address (l3 @ [NewSocket address])))"

definition newShimSocket ::
  "shim_host \<Rightarrow> string \<Rightarrow> string \<Rightarrow> bool \<Rightarrow> shim_op list \<Rightarrow> socket_result \<times> shim_op list" where
  "newShimSocket h path cid debug l =
     (case sh_SocketAddress h path cid debug of
        Inl e \<Rightarrow> (SockErr (Ext e), l)
      | Inr address \<Rightarrow>
          (case sh_answer h l (NewSocket address) of
             None \<Rightarrow> socket_file h address (l @ [NewSocket address])
           | Some e \<Rightarrow>
               if \<not> sh_Eaddrinuse h e
               then (SockErr (Wrapf ''creating new shim socket'' (Ext e)), l @ [NewSocket address])
               else retry_socket h debug address (l @ [NewSocket address])))"

section \<open>Start\<close>

definition close_sockets :: "shimSocket list \<Rightarrow> shim_op list \<Rightarrow> shim_op list" where
  "close_sockets ss l = fold shimSocket_Close ss l"

text \<open>The part from the lock of the thread on; the deferred functions of an error kill the
  process first and then close the sockets.\<close>

definition start_process ::
  "shim_host \<Rightarrow> command \<Rightarrow> shimSocket list \<Rightarrow> shim_op list \<Rightarrow> string res \<times> shim_op list" where
  "start_process h cmd sockets l =
     (let cmd = cmd\<lparr>cmd_ExtraFiles := map ss_addr sockets\<rparr>; l1 = l @ [LockThread] in
      case sh_answer h l1 (StartCmd cmd) of
        Some e \<Rightarrow> (Fail (Ext e), close_sockets sockets (l1 @ [StartCmd cmd]))
      | None \<Rightarrow>
          let l2 = l1 @ [StartCmd cmd, UnlockThread] in
          case sh_answer h l2 AdjustOOMScore of
            Some e \<Rightarrow> (Fail (Wrapf ''adjusting OOM score for shim'' (Ext e)),
                       close_sockets sockets (l2 @ [AdjustOOMScore, KillCmd]))
          | None \<Rightarrow> (Ok (ss_addr (hd sockets)), l2 @ [AdjustOOMScore]))"

definition manager_Start ::
  "shim_host \<Rightarrow> string \<Rightarrow> string \<Rightarrow> bool \<Rightarrow> shim_op list \<Rightarrow> string res \<times> shim_op list" where
  "manager_Start h cid address debug l =
     and_then (newCommand h cid address debug, l) (\<lambda>cmd l.
     and_then (manager_readSpec h, l) (\<lambda>annotations l.
       let grouping = grouping_loop annotations groupLabels cid in
       case newShimSocket h address grouping False l of
         (InUse a, l) \<Rightarrow> (Ok a, l)
       | (SockErr e, l) \<Rightarrow>
           (if err_is e ErrAlreadyExists then (Panic ''nil pointer dereference'', l) else (Fail e, l))
       | (NewSock s, l) \<Rightarrow>
           if debug then
             (case newShimSocket h address grouping True l of
                (InUse a, l) \<Rightarrow> (Fail (Sentinel ErrAlreadyExists), close_sockets [s] l)
              | (SockErr e, l) \<Rightarrow> (Fail e, close_sockets [s] l)
              | (NewSock d, l) \<Rightarrow> start_process h cmd [s, d] l)
           else start_process h cmd [s] l))"

section \<open>Stop and Info\<close>

record stop_status =
  st_ExitStatus :: int
  st_Pid :: int

text \<open>\<open>Stop\<close> returns its status and the process that was sent \<open>SIGKILL\<close>.\<close>

definition manager_Stop :: "ext_error + string \<Rightarrow> string \<Rightarrow> files \<Rightarrow> (stop_status \<times> int option) res" where
  "manager_Stop getwd cid fs =
     (case getwd of
        Inl e \<Rightarrow> Fail (Ext e)
      | Inr cwd \<Rightarrow>
          (case ReadPid (filepath_Join [filepath_Dir cwd, cid]) fs of
             Ok pid \<Rightarrow> Ok (\<lparr>st_ExitStatus = 128 + 9, st_Pid = pid\<rparr>, Some pid)
           | Fail e \<Rightarrow> if e = file_missing then Ok (\<lparr>st_ExitStatus = 128 + 9, st_Pid = 0\<rparr>, None) else Fail e
           | Panic m \<Rightarrow> Panic m))"

record 'f runtime_info =
  ri_Name :: string
  ri_Options :: "string option"
  ri_Features :: 'f

text \<open>The results of reading and marshalling the options and of the runtime creator are
  arguments.\<close>

definition manager_Info ::
  "string \<Rightarrow> go_error + string option \<Rightarrow> (string \<Rightarrow> ext_error + string) \<Rightarrow> ext_error + 'g \<Rightarrow>
   ('g \<Rightarrow> ext_error + 'f) \<Rightarrow> 'f runtime_info res" where
  "manager_Info name opts marshal_opts features marshal =
     (case (case opts of Inl e \<Rightarrow> if err_is e ErrNotFound then Ok None else Fail (Wrapf ''reading runtime options'' e)
                       | Inr v \<Rightarrow> Ok v) of
        Fail e \<Rightarrow> Fail e | Panic m \<Rightarrow> Panic m
      | Ok o1 \<Rightarrow>
         (case (case o1 of None \<Rightarrow> Ok None
                | Some v \<Rightarrow> (case marshal_opts v of Inl e \<Rightarrow> Fail (Wrapf ''marshaling runtime options'' (Ext e))
                             | Inr a \<Rightarrow> Ok (Some a))) of
            Fail e \<Rightarrow> Fail e | Panic m \<Rightarrow> Panic m
          | Ok o2 \<Rightarrow>
             (case features of Inl e \<Rightarrow> Fail (Wrapf ''getting runtime features'' (Ext e))
              | Inr f \<Rightarrow> (case marshal f of Inl e \<Rightarrow> Fail (Wrapf ''marshaling runtime features'' (Ext e))
                         | Inr a \<Rightarrow> Ok \<lparr>ri_Name = name, ri_Options = o2, ri_Features = a\<rparr>))))"

section \<open>What a log of calls leaves behind\<close>

text \<open>What calls \<open>mk\<close> created and later calls \<open>cl\<close> did not take away.\<close>

definition left_over :: "shim_host \<Rightarrow> ('a \<Rightarrow> shim_op) \<Rightarrow> ('a \<Rightarrow> shim_op) \<Rightarrow> shim_op list \<Rightarrow> 'a set" where
  "left_over h mk cl l = {a. \<exists>p s. l = p @ mk a # s \<and> sh_ok h p (mk a) \<and> cl a \<notin> set s}"

abbreviation "listening h \<equiv> left_over h NewSocket CloseListener"
abbreviation "on_disk h \<equiv> left_over h NewSocket RemoveSocket"
abbreviation "open_files h \<equiv> left_over h SocketFile CloseFile"
abbreviation "shim_running h \<equiv> left_over h StartCmd (\<lambda>_. KillCmd)"

lemma left_over_Nil [simp]: "left_over h mk cl [] = {}"
  by (simp add: left_over_def)

lemma left_over_snoc:
  "left_over h mk cl (l @ [op]) = {a \<in> left_over h mk cl l. cl a \<noteq> op} \<union> {a. op = mk a \<and> sh_ok h l op}"
proof (intro equalityI subsetI)
  fix a
  assume "a \<in> left_over h mk cl (l @ [op])"
  then obtain p s where "l @ [op] = p @ mk a # s" "sh_ok h p (mk a)" "cl a \<notin> set s"
    by (auto simp: left_over_def)
  then show "a \<in> {a \<in> left_over h mk cl l. cl a \<noteq> op} \<union> {a. op = mk a \<and> sh_ok h l op}"
    by (cases s rule: rev_cases) (auto simp: left_over_def)
next
  fix a
  assume a: "a \<in> {a \<in> left_over h mk cl l. cl a \<noteq> op} \<union> {a. op = mk a \<and> sh_ok h l op}"
  show "a \<in> left_over h mk cl (l @ [op])"
  proof (cases "op = mk a \<and> sh_ok h l op")
    case True
    then show ?thesis unfolding left_over_def by (intro CollectI, rule_tac x = l in exI) auto
  next
    case False
    then obtain p s where "l = p @ mk a # s" "sh_ok h p (mk a)" "cl a \<notin> set s" "cl a \<noteq> op"
      using a by (auto simp: left_over_def)
    then show ?thesis unfolding left_over_def
      by (intro CollectI, rule_tac x = p in exI, rule_tac x = "s @ [op]" in exI) auto
  qed
qed

definition clean :: "shim_host \<Rightarrow> shim_op list \<Rightarrow> bool" where
  "clean h l = (listening h l = {} \<and> on_disk h l = {} \<and> open_files h l = {} \<and> shim_running h l = {})"

text \<open>The sockets that are open with a log, and nothing else.\<close>

definition holds :: "shim_host \<Rightarrow> string set \<Rightarrow> shim_op list \<Rightarrow> bool" where
  "holds h A l = (listening h l \<subseteq> A \<and> on_disk h l \<subseteq> A \<and> open_files h l \<subseteq> A \<and> shim_running h l = {})"

lemma clean_holds: "clean h l = holds h {} l"
  by (simp add: clean_def holds_def)

lemma holds_mono: "holds h A l \<Longrightarrow> A \<subseteq> B \<Longrightarrow> holds h B l"
  by (auto simp: holds_def)

lemma holds_snoc:
  assumes "holds h A l"
  shows "holds h (insert a A) (l @ [NewSocket a])"
    and "\<not> sh_ok h l (NewSocket a) \<Longrightarrow> holds h A (l @ [NewSocket a])"
    and "holds h A (l @ [CanConnect a])" "holds h A (l @ [RemoveSocket a])"
    and "a \<in> A \<or> \<not> sh_ok h l (SocketFile a) \<Longrightarrow> holds h A (l @ [SocketFile a])"
    and "holds h A (l @ [LockThread])" "holds h A (l @ [UnlockThread])" "holds h A (l @ [AdjustOOMScore])"
    and "\<not> sh_ok h l (StartCmd c) \<Longrightarrow> holds h A (l @ [StartCmd c])"
  using assms by (auto simp: holds_def left_over_snoc)

lemma holds_Close:
  assumes "holds h (insert (ss_addr s) A) l" "ss_s s" "ss_f s \<or> open_files h l \<subseteq> A"
  shows "holds h A (shimSocket_Close s l)"
proof -
  let ?a = "ss_addr s"
  have "shimSocket_Close s l = (if ss_f s then ((l @ [CloseListener ?a]) @ [CloseFile ?a]) @ [RemoveSocket ?a]
      else (l @ [CloseListener ?a]) @ [RemoveSocket ?a])"
    using assms(2) by (simp add: shimSocket_Close_def)
  moreover have "listening h ((l @ [CloseListener ?a]) @ [RemoveSocket ?a]) \<subseteq> A"
    "on_disk h ((l @ [CloseListener ?a]) @ [RemoveSocket ?a]) \<subseteq> A"
    "listening h (((l @ [CloseListener ?a]) @ [CloseFile ?a]) @ [RemoveSocket ?a]) \<subseteq> A"
    "on_disk h (((l @ [CloseListener ?a]) @ [CloseFile ?a]) @ [RemoveSocket ?a]) \<subseteq> A"
    "open_files h (((l @ [CloseListener ?a]) @ [CloseFile ?a]) @ [RemoveSocket ?a]) \<subseteq> A"
    using assms(1) unfolding holds_def left_over_snoc by auto
  moreover have "open_files h ((l @ [CloseListener ?a]) @ [RemoveSocket ?a]) \<subseteq> A" if "\<not> ss_f s"
    using assms(1,3) that unfolding holds_def left_over_snoc by auto
  moreover have "shim_running h ((l @ [CloseListener ?a]) @ [RemoveSocket ?a]) = {}"
    "shim_running h (((l @ [CloseListener ?a]) @ [CloseFile ?a]) @ [RemoveSocket ?a]) = {}"
    using assms(1) unfolding holds_def left_over_snoc by auto
  ultimately show ?thesis by (simp add: holds_def split: if_split)
qed

lemma socket_file_holds:
  assumes "holds h (insert a A) l" "open_files h l \<subseteq> A" "socket_file h a l = (r, l')"
  shows "case r of NewSock s \<Rightarrow> s = \<lparr>ss_addr = a, ss_s = True, ss_f = True\<rparr> \<and> holds h (insert a A) l'
    | InUse b \<Rightarrow> False | SockErr e \<Rightarrow> holds h A l'"
proof (cases "sh_answer h l (SocketFile a)")
  case None
  then show ?thesis using assms holds_snoc(5) [OF assms(1), of a] by (auto simp: socket_file_def Let_def)
next
  case (Some e)
  then have "\<not> sh_ok h l (SocketFile a)" by (simp add: sh_ok_def)
  then have "holds h (insert a A) (l @ [SocketFile a])" "open_files h (l @ [SocketFile a]) \<subseteq> A"
    using holds_snoc(5) [OF assms(1), of a] assms(2) by (auto simp: left_over_snoc)
  then have "holds h A (shimSocket_Close \<lparr>ss_addr = a, ss_s = True, ss_f = False\<rparr> (l @ [SocketFile a]))"
    by (intro holds_Close) simp_all
  then show ?thesis using Some assms(3) by (auto simp: socket_file_def Let_def)
qed

lemma new_socket_file:
  assumes "holds h A l" "socket_file h a (l @ [NewSocket a]) = (r, l')"
  shows "case r of NewSock s \<Rightarrow> s = \<lparr>ss_addr = a, ss_s = True, ss_f = True\<rparr> \<and> holds h (insert a A) l'
    | InUse b \<Rightarrow> False | SockErr e \<Rightarrow> holds h A l'"
  using assms(1) by (intro socket_file_holds [OF holds_snoc(1) [OF assms(1)] _ assms(2)])
    (auto simp: holds_def left_over_snoc)

lemma retry_socket_holds:
  assumes "holds h A l" "retry_socket h debug a l = (r, l')"
  shows "case r of
      NewSock s \<Rightarrow> s = \<lparr>ss_addr = a, ss_s = True, ss_f = True\<rparr> \<and> holds h (insert a A) l'
    | InUse b \<Rightarrow> b = a \<and> \<not> debug \<and> holds h A l' \<and> (\<exists>p. l' = p @ [CanConnect a] \<and> sh_ok h p (CanConnect a))
    | SockErr e \<Rightarrow> holds h A l'"
proof -
  let ?l2 = "if debug then l else l @ [CanConnect a]"
  have 2: "holds h A ?l2" using assms(1) holds_snoc(3) [OF assms(1), of a] by simp
  have 3: "holds h A (?l2 @ [RemoveSocket a])" by (rule holds_snoc(4) [OF 2])
  consider (conn) "\<not> debug" "sh_ok h l (CanConnect a)" "r = InUse a" "l' = l @ [CanConnect a]"
    | (rm) e where "r = SockErr e" "l' = ?l2 @ [RemoveSocket a]"
    | (again) e where "r = SockErr e" "l' = (?l2 @ [RemoveSocket a]) @ [NewSocket a]"
        "\<not> sh_ok h (?l2 @ [RemoveSocket a]) (NewSocket a)"
    | (new) "socket_file h a ((?l2 @ [RemoveSocket a]) @ [NewSocket a]) = (r, l')"
    using assms(2) by (auto simp: retry_socket_def sh_ok_def Let_def split: if_splits option.splits)
  then show ?thesis
  proof cases
    case conn
    then show ?thesis using holds_snoc(3) [OF assms(1)] by auto
  next
    case rm
    then show ?thesis using 3 by simp
  next
    case again
    then show ?thesis using holds_snoc(2) [OF 3] by simp
  next
    case new
    from new_socket_file [OF 3 this] show ?thesis by (auto split: socket_result.splits)
  qed
qed

lemma newShimSocket_holds:
  assumes "holds h A l" "newShimSocket h path g debug l = (r, l')"
  shows "case r of
      NewSock s \<Rightarrow> sh_SocketAddress h path g debug = Inr (ss_addr s) \<and> ss_s s \<and> ss_f s \<and> holds h (insert (ss_addr s) A) l'
    | InUse a \<Rightarrow> sh_SocketAddress h path g debug = Inr a \<and> \<not> debug \<and> holds h A l' \<and>
        (\<exists>p. l' = p @ [CanConnect a] \<and> sh_ok h p (CanConnect a))
    | SockErr e \<Rightarrow> holds h A l'"
proof (cases "sh_SocketAddress h path g debug")
  case (Inl e)
  then show ?thesis using assms by (auto simp: newShimSocket_def)
next
  case (Inr a)
  have no: "holds h A (l @ [NewSocket a])" if "sh_answer h l (NewSocket a) = Some e" for e
    using that by (intro holds_snoc(2) assms(1)) (simp add: sh_ok_def)
  consider (new) "socket_file h a (l @ [NewSocket a]) = (r, l')"
    | (err) e e' where "sh_answer h l (NewSocket a) = Some e" "r = SockErr e'" "l' = l @ [NewSocket a]"
    | (again) e where "sh_answer h l (NewSocket a) = Some e" "retry_socket h debug a (l @ [NewSocket a]) = (r, l')"
    using assms(2) Inr by (auto simp: newShimSocket_def split: if_splits option.splits)
  then show ?thesis
  proof cases
    case new
    from new_socket_file [OF assms(1) this] show ?thesis using Inr by (auto split: socket_result.splits)
  next
    case err
    then show ?thesis using no by simp
  next
    case again
    from retry_socket_holds [OF no [OF again(1)] again(2)] show ?thesis using Inr by (auto split: socket_result.splits)
  qed
qed

section \<open>Starting\<close>

definition whole :: "shimSocket \<Rightarrow> bool" where
  "whole s = (ss_s s \<and> ss_f s)"

lemma close_sockets_holds:
  "holds h (ss_addr ` set ss \<union> A) l \<Longrightarrow> \<forall>s \<in> set ss. whole s \<Longrightarrow> holds h A (close_sockets ss l)"
  unfolding close_sockets_def
proof (induction ss arbitrary: l)
  case (Cons s ss)
  have "holds h (ss_addr ` set ss \<union> A) (shimSocket_Close s l)"
    using Cons.prems by (intro holds_Close) (auto simp: whole_def)
  then show ?case using Cons by simp
qed simp

lemma start_process_Fail:
  assumes "holds h (ss_addr ` set ss) l" "\<forall>s \<in> set ss. whole s" "start_process h cmd ss l = (Fail e, l')"
  shows "clean h l'"
proof -
  let ?c = "cmd\<lparr>cmd_ExtraFiles := map ss_addr ss\<rparr>" and ?l1 = "l @ [LockThread]"
  have 1: "holds h (ss_addr ` set ss) ?l1" by (rule holds_snoc(6) [OF assms(1)])
  consider (start) "\<not> sh_ok h ?l1 (StartCmd ?c)" "l' = close_sockets ss (?l1 @ [StartCmd ?c])"
    | (oom) "l' = close_sockets ss ((((?l1 @ [StartCmd ?c]) @ [UnlockThread]) @ [AdjustOOMScore]) @ [KillCmd])"
    using assms(3) by (auto simp: start_process_def sh_ok_def Let_def split: option.splits)
  then show ?thesis
  proof cases
    case start
    then show ?thesis unfolding clean_holds start(2)
      using holds_snoc(9) [OF 1 start(1)] assms(2) by (intro close_sockets_holds) simp_all
  next
    case oom
    have "holds h (ss_addr ` set ss) ((((?l1 @ [StartCmd ?c]) @ [UnlockThread]) @ [AdjustOOMScore]) @ [KillCmd])"
      using 1 unfolding holds_def left_over_snoc by auto
    then show ?thesis unfolding clean_holds oom using assms(2) by (intro close_sockets_holds) simp_all
  qed
qed

lemma holds_Nil [simp]: "holds h A []"
  by (simp add: holds_def)


definition demo_shim_host :: shim_host where
  "demo_shim_host = \<lparr>sh_Namespace = Inr ''ns'', sh_Executable = Inr ''/bin/shim'', sh_Getwd = Inr ''/b/c1'',
     sh_Environ = [], sh_config_json = Inr [], sh_SocketAddress = (\<lambda>p i d. Inr (i @ (if d then ''-debug'' else []))),
     sh_Eaddrinuse = (\<lambda>_. True),
     sh_answer = (\<lambda>l op. if op = AdjustOOMScore
       then Some \<lparr>ext_text = ''EPERM'', ext_wraps = [], ext_is_ESRCH = False\<rparr> else None)\<rparr>"


lemma start_process_Ok:
  assumes "holds h A l" "start_process h cmd ss l = (Ok a, l')"
  shows "a = ss_addr (hd ss) \<and> shim_running h l' = {cmd\<lparr>cmd_ExtraFiles := map ss_addr ss\<rparr>}"
proof -
  let ?c = "cmd\<lparr>cmd_ExtraFiles := map ss_addr ss\<rparr>" and ?l1 = "l @ [LockThread]"
  have c: "sh_ok h ?l1 (StartCmd ?c)" "a = ss_addr (hd ss)"
    "l' = ((?l1 @ [StartCmd ?c]) @ [UnlockThread]) @ [AdjustOOMScore]"
    using assms(2) by (auto simp: start_process_def sh_ok_def Let_def split: option.splits)
  have "shim_running h ?l1 = {}" using holds_snoc(6) [OF assms(1)] by (simp add: holds_def)
  then have "shim_running h (((?l1 @ [StartCmd ?c]) @ [UnlockThread]) @ [AdjustOOMScore]) = {?c}"
    unfolding left_over_snoc [of _ _ _ "?l1 @ [StartCmd ?c]"] left_over_snoc [of _ _ _ "(?l1 @ [StartCmd ?c]) @ [UnlockThread]"]
      left_over_snoc [of _ _ _ ?l1] using c(1) by auto
  then show ?thesis using c by simp
qed

text \<open>The command of a container, with the sockets it inherits.\<close>

definition shim_command :: "shim_host \<Rightarrow> string \<Rightarrow> string \<Rightarrow> bool \<Rightarrow> string list \<Rightarrow> command \<Rightarrow> bool" where
  "shim_command h cid address debug addrs c \<longleftrightarrow>
     (\<exists>cmd. newCommand h cid address debug = Ok cmd \<and> c = cmd\<lparr>cmd_ExtraFiles := addrs\<rparr>)"

text \<open>
  C21: The address that \<open>Start\<close> returns is the socket of the container's group, and there is a
  shim behind it: either another shim accepted a connection there, and then no process was
  started and no socket created, or exactly one process runs, with the command line of this
  container and this socket as its first inherited file.
\<close>

theorem shim_start_result:
  assumes "manager_Start h cid address debug [] = (Ok a, l)"
  shows "\<exists>annotations. manager_readSpec h = Ok annotations \<and>
    sh_SocketAddress h address (grouping_loop annotations groupLabels cid) False = Inr a \<and>
    ((clean h l \<and> (\<exists>p. l = p @ [CanConnect a] \<and> sh_ok h p (CanConnect a))) \<or>
     (\<exists>c addrs. shim_running h l = {c} \<and> shim_command h cid address debug (a # addrs) c))"
proof -
  obtain cmd annotations where 1: "newCommand h cid address debug = Ok cmd" "manager_readSpec h = Ok annotations"
    using assms by (cases "newCommand h cid address debug"; cases "manager_readSpec h") (auto simp: manager_Start_def)
  let ?g = "grouping_loop annotations groupLabels cid"
  obtain r1 l1 where s1: "newShimSocket h address ?g False [] = (r1, l1)" by force
  note h1 = newShimSocket_holds [OF holds_Nil [of h "{}"] s1]
  show ?thesis
  proof (cases r1)
    case (NewSock s)
    then have s: "sh_SocketAddress h address ?g False = Inr (ss_addr s)" "holds h {ss_addr s} l1" using h1 by simp_all
    have "\<exists>ss l2 A. holds h A l2 \<and> start_process h cmd (s # ss) l2 = (Ok a, l)"
    proof (cases debug)
      case True
      obtain r2 l2 where s2: "newShimSocket h address ?g True l1 = (r2, l2)" by force
      then obtain d where "r2 = NewSock d"
        using assms 1 s1 NewSock True by (cases r2) (auto simp: manager_Start_def)
      then show ?thesis
        using newShimSocket_holds [OF s(2) s2] assms 1 s1 NewSock s2 True by (auto simp: manager_Start_def)
    next
      case False
      then show ?thesis using assms 1 s1 NewSock s(2) by (auto simp: manager_Start_def)
    qed
    then obtain ss l2 A where "holds h A l2" "start_process h cmd (s # ss) l2 = (Ok a, l)" by blast
    from start_process_Ok [OF this] show ?thesis
      using 1 s(1) by (auto simp: shim_command_def)
  next
    case (InUse b)
    then have "a = b" "l = l1" using assms 1 s1 by (simp_all add: manager_Start_def)
    then show ?thesis using h1 InUse 1 by (auto simp: clean_holds)
  next
    case (SockErr e)
    then show ?thesis using assms 1 s1 by (simp add: manager_Start_def split: if_splits)
  qed
qed

theorem shim_start_result_witness:
  "fst (manager_Start (demo_shim_host\<lparr>sh_answer := \<lambda>_ _. None\<rparr>) ''c1'' ''/run'' True []) = Ok ''c1'' \<and>
   (\<exists>c. shim_running (demo_shim_host\<lparr>sh_answer := \<lambda>_ _. None\<rparr>)
     (snd (manager_Start (demo_shim_host\<lparr>sh_answer := \<lambda>_ _. None\<rparr>) ''c1'' ''/run'' True [])) = {c})"
proof
  let ?h = "demo_shim_host\<lparr>sh_answer := \<lambda>_ _. None\<rparr>"
  let ?r = "manager_Start ?h ''c1'' ''/run'' True []"
  note defs = manager_Start_def demo_shim_host_def newCommand_def manager_readSpec_def groupLabels_def newShimSocket_def
    socket_file_def start_process_def Let_def
  show ok: "fst ?r = Ok ''c1''" by (simp add: defs)
  have "last (snd ?r) = AdjustOOMScore" by (simp add: defs)
  then have "snd ?r \<noteq> p @ [CanConnect ''c1'']" for p by auto
  moreover have "?r = (Ok ''c1'', snd ?r)" using ok by (metis prod.collapse)
  ultimately show "\<exists>c. shim_running ?h (snd ?r) = {c}" using shim_start_result [of ?h] by blast
qed

text \<open>Containers of one group share the socket: with the label, the id of the container does
  not matter.\<close>

lemma group_label_decides:
  "map_of annotations ''io.containerd.runc.v2.group'' = Some g \<Longrightarrow>
   grouping_loop annotations groupLabels cid = g"
  "map_of annotations ''io.containerd.runc.v2.group'' = None \<Longrightarrow>
   map_of annotations ''io.kubernetes.cri.sandbox-id'' = Some g \<Longrightarrow>
   grouping_loop annotations groupLabels cid = g"
  "map_of annotations ''io.containerd.runc.v2.group'' = None \<Longrightarrow>
   map_of annotations ''io.kubernetes.cri.sandbox-id'' = None \<Longrightarrow>
   grouping_loop annotations groupLabels cid = cid"
  by (simp_all add: groupLabels_def)

section \<open>Stopping\<close>

lemma NewContainer_pid_file:
  assumes "NewContainer E r fs = (Ok c, fs', fx)" "osGetpid E < 2 ^ 63"
  shows "ReadPid (crBundle r) fs' = Ok (int (osGetpid E))"
proof -
  have "fst (NewContainer E r fs) = Ok c" using assms(1) by simp
  then obtain opts where "NewContainer_write E r opts fs = (Ok (), fs')"
    using assms(1) by (elim NewContainer_ok) auto
  then have "fs' (filepath_Join [crBundle r, ''pid'']) = Some (nat_digits (osGetpid E))"
    by (auto simp: NewContainer_write_def WriteOptions_def WriteRuntime_def WritePid_def write_file_def
        split: sum.splits option.splits)
  then show ?thesis using Atoi_nat_digits [OF assms(2)] by (simp add: ReadPid_def read_file_def)
qed

text \<open>
  C27: \<open>Stop\<close> kills the shim of the bundle. After a shim has created a container in a bundle
  directory, the delete call for this bundle reads the process id of that very shim from the
  file the container's creation wrote, and sends it the kill signal; without the file it
  kills nothing and reports the same exit status.
\<close>

theorem stop_kills_creating_shim:
  assumes "NewContainer E r fs = (Ok c, fs', fx)" "osGetpid E < 2 ^ 63"
    and "crBundle r = filepath_Join [filepath_Dir cwd, cid]"
  shows "manager_Stop (Inr cwd) cid fs' =
      Ok (\<lparr>st_ExitStatus = 137, st_Pid = int (osGetpid E)\<rparr>, Some (int (osGetpid E))) \<and>
    manager_Stop (Inr cwd) cid (fs'(filepath_Join [crBundle r, ''pid''] := None)) =
      Ok (\<lparr>st_ExitStatus = 137, st_Pid = 0\<rparr>, None)"
proof -
  have "ReadPid (crBundle r) fs' = Ok (int (osGetpid E))"
    using NewContainer_pid_file [OF assms(1,2)] .
  moreover have "ReadPid (crBundle r) (fs'(filepath_Join [crBundle r, ''pid''] := None)) = Fail file_missing"
    by (simp add: ReadPid_def read_file_def)
  ultimately show ?thesis using assms(3) by (simp add: manager_Stop_def)
qed

theorem stop_kills_creating_shim_witness:
  "manager_Stop (Inr ''/x'') ''b'' (fst (snd (NewContainer env_ok tty_create_request (\<lambda>_. None)))) =
   Ok (\<lparr>st_ExitStatus = 137, st_Pid = 77\<rparr>, Some 77)"
proof -
  obtain fs' fx where n: "NewContainer env_ok tty_create_request (\<lambda>_. None) = (Ok tty_container, fs', fx)"
    using tty_container_new by (metis prod.collapse)
  have "crBundle tty_create_request = filepath_Join [filepath_Dir ''/x'', ''b'']"
    by (simp add: tty_create_request_def) code_simp
  from stop_kills_creating_shim [OF n _ this] n show ?thesis by (simp add: env_ok_def)
qed

end
