(* ===== verification/Spec2Isabelle.thy ===== *)
theory Spec2Isabelle
  imports Registry ServiceProtocol TaskGroup RemoteRuntime KernelImage VsockManager Reaper
    GuestBoot RunningVM ProcWatch ShimManager
begin

text \<open>
  A verification library for runm, a containerd shim that runs each container in a small virtual machine. The
  host part (\<open>cmd/containerd-shim-runm-v2\<close>) answers the task requests of containerd and drives an OCI runtime; that
  runtime is a client (\<open>core/runc/runtime/grpc\<close>) of a server in the guest (\<open>core/runc/server\<close>), which runs the
  containers. The machine is configured and started by \<open>core/virt/vmm\<close>; two programs set it up from the inside
  (\<open>cmd/runm-linux-mounter\<close>, \<open>cmd/runm-linux-init\<close>). Around them are a library of task groups, the reaper and the
  watcher of processes, the search for the kernel in its image, and the connection to the machine.

  \<^bold>\<open>How the code is modelled.\<close> A struct is a record, an enumeration a datatype, a method a function from the state
  to a result and the new state. A result is \<open>Ok\<close>, \<open>Fail\<close> with the error the code builds, or \<open>Panic\<close>
  (theory \<open>Prelude\<close>). What is not in the repository (the operating system, go-runc, containerd, gRPC, parsers and
  decompressors) is an argument: a record of functions for what its calls return. Fields and lists that only record what
  happened (calls made, descriptors closed) have no counterpart in the code and are never read by it. Code that runs in
  several goroutines is cut into actions at its locks and channel operations, and an execution is any
  interleaving of them; an action that has to block is not possible. Log records, times and the formatted arguments of
  messages are left out.

  \<^bold>\<open>The shim.\<close>
  \<^item> \<open>ProcessIO\<close>, \<open>ExitLatch\<close>, \<open>InitProcess\<close>, \<open>ExecProcess\<close>: \<open>process/io.go\<close>, \<open>init.go\<close>, \<open>init_state.go\<close>,
    \<open>deleted_state.go\<close>, \<open>exec.go\<close>, \<open>exec_state.go\<close> and \<open>utils.go\<close>. The records \<open>init\<close> and \<open>exec\<close> are the Go structs
    with the state object as a datatype; one function per method and state. Both processes simulate an abstract life
    cycle, keep their exit record, and never panic, apart from the failing exec start that is described below.
  \<^item> \<open>Container\<close>: \<open>runm/container.go\<close> and \<open>util.go\<close>, with the files of the bundle as a map. Its invariant holds under
    every sequence of calls, and the files written are read back.
  \<^item> \<open>TaskService\<close>, \<open>Threads\<close>, \<open>ServiceInvariants\<close>, \<open>ServiceProtocol\<close>: \<open>task/service.go\<close>. The first has the actions,
    the second what lists of pending actions weigh, the third the invariant of all executions, the last the protocol of
    exits. In quiet executions, in which no process is started twice, init does not exit before its start is recorded and
    a container is deleted only after its exit has been published, the exit of init is published last, the counter of
    running execs is exact and nothing gets stuck; two executions that are not quiet show how that fails.
  \<^item> \<open>ShimManager\<close>: \<open>manager/manager.go\<close>. \<open>Start\<close> either joins the shim of the container's group or leaves exactly one
    new process, and cleans up after every failure; \<open>Stop\<close> kills the process that created the bundle's container.

  \<^bold>\<open>The machine.\<close>
  \<^item> \<open>VmConfig\<close>: \<open>oci.go\<close>, \<open>default.go\<close>, \<open>vmfuse.go\<close>, \<open>empty.go\<close> and \<open>net.go\<close> of \<open>core/virt/vmm\<close> and the device
    descriptions of \<open>core/virt/virtio\<close>. The calls of the host are a log, and its answers may depend on all of it.
  \<^item> \<open>GuestBoot\<close>: the \<open>main.go\<close> of both guest programs as lists of steps, with Go's flag parser between host and guest.
    The guest reads from its kernel arguments what the host wrote, mounts what the host shares, and starts its servers
    only afterwards; a path with a comma stops it.
  \<^item> \<open>RunningVM\<close>: \<open>runningvm.go\<close>, \<open>vsock.go\<close>, \<open>hypervisor.go\<close> and \<open>hostservice.go\<close>: \<open>Start\<close>, \<open>Close\<close>, the waiters, the
    proxies and the descriptors they own. \<open>Close\<close> never returns after a \<open>Start\<close>, and only one waiter gets a result.

  \<^bold>\<open>The guest.\<close>
  \<^item> \<open>SyncMap\<close>, \<open>Registry\<close>: \<open>pkg/syncmap\<close> and \<open>core/runc/state\<close>; the registry refines partial maps.
  \<^item> \<open>Runtime\<close>, \<open>Conversion\<close>: the data of the runtime interface and \<open>core/runc/conversion\<close>.
  \<^item> \<open>GuestServer\<close>: \<open>core/runc/server\<close>. In every reachable state a socket has the kind and the address it is
    registered under.
  \<^item> \<open>RemoteRuntime\<close>: \<open>core/runc/runtime/grpc\<close> with the server behind it. A request may be lost, fail or be delivered;
    the streams are wired straight, and a delivered \<open>Create\<close> is the same call in the guest.

  \<^bold>\<open>The libraries.\<close>
  \<^item> \<open>GoStrings\<close>, \<open>Tasks\<close>, \<open>GoroutineDump\<close>, \<open>TaskGroup\<close>: \<open>pkg/taskgroup\<close>. Limits and registry are exact, the cleanup
    order is reversed, the parser of goroutine profiles reports what a printed profile says; \<open>Wait\<close> blocks on its own
    lock.
  \<^item> \<open>Reaper\<close>: \<open>core/runc/runtime/gorunc/reaper\<close> and the stream of exits to the host. Every exit reaches every
    subscriber exactly once.
  \<^item> \<open>ProcWatch\<close>: \<open>pkg/psnotify\<close> and its consumer \<open>cmd/runm-linux-init/psnotify.go\<close>, from the bytes of the kernel's
    messages to the table of watched processes, which holds exactly the living descendants of the first one.
  \<^item> \<open>KernelImage\<close>: \<open>core/virt/host/extract-vmlinux.go\<close>. The parallel search equals the sequential one.
  \<^item> \<open>VsockManager\<close>: \<open>core/virt/vmm/vsock_manager.go\<close> and \<open>state.go\<close>. Dialing ends after the given number of attempts.

  \<^bold>\<open>Interfaces.\<close> The contract of an invariant is the locale \<open>inductive_invariant\<close>, interpreted on the step relation of
  every component with one; a keyed store is the locale \<open>keyed_store\<close>, interpreted on the map of \<open>SyncMap\<close>; the channel
  that is closed when an exit is recorded is the locale \<open>exit_latch\<close>, interpreted on both kinds of processes; a
  program of steps that stops at the first error is the locale \<open>command_runner\<close>, interpreted on both guest programs.

  \<^bold>\<open>Bounds.\<close> No function has fuel. Loops that need not end (\<open>dial_loop\<close>, \<open>wait_loop\<close>, \<open>reap_loop\<close>, the accept loops of the proxies, \<open>parent_chain\<close>) are partial
  functions with the value \<open>None\<close> when they do not return, and that they return is a theorem with its condition.
  Integers keep their width where the code cuts them: terminal sizes (16 bits), ports (16 and 32 bits), process
  numbers and event flags on the wire (32 bits) and goroutine numbers (64 bits); others are unbounded.

  \<^bold>\<open>Not modelled.\<close> The hypervisor binding, the network and the shared file system, the buildkit executor and the local
  runtime are sequences of calls of the operating system or of libraries that are not in the repository, with hardly any
  state of their own. Logging only formats and transports records. The protocol code and the mocks are generated. Of the
  modelled packages the device kinds no machine is built with, the cgroup exporter and the signal handling of the guest's
  init, the forwarding of event and cgroup streams, the out-of-memory watcher and the copying of bytes are left out.
\<close>

end
